(* ===== verification/Prelude.thy ===== *)
theory Prelude
  imports
    Main
    "HOL-Library.Word"
    "HOL-Library.Sublist"
    "HOL-Library.Char_ord"
    "HOL-Library.List_Lexorder"
    "HOL-Library.AList"
begin

text \<open>
  Shared vocabulary of the development. A Rust \<open>str\<close> is the list of its UTF-8 bytes
  (\<open>string\<close>, one \<open>char\<close> per byte), so lengths, slices and byte order are those of the
  code. A \<open>Result\<close> is a sum with the error on the left. Machine integers keep their
  width where the code saturates or wraps. A \<open>BTreeMap\<close> is the list of its entries in
  key order. The locale at the end states once what a component driven by a sequence of
  operations needs for its invariant to hold throughout.
\<close>

section \<open>Lemma collections\<close>

named_theorems inv_intros \<open>operations keep the invariant of their component\<close>
named_theorems frame_simps \<open>what an operation leaves alone\<close>
named_theorems step_simps \<open>equations of operations used to run them\<close>

section \<open>Results\<close>

type_synonym ('e, 'a) result = "'e + 'a"

abbreviation Ok :: "'a \<Rightarrow> 'e + 'a" where "Ok \<equiv> Inr"
abbreviation Err :: "'e \<Rightarrow> 'e + 'a" where "Err \<equiv> Inl"

definition rbind :: "'e + 'a \<Rightarrow> ('a \<Rightarrow> 'e + 'b) \<Rightarrow> 'e + 'b" where
  "rbind r f = (case r of Inl e \<Rightarrow> Inl e | Inr a \<Rightarrow> f a)"

lemma rbind_simps [simp]:
  "rbind (Inl e) f = Inl e" "rbind (Inr a) f = f a"
  by (simp_all add: rbind_def)

lemma rbind_eq_Inr: "rbind r f = Inr b \<longleftrightarrow> (\<exists>a. r = Inr a \<and> f a = Inr b)"
  by (cases r) auto

lemma rbind_eq_Inl: "rbind r f = Inl e \<longleftrightarrow> r = Inl e \<or> (\<exists>a. r = Inr a \<and> f a = Inl e)"
  by (cases r) auto

lemma rbind_split:
  "P (rbind r f) \<longleftrightarrow> (\<forall>e. r = Inl e \<longrightarrow> P (Inl e)) \<and> (\<forall>a. r = Inr a \<longrightarrow> P (f a))"
  by (cases r) auto

text \<open>A call on an outside world that may fail, and what follows it with \<open>?\<close>.\<close>

definition sbind :: "'n \<times> ('e + 'a) \<Rightarrow> ('a \<Rightarrow> 'n \<Rightarrow> 'n \<times> ('e + 'b)) \<Rightarrow> 'n \<times> ('e + 'b)" where
  "sbind x f = (case x of (n, Inl e) \<Rightarrow> (n, Inl e) | (n, Inr a) \<Rightarrow> f a n)"

lemma sbind_simps [simp]:
  "sbind (n, Inl e) f = (n, Inl e)" "sbind (n, Inr a) f = f a n"
  by (simp_all add: sbind_def)

lemma sbind_eq_Inr:
  "sbind x f = (n', Inr b) \<longleftrightarrow> (\<exists>n a. x = (n, Inr a) \<and> f a n = (n', Inr b))"
  by (cases x; cases "snd x") auto

text \<open>What holds of the world after a call and is kept by what follows holds after both.\<close>

lemma sbind_fst:
  assumes "P (fst x)" and "\<And>n a. x = (n, Inr a) \<Longrightarrow> P n \<Longrightarrow> P (fst (f a n))"
  shows "P (fst (sbind x f))"
  using assms by (cases x; cases "snd x") auto

lemma sbind_ext: "(\<And>n a. x = (n, Inr a) \<Longrightarrow> f a n = g a n) \<Longrightarrow> sbind x f = sbind x g"
  by (cases x; cases "snd x") auto

definition ok :: "'e + 'a \<Rightarrow> 'a option" where
  "ok r = (case r of Inl _ \<Rightarrow> None | Inr a \<Rightarrow> Some a)"

lemma ok_simps [simp]: "ok (Inl e) = None" "ok (Inr a) = Some a"
  by (simp_all add: ok_def)

definition ok_or :: "'e \<Rightarrow> 'a option \<Rightarrow> 'e + 'a" where
  "ok_or e x = (case x of None \<Rightarrow> Inl e | Some a \<Rightarrow> Inr a)"

lemma ok_or_simps [simp]: "ok_or e None = Inl e" "ok_or e (Some a) = Inr a"
  by (simp_all add: ok_or_def)

lemma ok_or_eq_Inr [simp]: "ok_or e x = Inr a \<longleftrightarrow> x = Some a"
  by (cases x) simp_all

text \<open>Collecting a list of results stops at the first error, as \<open>collect\<close> into a
  \<open>Result\<close> does.\<close>

fun collect :: "('a \<Rightarrow> 'e + 'b) \<Rightarrow> 'a list \<Rightarrow> 'e + 'b list" where
  "collect f [] = Inr []"
| "collect f (x # xs) = rbind (f x) (\<lambda>y. rbind (collect f xs) (\<lambda>ys. Inr (y # ys)))"

lemma collect_Inr_iff:
  "collect f xs = Inr ys \<longleftrightarrow> list_all2 (\<lambda>x y. f x = Inr y) xs ys"
  by (induction xs arbitrary: ys) (auto simp: rbind_eq_Inr list_all2_Cons1)

lemma collect_map_Inr: "(\<And>x. x \<in> set xs \<Longrightarrow> f x = Inr (g x)) \<Longrightarrow> collect f xs = Inr (map g xs)"
  by (induction xs) auto

section \<open>Machine integers\<close>

type_synonym u8 = "8 word"
type_synonym u16 = "16 word"
type_synonym u32 = "32 word"
type_synonym u64 = "64 word"

definition sat_add :: "'a::len word \<Rightarrow> 'a word \<Rightarrow> 'a word" where
  "sat_add a b = (if unat a + unat b < 2 ^ LENGTH('a) then a + b else - 1)"

definition sat_sub :: "'a::len word \<Rightarrow> 'a word \<Rightarrow> 'a word" where
  "sat_sub a b = (if a < b then 0 else a - b)"

definition sat_mul :: "'a::len word \<Rightarrow> 'a word \<Rightarrow> 'a word" where
  "sat_mul a b = (if unat a * unat b < 2 ^ LENGTH('a) then a * b else - 1)"

definition checked_shl :: "'a::len word \<Rightarrow> nat \<Rightarrow> 'a word option" where
  "checked_shl a n = (if n < LENGTH('a) then Some (push_bit n a) else None)"

lemma unat_minus_1: "unat (- 1 :: 'a::len word) = 2 ^ LENGTH('a) - 1"
  by (simp add: unsigned_minus_1_eq_mask mask_eq_exp_minus_1)

lemma unat_sat_add: "unat (sat_add a b) = min (unat a + unat b) (2 ^ LENGTH('a) - 1)"
  for a b :: "'a::len word"
proof (cases "unat a + unat b < 2 ^ LENGTH('a)")
  case True
  then have "unat a + unat b \<le> 2 ^ LENGTH('a) - 1" by linarith
  with True show ?thesis by (simp add: sat_add_def unat_word_ariths)
qed (simp add: sat_add_def unat_minus_1)

lemma unat_sat_mul: "unat (sat_mul a b) = min (unat a * unat b) (2 ^ LENGTH('a) - 1)"
  for a b :: "'a::len word"
proof (cases "unat a * unat b < 2 ^ LENGTH('a)")
  case True
  then have "unat a * unat b \<le> 2 ^ LENGTH('a) - 1" by linarith
  with True show ?thesis by (simp add: sat_mul_def unat_word_ariths)
qed (simp add: sat_mul_def unat_minus_1)

lemma unat_sat_sub: "unat (sat_sub a b) = unat a - unat b"
  for a b :: "'a::len word"
  by (auto simp: sat_sub_def word_less_nat_alt unat_sub_if_size)

lemma sat_add_ge: "a \<le> sat_add a b"
  for a b :: "'a::len word"
proof -
  have "unat a < 2 ^ LENGTH('a)" by (rule unsigned_less)
  then have "unat a \<le> 2 ^ LENGTH('a) - 1" by linarith
  then show ?thesis by (simp add: word_le_nat_alt unat_sat_add)
qed

lemma sat_add_1_pos: "0 < sat_add a 1"
  for a :: "'a::len word"
proof -
  have "1 < (2::nat) ^ LENGTH('a)" by (rule one_less_power) simp_all
  then show ?thesis by (simp add: word_less_nat_alt unat_sat_add)
qed

lemma checked_shl_1: "checked_shl (1 :: 'a::len word) n =
    (if n < LENGTH('a) then Some (2 ^ n) else None)"
  by (simp add: checked_shl_def push_bit_eq_mult)

section \<open>Ordered maps\<close>

text \<open>
  A \<open>BTreeMap\<close> iterates in key order, so it is modelled by the list of its entries,
  sorted by key. \<open>get\<close> is the library's \<open>map_of\<close>.
\<close>

type_synonym ('k, 'v) btree = "('k \<times> 'v) list"

definition bt_wf :: "('k::linorder, 'v) btree \<Rightarrow> bool" where
  "bt_wf m = sorted_wrt (<) (map fst m)"

fun bt_insert :: "'k::linorder \<Rightarrow> 'v \<Rightarrow> ('k, 'v) btree \<Rightarrow> ('k, 'v) btree" where
  "bt_insert k v [] = [(k, v)]"
| "bt_insert k v ((k', v') # m) =
     (if k < k' then (k, v) # (k', v') # m
      else if k = k' then (k, v) # m
      else (k', v') # bt_insert k v m)"

definition bt_remove :: "'k \<Rightarrow> ('k, 'v) btree \<Rightarrow> ('k, 'v) btree" where
  "bt_remove k m = filter (\<lambda>(k', _). k' \<noteq> k) m"

abbreviation bt_get :: "('k, 'v) btree \<Rightarrow> 'k \<Rightarrow> 'v option" where
  "bt_get \<equiv> map_of"

abbreviation bt_keys :: "('k, 'v) btree \<Rightarrow> 'k list" where
  "bt_keys m \<equiv> map fst m"

definition bt_extend :: "('k::linorder, 'v) btree \<Rightarrow> ('k \<times> 'v) list \<Rightarrow> ('k, 'v) btree" where
  "bt_extend m es = foldl (\<lambda>m (k, v). bt_insert k v m) m es"

definition bt_of_list :: "('k::linorder \<times> 'v) list \<Rightarrow> ('k, 'v) btree" where
  "bt_of_list es = bt_extend [] es"

lemma bt_wf_Nil [simp]: "bt_wf []"
  by (simp add: bt_wf_def)

lemma bt_wf_Cons [simp]: "bt_wf ((k, v) # m) \<longleftrightarrow> (\<forall>k' \<in> set (map fst m). k < k') \<and> bt_wf m"
  by (auto simp: bt_wf_def)

lemma set_bt_insert_keys: "set (map fst (bt_insert k v m)) = insert k (set (map fst m))"
  by (induction k v m rule: bt_insert.induct) (simp_all add: insert_commute insert_absorb2)

lemma bt_wf_insert [inv_intros]: "bt_wf m \<Longrightarrow> bt_wf (bt_insert k v m)"
proof (induction m)
  case (Cons e m)
  obtain k' v' where e: "e = (k', v')" by (cases e)
  from Cons have "bt_wf (bt_insert k v m)" by (simp add: e)
  with Cons.prems show ?case
    using set_bt_insert_keys [of k v m] by (auto simp: e)
qed simp

lemma bt_wf_remove [inv_intros]: "bt_wf m \<Longrightarrow> bt_wf (bt_remove k m)"
  by (induction m) (auto simp: bt_remove_def)

lemma bt_wf_distinct: "bt_wf m \<Longrightarrow> distinct (map fst m)"
  by (auto simp: bt_wf_def strict_sorted_iff)

lemma bt_get_insert [simp]: "bt_get (bt_insert k v m) = (bt_get m)(k \<mapsto> v)"
  by (induction m) auto

lemma bt_get_remove [simp]: "bt_get (bt_remove k m) = (bt_get m)(k := None)"
  by (induction m) (auto simp: bt_remove_def)

lemma bt_get_None_below: "\<forall>k' \<in> set (map fst m). (k::'k::linorder) < k' \<Longrightarrow> bt_get m k = None"
  by (induction m) auto

text \<open>A map is determined by its lookups: two well-formed maps that agree are equal.\<close>

lemma bt_ext: "bt_wf m \<Longrightarrow> bt_wf n \<Longrightarrow> bt_get m = bt_get n \<Longrightarrow> m = n"
proof (induction m arbitrary: n)
  case Nil
  then show ?case by simp
next
  case (Cons e m)
  obtain k v where e: "e = (k, v)" by (cases e)
  have "n \<noteq> []" using Cons.prems(3) by (metis map_of_eq_empty_iff list.distinct(1))
  then obtain k' v' n' where n: "n = (k', v') # n'" by (cases n) auto
  have mk: "bt_get m k = None" by (rule bt_get_None_below) (use Cons.prems(1) in \<open>simp add: e\<close>)
  have nk: "bt_get n' k' = None" by (rule bt_get_None_below) (use Cons.prems(2) in \<open>simp add: n\<close>)
  have "k = k'"
  proof (rule linorder_cases [of k k'])
    assume "k < k'"
    then have "bt_get n k = None"
      by (intro bt_get_None_below) (use Cons.prems(2) in \<open>auto simp: n dest: less_trans\<close>)
    then show ?thesis using fun_cong [OF Cons.prems(3), of k] by (simp add: e)
  next
    assume "k' < k"
    then have "bt_get (e # m) k' = None"
      by (intro bt_get_None_below) (use Cons.prems(1) in \<open>auto simp: e dest: less_trans\<close>)
    then show ?thesis using fun_cong [OF Cons.prems(3), of k'] by (simp add: n)
  qed simp
  moreover from this have "v = v'" using fun_cong [OF Cons.prems(3), of k] by (simp add: e n)
  moreover have "bt_get m = bt_get n'"
  proof
    fix x show "bt_get m x = bt_get n' x"
      using fun_cong [OF Cons.prems(3), of x] mk nk \<open>k = k'\<close>
      by (cases "x = k") (auto simp: e n)
  qed
  ultimately show ?case using Cons.IH Cons.prems by (simp add: e n)
qed

lemma bt_wf_extend [inv_intros]: "bt_wf m \<Longrightarrow> bt_wf (bt_extend m es)"
  unfolding bt_extend_def by (induction es arbitrary: m) (auto intro: inv_intros)

lemma bt_get_extend: "bt_get (bt_extend m es) = bt_get m ++ map_of (rev es)"
  unfolding bt_extend_def by (induction es arbitrary: m) (auto simp: map_add_def fun_eq_iff split: option.splits)

section \<open>Operation-driven components\<close>

text \<open>
  A component that is only changed through its operations: if the initial state satisfies
  the invariant and every operation keeps it, every sequence of operations does. Each
  component of the model is an interpretation of this contract.
\<close>

definition run_ops :: "('s \<Rightarrow> 'o \<Rightarrow> 's) \<Rightarrow> 's \<Rightarrow> 'o list \<Rightarrow> 's" where
  "run_ops step s os = foldl step s os"

lemma run_ops_simps [simp, code]:
  "run_ops step s [] = s"
  "run_ops step s (x # xs) = run_ops step (step s x) xs"
  by (simp_all add: run_ops_def)

lemma run_ops_append [simp]:
  "run_ops step s (xs @ ys) = run_ops step (run_ops step s xs) ys"
  by (simp add: run_ops_def)

locale op_machine =
  fixes step :: "'s \<Rightarrow> 'o \<Rightarrow> 's"
    and inv :: "'s \<Rightarrow> bool"
    and init :: "'s"
  assumes inv_init: "inv init"
    and inv_step: "inv s \<Longrightarrow> inv (step s x)"
begin

lemma inv_run: "inv s \<Longrightarrow> inv (run_ops step s xs)"
  by (induction xs arbitrary: s) (auto intro: inv_step)

lemma inv_reachable: "inv (run_ops step init xs)"
  by (rule inv_run [OF inv_init])

end

end
