(* ===== verification/Client_Lifecycle.thy ===== *)
theory Client_Lifecycle
  imports Prelude
begin

text \<open>
  \<open>crates/tinymcp-bus/src/client_lifecycle/machine.rs\<close>: the open/close state machine of
  one directory. \<open>McpClientConfig\<close> is only cloned and compared, so it is the type
  parameter \<open>'cfg\<close>. Methods with a \<open>&mut self\<close> receiver return the new machine, with
  their result where they have one.
\<close>

section \<open>State\<close>

datatype transition_status = Pending | Complete | Failed | Unknown

record open_configured_response =
  ocr_object_path :: string
  ocr_transition_id :: string

record 'cfg open_object =
  oo_config :: 'cfg
  oo_object_path :: string

datatype 'cfg dir_state =
    Closed
  | StartingOpen 'cfg "'cfg open_object option"
  | Opening 'cfg "'cfg open_object option" open_configured_response
  | Open "'cfg open_object"
  | StartingClose "'cfg open_object"
  | Closing "'cfg open_object" string

datatype 'cfg lc_step =
    StepReady "'cfg open_object"
  | CallOpen 'cfg
  | PollOpen string
  | CallClose
  | PollClose string
  | StepClosed

datatype fault = FaultTransport | FaultModule

datatype poll = Continue | Done | PollFault fault

record 'cfg configured_lifecycle =
  lc_state :: "'cfg dir_state"
  retried_terminal :: bool

definition lc_new :: "'cfg configured_lifecycle" where
  "lc_new = \<lparr>lc_state = Closed, retried_terminal = False\<rparr>"

definition is_closed :: "'cfg configured_lifecycle \<Rightarrow> bool" where
  "is_closed m = (case lc_state m of Closed \<Rightarrow> True | _ \<Rightarrow> False)"

definition open_object_of :: "'cfg configured_lifecycle \<Rightarrow> 'cfg open_object option" where
  "open_object_of m = (case lc_state m of Open object \<Rightarrow> Some object | _ \<Rightarrow> None)"

section \<open>Operations\<close>

definition open_step ::
    "'cfg configured_lifecycle \<Rightarrow> 'cfg \<Rightarrow> 'cfg configured_lifecycle \<times> 'cfg lc_step" where
  "open_step m requested =
     (case lc_state m of
        Open object \<Rightarrow>
          (if oo_config object = requested then (m, StepReady object)
           else (m\<lparr>lc_state := StartingOpen requested (Some object)\<rparr>, CallOpen requested))
      | Closed \<Rightarrow> (m\<lparr>lc_state := StartingOpen requested None\<rparr>, CallOpen requested)
      | StartingOpen config _ \<Rightarrow> (m, CallOpen config)
      | Opening _ _ receipt \<Rightarrow> (m, PollOpen (ocr_transition_id receipt))
      | StartingClose _ \<Rightarrow> (m, CallClose)
      | Closing _ transition_id \<Rightarrow> (m, PollClose transition_id))"

definition close_step ::
    "'cfg configured_lifecycle \<Rightarrow> 'cfg configured_lifecycle \<times> 'cfg lc_step" where
  "close_step m =
     (case lc_state m of
        Closed \<Rightarrow> (m, StepClosed)
      | Open object \<Rightarrow> (m\<lparr>lc_state := StartingClose object\<rparr>, CallClose)
      | StartingOpen config _ \<Rightarrow> (m, CallOpen config)
      | Opening _ _ receipt \<Rightarrow> (m, PollOpen (ocr_transition_id receipt))
      | StartingClose _ \<Rightarrow> (m, CallClose)
      | Closing _ transition_id \<Rightarrow> (m, PollClose transition_id))"

definition open_replied ::
    "'cfg configured_lifecycle \<Rightarrow> unit + open_configured_response \<Rightarrow> 'cfg configured_lifecycle"
where
  "open_replied m reply =
     (case lc_state m of
        StartingOpen config previous \<Rightarrow>
          (case reply of
             Inr receipt \<Rightarrow> m\<lparr>lc_state := Opening config previous receipt\<rparr>
           | Inl _ \<Rightarrow>
               m\<lparr>retried_terminal := False,
                 lc_state := (case previous of None \<Rightarrow> Closed | Some object \<Rightarrow> Open object)\<rparr>)
      | _ \<Rightarrow> m)"

definition open_polled ::
    "'cfg configured_lifecycle \<Rightarrow> transition_status \<Rightarrow> 'cfg configured_lifecycle \<times> poll" where
  "open_polled m status =
     (case lc_state m of
        Opening config previous receipt \<Rightarrow>
          (case status of
             Pending \<Rightarrow> (m, Continue)
           | Complete \<Rightarrow>
               (m\<lparr>retried_terminal := False,
                  lc_state := Open \<lparr>oo_config = config, oo_object_path = ocr_object_path receipt\<rparr>\<rparr>,
                Done)
           | _ \<Rightarrow>
               (if retried_terminal m
                then (m\<lparr>retried_terminal := False\<rparr>, PollFault FaultTransport)
                else (m\<lparr>retried_terminal := True, lc_state := StartingOpen config previous\<rparr>,
                      Continue)))
      | _ \<Rightarrow> (m, Continue))"

definition close_replied ::
    "'cfg configured_lifecycle \<Rightarrow> unit + string option \<Rightarrow> 'cfg configured_lifecycle" where
  "close_replied m reply =
     (case lc_state m of
        StartingClose object \<Rightarrow>
          (case reply of
             Inr (Some transition_id) \<Rightarrow> m\<lparr>lc_state := Closing object transition_id\<rparr>
           | Inr None \<Rightarrow> m\<lparr>retried_terminal := False, lc_state := Closed\<rparr>
           | Inl _ \<Rightarrow> m)
      | _ \<Rightarrow> m)"

definition close_polled ::
    "'cfg configured_lifecycle \<Rightarrow> transition_status \<Rightarrow> 'cfg configured_lifecycle \<times> poll" where
  "close_polled m status =
     (case lc_state m of
        Closing object _ \<Rightarrow>
          (case status of
             Pending \<Rightarrow> (m, Continue)
           | Complete \<Rightarrow> (m\<lparr>retried_terminal := False, lc_state := Closed\<rparr>, Done)
           | _ \<Rightarrow>
               (if retried_terminal m
                then (m\<lparr>retried_terminal := False\<rparr>, PollFault FaultTransport)
                else (m\<lparr>retried_terminal := True, lc_state := StartingClose object\<rparr>, Continue)))
      | _ \<Rightarrow> (m, Continue))"

lemmas lc_defs = open_step_def close_step_def open_replied_def open_polled_def
  close_replied_def close_polled_def

text \<open>The calls a host makes on the machine, as one alphabet.\<close>

datatype 'cfg lc_op =
    OpOpenStep 'cfg
  | OpCloseStep
  | OpOpenReplied "unit + open_configured_response"
  | OpOpenPolled transition_status
  | OpCloseReplied "unit + string option"
  | OpClosePolled transition_status

fun lc_apply :: "'cfg configured_lifecycle \<Rightarrow> 'cfg lc_op \<Rightarrow> 'cfg configured_lifecycle" where
  "lc_apply m (OpOpenStep requested) = fst (open_step m requested)"
| "lc_apply m OpCloseStep = fst (close_step m)"
| "lc_apply m (OpOpenReplied reply) = open_replied m reply"
| "lc_apply m (OpOpenPolled status) = fst (open_polled m status)"
| "lc_apply m (OpCloseReplied reply) = close_replied m reply"
| "lc_apply m (OpClosePolled status) = fst (close_polled m status)"

section \<open>The retry budget is fresh whenever the directory is settled\<close>

definition lc_settled :: "'cfg configured_lifecycle \<Rightarrow> bool" where
  "lc_settled m = (is_closed m \<or> open_object_of m \<noteq> None)"

definition lc_inv :: "'cfg configured_lifecycle \<Rightarrow> bool" where
  "lc_inv m = (lc_settled m \<longrightarrow> \<not> retried_terminal m)"

lemma lc_settled_iff:
  "lc_settled m \<longleftrightarrow> (case lc_state m of Closed \<Rightarrow> True | Open _ \<Rightarrow> True | _ \<Rightarrow> False)"
  by (auto simp: lc_settled_def is_closed_def open_object_of_def split: dir_state.split)

lemma lc_inv_new: "lc_inv lc_new"
  by (simp add: lc_inv_def lc_new_def)

lemma lc_inv_apply [inv_intros]: "lc_inv m \<Longrightarrow> lc_inv (lc_apply m x)"
  by (cases x)
    (auto simp: lc_inv_def lc_settled_iff lc_defs
      split: dir_state.splits transition_status.splits sum.splits option.splits)

interpretation lc: op_machine lc_apply lc_inv lc_new
  by unfold_locales (auto intro: lc_inv_new lc_inv_apply)

section \<open>Receipts\<close>

text \<open>Operations that do not end an open (respectively a close) transition.\<close>

fun ends_open :: "'cfg lc_op \<Rightarrow> bool" where
  "ends_open (OpOpenPolled s) = (s \<noteq> Pending)"
| "ends_open _ = False"

fun ends_close :: "'cfg lc_op \<Rightarrow> bool" where
  "ends_close (OpClosePolled s) = (s \<noteq> Pending)"
| "ends_close _ = False"

lemma opening_kept:
  "lc_state m = Opening c p r \<Longrightarrow> \<not> ends_open x \<Longrightarrow> lc_apply m x = m"
  by (cases x) (auto simp: lc_defs)

lemma closing_kept:
  "lc_state m = Closing c t \<Longrightarrow> \<not> ends_close x \<Longrightarrow> lc_apply m x = m"
  by (cases x) (auto simp: lc_defs)

lemma opening_kept_run:
  "lc_state m = Opening c p r \<Longrightarrow> list_all (\<lambda>x. \<not> ends_open x) xs \<Longrightarrow> run_ops lc_apply m xs = m"
  by (induction xs) (auto simp: opening_kept)

lemma closing_kept_run:
  "lc_state m = Closing c t \<Longrightarrow> list_all (\<lambda>x. \<not> ends_close x) xs \<Longrightarrow> run_ops lc_apply m xs = m"
  by (induction xs) (auto simp: closing_kept)

text \<open>
  C18. Once the module accepted an open, its receipt outlives the caller: whatever calls
  follow, in any order and with any other configuration, until a poll ends the transition,
  the machine is unchanged and both an opener and a closer are told to poll that receipt.
\<close>

theorem open_receipt_resumed:
  assumes "lc_state m = Opening config previous receipt"
    and "list_all (\<lambda>x. \<not> ends_open x) calls"
  shows "open_step (run_ops lc_apply m calls) requested
      = (m, PollOpen (ocr_transition_id receipt)) \<and>
    close_step (run_ops lc_apply m calls) = (m, PollOpen (ocr_transition_id receipt))"
  using opening_kept_run [OF assms] assms(1) by (simp add: open_step_def close_step_def)

theorem open_receipt_resumed_witness:
  "let m = \<lparr>lc_state = Opening (1::nat) None \<lparr>ocr_object_path = ''/obj'', ocr_transition_id = ''t''\<rparr>,
             retried_terminal = False\<rparr>;
       calls = [OpOpenStep 2, OpCloseStep, OpOpenPolled Pending, OpCloseReplied (Inr None)]
   in open_step (run_ops lc_apply m calls) 3 = (m, PollOpen ''t'') \<and>
      close_step (run_ops lc_apply m calls) = (m, PollOpen ''t'')"
  using open_receipt_resumed
    [of "\<lparr>lc_state = Opening (1::nat) None \<lparr>ocr_object_path = ''/obj'', ocr_transition_id = ''t''\<rparr>,
           retried_terminal = False\<rparr>" 1 None "\<lparr>ocr_object_path = ''/obj'', ocr_transition_id = ''t''\<rparr>"
      "[OpOpenStep 2, OpCloseStep, OpOpenPolled Pending, OpCloseReplied (Inr None)]" 3]
  by (simp add: Let_def)

section \<open>One retry, then a fault\<close>

definition failing :: "transition_status \<Rightarrow> bool" where
  "failing s = (s = Failed \<or> s = Unknown)"

fun polls_failure :: "'cfg lc_op \<Rightarrow> bool" where
  "polls_failure (OpOpenPolled s) = failing s"
| "polls_failure (OpClosePolled s) = failing s"
| "polls_failure _ = False"

lemma budget_kept:
  "\<not> retried_terminal m \<Longrightarrow> \<not> polls_failure x \<Longrightarrow> \<not> retried_terminal (lc_apply m x)"
  by (cases x)
    (auto simp: lc_defs failing_def
      split: dir_state.splits transition_status.splits sum.splits option.splits)

lemma budget_kept_run:
  "\<not> retried_terminal m \<Longrightarrow> list_all (\<lambda>x. \<not> polls_failure x) xs \<Longrightarrow>
    \<not> retried_terminal (run_ops lc_apply m xs)"
  by (induction xs arbitrary: m) (auto simp: budget_kept)

lemma no_fault_with_budget:
  "\<not> retried_terminal m \<Longrightarrow>
    snd (open_polled m s) \<noteq> PollFault f \<and> snd (close_polled m s) \<noteq> PollFault f"
  by (auto simp: open_polled_def close_polled_def split: dir_state.splits transition_status.splits)

text \<open>
  A fault is never the first failure. From any reachable settled machine (closed, or
  open), after any calls whose polls did not fail, no poll of either kind faults.
\<close>

theorem first_failure_never_faults:
  assumes "lc_settled (run_ops lc_apply lc_new history)"
    and "list_all (\<lambda>x. \<not> polls_failure x) calls"
  shows "snd (open_polled (run_ops lc_apply lc_new (history @ calls)) status) \<noteq> PollFault f \<and>
    snd (close_polled (run_ops lc_apply lc_new (history @ calls)) status) \<noteq> PollFault f"
proof -
  have "\<not> retried_terminal (run_ops lc_apply lc_new history)"
    using lc.inv_reachable [of history] assms(1) by (simp add: lc_inv_def)
  from budget_kept_run [OF this assms(2)] show ?thesis by (simp add: no_fault_with_budget)
qed

theorem first_failure_never_faults_witness:
  "snd (open_polled (run_ops lc_apply lc_new
      ([] @ [OpOpenStep (7::nat), OpOpenReplied (Inr \<lparr>ocr_object_path = ''/o'', ocr_transition_id = ''t''\<rparr>)])) Failed)
    \<noteq> PollFault FaultTransport"
  using first_failure_never_faults
    [of "[]" "[OpOpenStep (7::nat), OpOpenReplied (Inr \<lparr>ocr_object_path = ''/o'', ocr_transition_id = ''t''\<rparr>)]"
      Failed FaultTransport]
  by (simp add: lc_settled_def is_closed_def lc_new_def)

text \<open>
  The retry itself: a failed open transition is started again once with the same
  configuration and the same previous object; if the new transition fails as well the
  driver gets a transport fault, the new receipt is kept and the budget is fresh, so the
  next attempt polls it. The fault for an undefined status is never produced.
\<close>

theorem second_failure_faults:
  assumes "failing s1" and "failing s2"
  shows "let m0 = \<lparr>lc_state = Opening config previous r1, retried_terminal = False\<rparr>;
             (m1, p1) = open_polled m0 s1;
             (m2, call) = open_step m1 requested;
             m3 = open_replied m2 (Inr r2);
             (m4, p2) = open_polled m3 s2
         in p1 = Continue \<and> call = CallOpen config \<and> p2 = PollFault FaultTransport \<and>
            m4 = \<lparr>lc_state = Opening config previous r2, retried_terminal = False\<rparr>"
  using assms
  by (auto simp: failing_def open_polled_def open_step_def open_replied_def)

theorem second_failure_faults_witness:
  "let (m1, p1) = open_polled \<lparr>lc_state = Opening (1::nat) None
         \<lparr>ocr_object_path = ''/a'', ocr_transition_id = ''t''\<rparr>, retried_terminal = False\<rparr> Failed;
       (m2, call) = open_step m1 9;
       (m4, p2) = open_polled (open_replied m2
         (Inr \<lparr>ocr_object_path = ''/b'', ocr_transition_id = ''u''\<rparr>)) Unknown
   in p1 = Continue \<and> call = CallOpen 1 \<and> p2 = PollFault FaultTransport \<and>
      m4 = \<lparr>lc_state = Opening 1 None \<lparr>ocr_object_path = ''/b'', ocr_transition_id = ''u''\<rparr>,
            retried_terminal = False\<rparr>"
  using second_failure_faults [of Failed Unknown "1::nat" None
      "\<lparr>ocr_object_path = ''/a'', ocr_transition_id = ''t''\<rparr>" 9
      "\<lparr>ocr_object_path = ''/b'', ocr_transition_id = ''u''\<rparr>"]
  by (simp add: failing_def Let_def)

section \<open>Refinement: what the host holds\<close>

text \<open>
  The contract of the machine: the host holds a directory object from the moment the module
  reports the open complete until it acknowledged a close, and nothing else changes that.
  \<open>held\<close> is the abstraction, \<open>ack\<close> the acknowledgement an operation carries.
\<close>

fun held_of :: "'cfg dir_state \<Rightarrow> 'cfg open_object option" where
  "held_of Closed = None"
| "held_of (StartingOpen _ previous) = previous"
| "held_of (Opening _ previous _) = previous"
| "held_of (Open object) = Some object"
| "held_of (StartingClose object) = Some object"
| "held_of (Closing object _) = Some object"

definition held :: "'cfg configured_lifecycle \<Rightarrow> 'cfg open_object option" where
  "held m = held_of (lc_state m)"

datatype 'cfg ack = Acquired "'cfg open_object" | Released | NoAck

fun ack_of :: "'cfg dir_state \<Rightarrow> 'cfg lc_op \<Rightarrow> 'cfg ack" where
  "ack_of (Opening config _ r) (OpOpenPolled Complete)
     = Acquired \<lparr>oo_config = config, oo_object_path = ocr_object_path r\<rparr>"
| "ack_of (StartingClose _) (OpCloseReplied (Inr None)) = Released"
| "ack_of (Closing _ _) (OpClosePolled Complete) = Released"
| "ack_of _ _ = NoAck"

fun spec_apply :: "'cfg open_object option \<Rightarrow> 'cfg ack \<Rightarrow> 'cfg open_object option" where
  "spec_apply _ (Acquired object) = Some object"
| "spec_apply _ Released = None"
| "spec_apply h NoAck = h"

fun acks :: "'cfg configured_lifecycle \<Rightarrow> 'cfg lc_op list \<Rightarrow> 'cfg ack list" where
  "acks m [] = []"
| "acks m (x # xs) = ack_of (lc_state m) x # acks (lc_apply m x) xs"

lemma held_apply: "held (lc_apply m x) = spec_apply (held m) (ack_of (lc_state m) x)"
proof (cases x)
  case (OpOpenPolled s)
  then show ?thesis
    by (cases s; cases "lc_state m") (simp_all add: held_def open_polled_def)
next
  case (OpCloseReplied r)
  show ?thesis
  proof (cases r)
    case (Inr t)
    then show ?thesis using OpCloseReplied
      by (cases t; cases "lc_state m") (simp_all add: held_def close_replied_def)
  qed (use OpCloseReplied in \<open>cases "lc_state m", simp_all add: held_def close_replied_def\<close>)
next
  case (OpClosePolled s)
  then show ?thesis
    by (cases s; cases "lc_state m") (simp_all add: held_def close_polled_def)
qed (cases "lc_state m"; auto simp: held_def open_step_def close_step_def open_replied_def
      split: sum.splits option.splits)+

text \<open>
  C26. Refinement: along every sequence of calls from any machine, what the host holds is
  exactly what the acknowledgements in it say, and the two terminal answers agree with it
  (an opener told \<open>Ready\<close> holds that object, a closer told \<open>Closed\<close> holds none).
\<close>

theorem lifecycle_refines_holding:
  "held (run_ops lc_apply m calls) = run_ops spec_apply (held m) (acks m calls) \<and>
   (case snd (open_step m requested) of
      StepReady object \<Rightarrow> held m = Some object \<and> oo_config object = requested | _ \<Rightarrow> True) \<and>
   (case snd (close_step m) of StepClosed \<Rightarrow> held m = None | _ \<Rightarrow> True)"
proof (intro conjI)
  show "held (run_ops lc_apply m calls) = run_ops spec_apply (held m) (acks m calls)"
    by (induction calls arbitrary: m) (simp_all add: held_apply)
qed (auto simp: open_step_def close_step_def held_def split: dir_state.splits)

section \<open>A cooperative module lets every driver finish\<close>

text \<open>
  The loop a host runs: ask for a step, make the call, feed the answer back. The module
  accepts every call and completes every transition; \<open>receipts\<close> and \<open>closes\<close> are its
  replies to the n-th call.
\<close>

fun serve :: "(nat \<Rightarrow> open_configured_response) \<Rightarrow> (nat \<Rightarrow> string option) \<Rightarrow> nat \<Rightarrow>
    'cfg configured_lifecycle \<Rightarrow> 'cfg lc_step \<Rightarrow> 'cfg configured_lifecycle" where
  "serve receipts closes n m (CallOpen _) = open_replied m (Inr (receipts n))"
| "serve receipts closes n m (PollOpen _) = fst (open_polled m Complete)"
| "serve receipts closes n m CallClose = close_replied m (Inr (closes n))"
| "serve receipts closes n m (PollClose _) = fst (close_polled m Complete)"
| "serve receipts closes n m _ = m"

fun drive_open :: "nat \<Rightarrow> (nat \<Rightarrow> open_configured_response) \<Rightarrow> (nat \<Rightarrow> string option) \<Rightarrow>
    'cfg configured_lifecycle \<Rightarrow> 'cfg \<Rightarrow> ('cfg configured_lifecycle \<times> 'cfg open_object) option" where
  "drive_open 0 receipts closes m requested = None"
| "drive_open (Suc n) receipts closes m requested =
     (case open_step m requested of
        (m', StepReady object) \<Rightarrow> Some (m', object)
      | (m', call) \<Rightarrow> drive_open n receipts closes (serve receipts closes n m' call) requested)"

fun drive_close :: "nat \<Rightarrow> (nat \<Rightarrow> open_configured_response) \<Rightarrow> (nat \<Rightarrow> string option) \<Rightarrow>
    'cfg configured_lifecycle \<Rightarrow> 'cfg configured_lifecycle option" where
  "drive_close 0 receipts closes m = None"
| "drive_close (Suc n) receipts closes m =
     (case close_step m of
        (m', StepClosed) \<Rightarrow> Some m'
      | (m', call) \<Rightarrow> drive_close n receipts closes (serve receipts closes n m' call))"

lemma drive_open_Open:
  "oo_config object = requested \<Longrightarrow> lc_state m = Open object \<Longrightarrow>
    drive_open (Suc n) receipts closes m requested = Some (m, object)"
  by (simp add: open_step_def)

lemma drive_open_Closed:
  "lc_state m = Closed \<or> (\<exists>object. lc_state m = Open object \<and> oo_config object \<noteq> requested) \<Longrightarrow>
    \<exists>m' object. drive_open (Suc (Suc (Suc n))) receipts closes m requested = Some (m', object) \<and>
      lc_state m' = Open object \<and> oo_config object = requested"
  by (auto simp: open_step_def open_replied_def open_polled_def)

lemma drive_open_settled:
  assumes "lc_settled m"
  shows "\<exists>m' object. drive_open (Suc (Suc (Suc n))) receipts closes m requested = Some (m', object) \<and>
      lc_state m' = Open object \<and> oo_config object = requested"
proof (cases "\<exists>object. lc_state m = Open object \<and> oo_config object = requested")
  case True
  then show ?thesis by (auto simp: open_step_def)
next
  case False
  with assms have "lc_state m = Closed \<or> (\<exists>object. lc_state m = Open object \<and> oo_config object \<noteq> requested)"
    by (auto simp: lc_settled_iff split: dir_state.splits)
  then show ?thesis by (rule drive_open_Closed)
qed

text \<open>One served round, and the two rounds that settle any machine.\<close>

definition served :: "(nat \<Rightarrow> open_configured_response) \<Rightarrow> (nat \<Rightarrow> string option) \<Rightarrow> nat \<Rightarrow>
    'cfg configured_lifecycle \<times> 'cfg lc_step \<Rightarrow> 'cfg configured_lifecycle" where
  "served receipts closes n p = serve receipts closes n (fst p) (snd p)"

lemma drive_open_round:
  "\<not> lc_settled m \<Longrightarrow> drive_open (Suc n) receipts closes m requested =
    drive_open n receipts closes (served receipts closes n (open_step m requested)) requested"
  by (auto simp: lc_settled_iff open_step_def served_def split: dir_state.splits)

lemma drive_close_round:
  "lc_state m \<noteq> Closed \<Longrightarrow> drive_close (Suc n) receipts closes m =
    drive_close n receipts closes (served receipts closes n (close_step m))"
  by (auto simp: close_step_def served_def split: dir_state.splits)

lemma settles_in_two:
  assumes "\<not> lc_settled m"
  shows "lc_settled (served receipts closes n (open_step m requested)) \<or>
    \<not> lc_settled (served receipts closes n (open_step m requested)) \<and>
    lc_settled (served receipts closes k
      (open_step (served receipts closes n (open_step m requested)) requested))"
  using assms
  by (cases "closes n")
    (auto simp: lc_settled_iff served_def lc_defs split: dir_state.splits)

lemma drive_open_terminates:
  "\<exists>m' object. drive_open (Suc (Suc (Suc (Suc (Suc n))))) receipts closes m requested = Some (m', object) \<and>
     lc_state m' = Open object \<and> oo_config object = requested"
proof (cases "lc_settled m")
  case True
  then show ?thesis by (rule drive_open_settled)
next
  case False
  let ?m1 = "served receipts closes (Suc (Suc (Suc (Suc n)))) (open_step m requested)"
  let ?m2 = "served receipts closes (Suc (Suc (Suc n))) (open_step ?m1 requested)"
  from settles_in_two [OF False, of receipts closes "Suc (Suc (Suc (Suc n)))" requested "Suc (Suc (Suc n))"]
  consider "lc_settled ?m1" | "\<not> lc_settled ?m1" "lc_settled ?m2" by blast
  then show ?thesis
  proof cases
    case 1
    then show ?thesis
      using drive_open_settled [of ?m1 "Suc n" receipts closes requested]
      by (simp only: drive_open_round [OF False])
  next
    case 2
    then show ?thesis
      using drive_open_settled [of ?m2 n receipts closes requested]
      by (simp only: drive_open_round [OF False] drive_open_round [OF 2(1)])
  qed
qed

lemma closes_settled_in_three:
  assumes "lc_settled m"
  shows "\<exists>m'. drive_close (Suc (Suc (Suc n))) receipts closes m = Some m' \<and> is_closed m'"
proof (cases "lc_state m")
  case (Open object)
  then show ?thesis
    by (cases "closes (Suc (Suc n))")
      (simp_all add: close_step_def close_replied_def close_polled_def is_closed_def)
qed (use assms in \<open>simp_all add: lc_settled_iff close_step_def is_closed_def\<close>)

lemma close_step_unsettled:
  "\<not> lc_settled m \<Longrightarrow> close_step m = open_step m requested"
  by (auto simp: lc_settled_iff close_step_def open_step_def split: dir_state.splits)

lemma drive_close_terminates:
  fixes m :: "'cfg configured_lifecycle"
  shows "\<exists>m'. drive_close (Suc (Suc (Suc (Suc (Suc n))))) receipts closes m = Some m' \<and> is_closed m'"
proof (cases "lc_settled m")
  case True
  then show ?thesis by (rule closes_settled_in_three)
next
  case False
  fix requested :: 'cfg
  have round: "drive_close (Suc k) receipts closes x =
      drive_close k receipts closes (served receipts closes k (open_step x requested))"
    if "\<not> lc_settled x" for k x
  proof -
    from that have "lc_state x \<noteq> Closed" by (auto simp: lc_settled_iff)
    from drive_close_round [OF this] show ?thesis
      by (simp only: close_step_unsettled [OF that, of requested])
  qed
  let ?m1 = "served receipts closes (Suc (Suc (Suc (Suc n)))) (open_step m requested)"
  let ?m2 = "served receipts closes (Suc (Suc (Suc n))) (open_step ?m1 requested)"
  from settles_in_two [OF False, of receipts closes "Suc (Suc (Suc (Suc n)))" requested "Suc (Suc (Suc n))"]
  consider "lc_settled ?m1" | "\<not> lc_settled ?m1" "lc_settled ?m2" by blast
  then show ?thesis
  proof cases
    case 1
    then show ?thesis
      using closes_settled_in_three [of ?m1 "Suc n" receipts closes]
      by (simp only: round [OF False])
  next
    case 2
    then show ?thesis
      using closes_settled_in_three [of ?m2 n receipts closes]
      by (simp only: round [OF False] round [OF 2(1)])
  qed
qed

text \<open>
  Progress: against a module that accepts every call and completes every transition, a
  driver reaches its goal within five rounds from every state of the machine, with any open
  or close of another caller still in flight: an opener ends with the requested configuration
  open, a closer with the directory closed.
\<close>

theorem drivers_finish_in_five_rounds:
  "(\<exists>m' object. drive_open 5 receipts closes m requested = Some (m', object) \<and>
      open_object_of m' = Some object \<and> oo_config object = requested) \<and>
   (\<exists>m'. drive_close 5 receipts closes m = Some m' \<and> is_closed m')"
  using drive_open_terminates [of 0 receipts closes m requested]
    drive_close_terminates [of 0 receipts closes m]
  by (auto simp: eval_nat_numeral open_object_of_def simp del: drive_open.simps drive_close.simps)

end
