(* ===== verification/Client_Table.thy ===== *)
theory Client_Table
  imports Prelude
begin

text \<open>
  \<open>crates/tinymcp-bus/src/client_lifecycle/table.rs\<close>: the process-wide cache of clients
  and its cleanup reservations. An \<open>Arc\<close> is compared by address, so clients are pointers
  of type \<open>'c\<close> and reservations are addresses in a heap that only grows. The \<open>Retire\<close>
  trait is the set of clients marked retiring. A \<open>CleanupAction\<close> may use the table, so it
  is a token \<open>'a\<close> run by a function on the table.

  An operation that releases its locks between sections takes \<open>env\<close>: \<open>env n\<close> is what
  other threads did to the table at its n-th unlocked point.
\<close>

section \<open>State\<close>

type_synonym path = string

record 'a cleanup_reservation =
  after_close :: "'a option"
  host_completion_pending :: bool

datatype 'e admit_error = Unavailable | Create 'e

record ('c, 'a) client_table =
  clients :: "path \<rightharpoonup> 'c"
  reservations :: "path \<rightharpoonup> nat"
  heap :: "nat \<Rightarrow> 'a cleanup_reservation"
  next_addr :: nat
  retiring :: "'c set"

definition default_reservation :: "'a cleanup_reservation" where
  "default_reservation = \<lparr>after_close = None, host_completion_pending = False\<rparr>"

definition table_new :: "('c, 'a) client_table" where
  "table_new = \<lparr>clients = Map.empty, reservations = Map.empty, heap = (\<lambda>_. default_reservation),
     next_addr = 0, retiring = {}\<rparr>"

definition mark_retiring :: "'c \<Rightarrow> ('c, 'a) client_table \<Rightarrow> ('c, 'a) client_table" where
  "mark_retiring c t = t\<lparr>retiring := insert c (retiring t)\<rparr>"

definition is_retiring :: "('c, 'a) client_table \<Rightarrow> 'c \<Rightarrow> bool" where
  "is_retiring t c = (c \<in> retiring t)"

section \<open>Operations\<close>

definition cleanup_pending :: "('c, 'a) client_table \<Rightarrow> path \<Rightarrow> bool" where
  "cleanup_pending t dir = (reservations t dir \<noteq> None)"

definition close_pending :: "('c, 'a) client_table \<Rightarrow> path \<Rightarrow> bool" where
  "close_pending t dir =
     (cleanup_pending t dir \<or>
      (case clients t dir of None \<Rightarrow> False | Some client \<Rightarrow> is_retiring t client))"

text \<open>\<open>admit\<close> holds the clients lock throughout, but checks the reservations under their own
  lock and releases it: \<open>env\<close> is what other threads did to the rest of the table after the
  check.\<close>

definition admit :: "(('c, 'a) client_table \<Rightarrow> ('c, 'a) client_table) \<Rightarrow>
    path \<Rightarrow> bool \<Rightarrow> ('e + 'c) \<Rightarrow> ('c, 'a) client_table \<Rightarrow>
    ('c, 'a) client_table \<times> ('e admit_error + 'c)" where
  "admit env dir removed create t =
     (if removed \<or> cleanup_pending t dir then (t, Inl Unavailable)
      else
        let t1 = env t
        in case clients t1 dir of
             Some client \<Rightarrow>
               (if is_retiring t1 client then (t1, Inl Unavailable) else (t1, Inr client))
           | None \<Rightarrow>
               (case create of
                  Inl e \<Rightarrow> (t1, Inl (Create e))
                | Inr client \<Rightarrow> (t1\<lparr>clients := (clients t1)(dir \<mapsto> client)\<rparr>, Inr client)))"

definition table_insert :: "path \<Rightarrow> 'c \<Rightarrow> ('c, 'a) client_table \<Rightarrow> ('c, 'a) client_table" where
  "table_insert dir client t = t\<lparr>clients := (clients t)(dir \<mapsto> client)\<rparr>"

definition retire :: "path \<Rightarrow> ('c, 'a) client_table \<Rightarrow> ('c, 'a) client_table \<times> 'c option" where
  "retire dir t =
     (case clients t dir of
        None \<Rightarrow> (t, None)
      | Some client \<Rightarrow> (mark_retiring client t, Some client))"

definition reservation_for :: "path \<Rightarrow> ('c, 'a) client_table \<Rightarrow> ('c, 'a) client_table \<times> nat" where
  "reservation_for dir t =
     (case reservations t dir of
        Some r \<Rightarrow> (t, r)
      | None \<Rightarrow>
          (t\<lparr>reservations := (reservations t)(dir \<mapsto> next_addr t),
             heap := (heap t)(next_addr t := default_reservation),
             next_addr := Suc (next_addr t)\<rparr>, next_addr t))"

definition set_host_pending :: "bool \<Rightarrow> nat \<Rightarrow> ('c, 'a) client_table \<Rightarrow> ('c, 'a) client_table" where
  "set_host_pending b r t = t\<lparr>heap := (heap t)(r := (heap t r)\<lparr>host_completion_pending := b\<rparr>)\<rparr>"

definition reserve_host_completion ::
    "path \<Rightarrow> ('c, 'a) client_table \<Rightarrow> ('c, 'a) client_table \<times> nat" where
  "reserve_host_completion dir t =
     (let (t', r) = reservation_for dir t in (set_host_pending True r t', r))"

definition drop_reservation :: "path \<Rightarrow> ('c, 'a) client_table \<Rightarrow> ('c, 'a) client_table" where
  "drop_reservation dir t = t\<lparr>reservations := (reservations t)(dir := None)\<rparr>"

definition complete_host_cleanup ::
    "path \<Rightarrow> nat \<Rightarrow> ('c, 'a) client_table \<Rightarrow> ('c, 'a) client_table \<times> bool" where
  "complete_host_cleanup dir r t =
     (if reservations t dir \<noteq> Some r then (t, False)
      else
        let t' = set_host_pending False r t
        in (if after_close (heap t r) = None then drop_reservation dir t' else t', True))"

definition evict :: "path \<Rightarrow> 'c \<Rightarrow> ('c, 'a) client_table \<Rightarrow> ('c, 'a) client_table \<times> bool" where
  "evict dir client t =
     (if clients t dir \<noteq> Some client then (t, False)
      else (t\<lparr>clients := (clients t)(dir := None)\<rparr>, True))"

definition get_or_insert_action :: "'a \<Rightarrow> 'a option \<Rightarrow> 'a option" where
  "get_or_insert_action action current =
     (case current of None \<Rightarrow> Some action | Some a \<Rightarrow> Some a)"

text \<open>The loop of \<open>reservation_with_action\<close> repeats only when another thread released the
  reservation between creating it and locking it; \<open>fuel\<close> bounds the repetitions, and no
  token is returned when it runs out.\<close>

fun reservation_with_action :: "nat \<Rightarrow> (nat \<Rightarrow> ('c, 'a) client_table \<Rightarrow> ('c, 'a) client_table) \<Rightarrow>
    path \<Rightarrow> 'a \<Rightarrow> ('c, 'a) client_table \<Rightarrow> ('c, 'a) client_table \<times> nat option" where
  "reservation_with_action 0 env dir action t = (t, None)"
| "reservation_with_action (Suc fuel) env dir action t =
     (let (t1, r) = reservation_for dir t;
          t2 = env fuel t1
      in if reservations t2 dir \<noteq> Some r then reservation_with_action fuel env dir action t2
         else
           (t2\<lparr>heap := (heap t2)(r := (heap t2 r)
               \<lparr>after_close := get_or_insert_action action (after_close (heap t2 r))\<rparr>)\<rparr>, Some r))"

definition owns :: "('c, 'a) client_table \<Rightarrow> path \<Rightarrow> 'c \<Rightarrow> bool" where
  "owns t dir client = (clients t dir = Some client)"

text \<open>The last section of \<open>finish_cleanup\<close>, under the reservations lock.\<close>

definition release_reservation ::
    "path \<Rightarrow> nat \<Rightarrow> ('c, 'a) client_table \<Rightarrow> ('c, 'a) client_table \<times> bool" where
  "release_reservation dir r t =
     (if \<not> host_completion_pending (heap t r) \<and> reservations t dir = Some r
      then (drop_reservation dir t, True) else (t, False))"

text \<open>\<open>finish_cleanup\<close> holds the reservation's \<open>after_close\<close> lock from its first line, so the
  action it read is the action it runs.\<close>

definition finish_cleanup ::
    "('a \<Rightarrow> ('c, 'a) client_table \<Rightarrow> ('c, 'a) client_table \<times> bool) \<Rightarrow>
     (nat \<Rightarrow> ('c, 'a) client_table \<Rightarrow> ('c, 'a) client_table) \<Rightarrow>
     path \<Rightarrow> 'c option \<Rightarrow> nat \<Rightarrow> ('c, 'a) client_table \<Rightarrow> ('c, 'a) client_table \<times> bool" where
  "finish_cleanup run env dir client r t =
     (let is_current = (reservations t dir = Some r);
          t0 = env 0 t
      in if \<not> is_current \<or> host_completion_pending (heap t0 r) then (t0, False)
         else
           let t1 = env 1 t0
           in if (case client of None \<Rightarrow> False | Some c \<Rightarrow> \<not> owns t1 dir c) then (t1, False)
              else
                let (t2, succeeded) = (case after_close (heap t r) of
                                         None \<Rightarrow> (t1, True) | Some action \<Rightarrow> run action t1)
                in if \<not> succeeded then (t2, False)
                   else
                     let t3 = env 2 t2
                     in case client of
                          None \<Rightarrow> release_reservation dir r t3
                        | Some c \<Rightarrow>
                            let (t4, evicted) = evict dir c t3
                            in if \<not> evicted then (t4, False)
                               else release_reservation dir r (env 3 t4))"

definition finish_if_closed ::
    "('a \<Rightarrow> ('c, 'a) client_table \<Rightarrow> ('c, 'a) client_table \<times> bool) \<Rightarrow>
     (nat \<Rightarrow> ('c, 'a) client_table \<Rightarrow> ('c, 'a) client_table) \<Rightarrow>
     path \<Rightarrow> 'c \<Rightarrow> nat \<Rightarrow> bool \<Rightarrow> ('c, 'a) client_table \<Rightarrow>
     ('c, 'a) client_table \<times> bool option" where
  "finish_if_closed run env dir client r is_closed t =
     (if is_closed
      then let (t', b) = finish_cleanup run env dir (Some client) r t in (t', Some b)
      else (t, None))"

text \<open>\<open>retry_orphaned\<close> walks a snapshot of the reservations in the map's iteration order,
  which the language leaves open: \<open>order\<close> lists the snapshot's entries.\<close>

fun retry_entries ::
    "('a \<Rightarrow> ('c, 'a) client_table \<Rightarrow> ('c, 'a) client_table \<times> bool) \<Rightarrow>
     (nat \<Rightarrow> ('c, 'a) client_table \<Rightarrow> ('c, 'a) client_table) \<Rightarrow>
     (path \<times> nat) list \<Rightarrow> ('c, 'a) client_table \<Rightarrow> ('c, 'a) client_table" where
  "retry_entries run env [] t = t"
| "retry_entries run env ((dir, r) # es) t =
     retry_entries run env es
       (if clients t dir = None then fst (finish_cleanup run env dir None r t) else t)"

definition retry_orphaned ::
    "('a \<Rightarrow> ('c, 'a) client_table \<Rightarrow> ('c, 'a) client_table \<times> bool) \<Rightarrow>
     (nat \<Rightarrow> ('c, 'a) client_table \<Rightarrow> ('c, 'a) client_table) \<Rightarrow>
     path list \<Rightarrow> ('c, 'a) client_table \<Rightarrow> ('c, 'a) client_table" where
  "retry_orphaned run env order t =
     retry_entries run env
       (List.map_filter (\<lambda>dir. map_option (Pair dir) (reservations t dir)) order) t"

definition existing_reservation :: "('c, 'a) client_table \<Rightarrow> path \<Rightarrow> nat option" where
  "existing_reservation t dir = reservations t dir"

lemmas table_defs = table_insert_def retire_def reserve_host_completion_def
  reservation_for_def set_host_pending_def complete_host_cleanup_def drop_reservation_def
  evict_def release_reservation_def mark_retiring_def

text \<open>The operations as one alphabet; whole operations interleave in any order, and \<open>env\<close>
  interferes inside the ones that release their locks.\<close>

datatype ('c, 'a, 'e) table_op =
    TAdmit path bool "'e + 'c"
  | TInsert path 'c
  | TRetire path
  | TReservationFor path
  | TReserveHost path
  | TCompleteHost path nat
  | TEvict path 'c
  | TReserveAction nat path 'a
  | TFinish path "'c option" nat
  | TFinishIfClosed path 'c nat bool
  | TRetryOrphaned "path list"

fun table_apply ::
    "('a \<Rightarrow> ('c, 'a) client_table \<Rightarrow> ('c, 'a) client_table \<times> bool) \<Rightarrow>
     (nat \<Rightarrow> ('c, 'a) client_table \<Rightarrow> ('c, 'a) client_table) \<Rightarrow>
     ('c, 'a) client_table \<Rightarrow> ('c, 'a, 'e) table_op \<Rightarrow> ('c, 'a) client_table" where
  "table_apply run env t (TAdmit dir removed create) = fst (admit (env 0) dir removed create t)"
| "table_apply run env t (TInsert dir client) = table_insert dir client t"
| "table_apply run env t (TRetire dir) = fst (retire dir t)"
| "table_apply run env t (TReservationFor dir) = fst (reservation_for dir t)"
| "table_apply run env t (TReserveHost dir) = fst (reserve_host_completion dir t)"
| "table_apply run env t (TCompleteHost dir r) = fst (complete_host_cleanup dir r t)"
| "table_apply run env t (TEvict dir client) = fst (evict dir client t)"
| "table_apply run env t (TReserveAction fuel dir action) =
     fst (reservation_with_action fuel env dir action t)"
| "table_apply run env t (TFinish dir client r) = fst (finish_cleanup run env dir client r t)"
| "table_apply run env t (TFinishIfClosed dir client r is_closed) =
     fst (finish_if_closed run env dir client r is_closed t)"
| "table_apply run env t (TRetryOrphaned order) = retry_orphaned run env order t"

section \<open>Addresses\<close>

definition table_inv :: "('c, 'a) client_table \<Rightarrow> bool" where
  "table_inv t \<longleftrightarrow>
     (\<forall>dir r. reservations t dir = Some r \<longrightarrow> r < next_addr t) \<and>
     (\<forall>dir dir' r. reservations t dir = Some r \<and> reservations t dir' = Some r \<longrightarrow> dir = dir')"

text \<open>A property of tables that every primitive table update keeps is kept by every
  operation, as long as the actions and the other threads keep it.\<close>

locale table_property =
  fixes P :: "('c, 'a) client_table \<Rightarrow> bool"
    and run :: "'a \<Rightarrow> ('c, 'a) client_table \<Rightarrow> ('c, 'a) client_table \<times> bool"
    and env :: "nat \<Rightarrow> ('c, 'a) client_table \<Rightarrow> ('c, 'a) client_table"
  assumes P_clients: "P t \<Longrightarrow> P (t\<lparr>clients := m\<rparr>)"
    and P_retiring: "P t \<Longrightarrow> P (t\<lparr>retiring := R\<rparr>)"
    and P_reserve: "P t \<Longrightarrow> P (fst (reservation_for dir t))"
    and P_pending: "P t \<Longrightarrow> P (set_host_pending True r t)"
    and P_action: "P t \<Longrightarrow> P (t\<lparr>heap := (heap t)(r := (heap t r)\<lparr>after_close := a\<rparr>)\<rparr>)"
    and P_release: "P t \<Longrightarrow> P (fst (release_reservation dir r t))"
    and P_run: "P t \<Longrightarrow> P (fst (run action t))"
    and P_env: "P t \<Longrightarrow> P (env n t)"
begin

lemma P_admit: "P t \<Longrightarrow> P (fst (admit (env 0) dir removed create t))"
  by (auto simp: admit_def Let_def intro!: P_clients P_env split: option.splits sum.splits)

lemma P_evict: "P t \<Longrightarrow> P (fst (evict dir client t))"
  by (auto simp: evict_def intro: P_clients)

lemma P_reserve_host: "P t \<Longrightarrow> P (fst (reserve_host_completion dir t))"
  by (auto simp: reserve_host_completion_def case_prod_beta intro: P_pending P_reserve)

lemma P_reserve_action: "P t \<Longrightarrow> P (fst (reservation_with_action fuel env dir action t))"
proof (induction fuel arbitrary: t)
  case (Suc fuel)
  have "P (env fuel (fst (reservation_for dir t)))"
    by (intro P_env P_reserve Suc.prems)
  then show ?case
    by (auto simp: case_prod_beta Let_def intro: Suc.IH P_action)
qed simp

lemma P_run_action: "P t \<Longrightarrow> P (fst (case a of None \<Rightarrow> (t, True) | Some action \<Rightarrow> run action t))"
  by (auto intro: P_run split: option.split)

lemma P_finish: "P t \<Longrightarrow> P (fst (finish_cleanup run env dir client r t))"
  unfolding finish_cleanup_def Let_def case_prod_beta
  by (auto intro!: P_env P_release P_evict P_run_action P_run split: option.split)

lemma P_retry: "P t \<Longrightarrow> P (retry_entries run env es t)"
proof (induction es arbitrary: t)
  case (Cons e es)
  then show ?case by (cases e) (simp add: P_finish)
qed simp

lemma P_apply:
  assumes "P t" and "\<And>dir r. x = TCompleteHost dir r \<Longrightarrow> P (fst (complete_host_cleanup dir r t))"
  shows "P (table_apply run env t x)"
proof (cases x)
  case (TRetire dir)
  then show ?thesis using assms(1)
    by (auto simp: retire_def mark_retiring_def intro: P_retiring split: option.split)
next
  case (TFinishIfClosed dir client r is_closed)
  then show ?thesis using P_finish [OF assms(1)]
    by (simp add: finish_if_closed_def case_prod_beta assms(1))
qed (simp_all add: assms table_insert_def retry_orphaned_def P_admit P_clients P_reserve
      P_reserve_host P_evict P_reserve_action P_finish P_retry)

end

lemma table_inv_new: "table_inv table_new"
  by (simp add: table_inv_def table_new_def)

lemma table_inv_reserve: "table_inv t \<Longrightarrow> table_inv (fst (reservation_for dir t))"
  by (force simp: table_inv_def reservation_for_def less_Suc_eq split: option.split)

lemma table_inv_congs [simp]:
  "table_inv (t\<lparr>clients := m\<rparr>) = table_inv t"
  "table_inv (t\<lparr>retiring := R\<rparr>) = table_inv t"
  "table_inv (t\<lparr>heap := h\<rparr>) = table_inv t"
  "table_inv (set_host_pending b r t) = table_inv t"
  by (simp_all add: table_inv_def set_host_pending_def)

lemma table_inv_drop: "table_inv t \<Longrightarrow> table_inv (drop_reservation dir t)"
  by (auto simp: table_inv_def drop_reservation_def split: if_splits)

lemma table_inv_complete: "table_inv t \<Longrightarrow> table_inv (fst (complete_host_cleanup dir r t))"
  by (simp add: complete_host_cleanup_def Let_def table_inv_drop)

lemma table_inv_property:
  assumes "\<And>a t. table_inv t \<Longrightarrow> table_inv (fst (run a t))"
    and "\<And>n t. table_inv t \<Longrightarrow> table_inv (env n t)"
  shows "table_property table_inv run env"
  by unfold_locales
    (auto simp: release_reservation_def assms intro: table_inv_reserve table_inv_drop)

text \<open>The actions hosts register on this table do their own filesystem work; those that do
  not call back into it keep every table property.\<close>

interpretation addr: table_property table_inv "\<lambda>a t. (t, succeeds a)" "\<lambda>_ t. t"
  for succeeds :: "'a \<Rightarrow> bool"
  by (rule table_inv_property) simp_all

interpretation tbl: op_machine "table_apply (\<lambda>a t. (t, succeeds a)) (\<lambda>_ t. t)" table_inv table_new
  for succeeds :: "'a \<Rightarrow> bool"
  by unfold_locales (auto intro: table_inv_new addr.P_apply table_inv_complete)

section \<open>The host-completion fence\<close>

definition fenced :: "path \<Rightarrow> nat \<Rightarrow> ('c, 'a) client_table \<Rightarrow> bool" where
  "fenced dir r t \<longleftrightarrow>
     table_inv t \<and> reservations t dir = Some r \<and> host_completion_pending (heap t r)"

lemma fenced_property:
  fixes run :: "'a \<Rightarrow> ('c, 'a) client_table \<Rightarrow> ('c, 'a) client_table \<times> bool"
  assumes "\<And>a t. fenced dir r t \<Longrightarrow> fenced dir r (fst (run a t))"
    and "\<And>n t. fenced dir r t \<Longrightarrow> fenced dir r (env n t)"
  shows "table_property (fenced dir r) run env"
proof
  fix t :: "('c, 'a) client_table" and dir'
  assume f: "fenced dir r t"
  then have "r < next_addr t" and "table_inv t" by (auto simp: fenced_def table_inv_def)
  with f table_inv_reserve [of t dir'] show "fenced dir r (fst (reservation_for dir' t))"
    by (auto simp: fenced_def reservation_for_def split: option.splits)
next
  fix t :: "('c, 'a) client_table" and dir' r'
  assume f: "fenced dir r t"
  then have "\<not> (\<not> host_completion_pending (heap t r') \<and> reservations t dir' = Some r') \<or> dir' \<noteq> dir"
    by (auto simp: fenced_def)
  with f table_inv_drop [of t dir'] show "fenced dir r (fst (release_reservation dir' r' t))"
    by (auto simp: fenced_def release_reservation_def drop_reservation_def)
next
  fix t :: "('c, 'a) client_table" and r'
  assume f: "fenced dir r t"
  then have "table_inv (set_host_pending True r' t)" by (simp add: fenced_def)
  with f show "fenced dir r (set_host_pending True r' t)"
    by (auto simp: fenced_def set_host_pending_def)
next
  show "fenced dir r (fst (run a t))" if "fenced dir r t" for t a
    using that by (rule assms(1))
  show "fenced dir r (env n t)" if "fenced dir r t" for t n
    using that by (rule assms(2))
qed (auto simp: fenced_def)

lemma fenced_complete_other:
  assumes "fenced dir r t" and "dir' \<noteq> dir \<or> r' \<noteq> r"
  shows "fenced dir r (fst (complete_host_cleanup dir' r' t))"
proof -
  have inv: "table_inv (fst (complete_host_cleanup dir' r' t))"
    using assms(1) by (simp add: fenced_def table_inv_complete)
  have "reservations t dir' = Some r' \<Longrightarrow> r' \<noteq> r \<and> dir' \<noteq> dir"
    using assms by (auto simp: fenced_def table_inv_def)
  with assms(1) inv show ?thesis
    by (auto simp: fenced_def complete_host_cleanup_def drop_reservation_def set_host_pending_def Let_def)
qed

lemma fenced_run:
  assumes "table_property (fenced dir r) run env"
    and "fenced dir r t" and "TCompleteHost dir r \<notin> set ops"
  shows "fenced dir r (run_ops (table_apply run env) t ops)"
  using assms(2, 3)
proof (induction ops arbitrary: t)
  case (Cons x ops)
  have "fenced dir r (table_apply run env t x)"
    using Cons.prems by (intro table_property.P_apply [OF assms(1)]) (auto intro: fenced_complete_other)
  with Cons show ?case by simp
qed simp

interpretation fence: table_property "fenced dir r" "\<lambda>a t. (t, succeeds a)" "\<lambda>_ t. t"
  for dir r and succeeds :: "'a \<Rightarrow> bool"
  by (rule fenced_property) simp_all



section \<open>Stale tokens\<close>

definition stale :: "nat \<Rightarrow> ('c, 'a) client_table \<Rightarrow> bool" where
  "stale r t \<longleftrightarrow> table_inv t \<and> r < next_addr t \<and> (\<forall>dir. reservations t dir \<noteq> Some r)"

lemma stale_property:
  fixes run :: "'a \<Rightarrow> ('c, 'a) client_table \<Rightarrow> ('c, 'a) client_table \<times> bool"
  assumes "\<And>a t. stale r t \<Longrightarrow> stale r (fst (run a t))"
    and "\<And>n t. stale r t \<Longrightarrow> stale r (env n t)"
  shows "table_property (stale r) run env"
proof
  fix t :: "('c, 'a) client_table" and dir
  assume "stale r t"
  then show "stale r (fst (reservation_for dir t))"
    using table_inv_reserve [of t dir] by (auto simp: stale_def reservation_for_def split: option.splits)
next
  fix t :: "('c, 'a) client_table" and dir r'
  assume "stale r t"
  then show "stale r (fst (release_reservation dir r' t))"
    using table_inv_drop [of t dir] by (auto simp: stale_def release_reservation_def drop_reservation_def)
next
  fix t :: "('c, 'a) client_table" and r'
  assume s: "stale r t"
  then have "table_inv (set_host_pending True r' t)" by (simp add: stale_def)
  with s show "stale r (set_host_pending True r' t)"
    by (simp add: stale_def set_host_pending_def)
next
  show "stale r (fst (run a t))" if "stale r t" for t a
    using that by (rule assms(1))
  show "stale r (env n t)" if "stale r t" for t n
    using that by (rule assms(2))
qed (auto simp: stale_def)

lemma stale_complete: "stale r t \<Longrightarrow> stale r (fst (complete_host_cleanup dir' r' t))"
  using table_inv_complete [of t dir' r']
  by (auto simp: stale_def complete_host_cleanup_def drop_reservation_def set_host_pending_def Let_def)

lemma stale_run:
  assumes "table_property (stale r) run env" and "stale r t"
  shows "stale r (run_ops (table_apply run env) t ops)"
  using assms(2)
proof (induction ops arbitrary: t)
  case (Cons x ops)
  have "stale r (table_apply run env t x)"
    by (intro table_property.P_apply [OF assms(1)] Cons.prems stale_complete)
  then show ?case by (simp add: Cons.IH)
qed simp

interpretation gone: table_property "stale r" "\<lambda>a t. (t, succeeds a)" "\<lambda>_ t. t"
  for r and succeeds :: "'a \<Rightarrow> bool"
  by (rule stale_property) simp_all

text \<open>
  A token that was given out and released is powerless for ever: after any operations,
  including ones that reserve the same directory again, completing or finishing with it
  reports false and changes nothing, so it cannot clear its successor's fence.
\<close>

theorem stale_token_powerless:
  assumes "stale r t"
    and "\<And>a t. stale r t \<Longrightarrow> stale r (fst (run a t))"
    and "\<And>n t. stale r t \<Longrightarrow> stale r (env n t)"
  shows "let t' = run_ops (table_apply run env) t ops
    in complete_host_cleanup dir r t' = (t', False) \<and>
       finish_cleanup run (\<lambda>_ t. t) dir client r t' = (t', False)"
proof -
  have "stale r (run_ops (table_apply run env) t ops)"
    by (rule stale_run [OF stale_property [OF assms(2, 3)] assms(1)])
  then show ?thesis
    by (simp add: stale_def complete_host_cleanup_def finish_cleanup_def Let_def)
qed

theorem stale_token_powerless_witness:
  "let t = fst (complete_host_cleanup ''/d'' 0
             (fst (reserve_host_completion ''/d'' (table_new :: (nat, nat) client_table))));
       t' = run_ops (table_apply (\<lambda>a t. (t, True)) (\<lambda>_ t. t)) t
              [TReserveHost ''/d'' :: (nat, nat, unit) table_op]
   in complete_host_cleanup ''/d'' 0 t' = (t', False) \<and>
      finish_cleanup (\<lambda>a t. (t, True)) (\<lambda>_ t. t) ''/d'' None 0 t' = (t', False)"
proof -
  define t where "t = fst (complete_host_cleanup ''/d'' 0
             (fst (reserve_host_completion ''/d'' (table_new :: (nat, nat) client_table))))"
  have "stale 0 t"
    by (simp add: t_def stale_def table_inv_def table_defs table_new_def default_reservation_def Let_def)
  from stale_token_powerless [OF this, of "\<lambda>a t. (t, True)" "\<lambda>_ t. t"
      "[TReserveHost ''/d'' :: (nat, nat, unit) table_op]" "''/d''" None]
  show ?thesis by (simp add: t_def [symmetric] Let_def)
qed

section \<open>Cleanup is all or nothing; admission\<close>

lemma finish_cleanup_quiet:
  "finish_cleanup (\<lambda>a t. (t, succeeds a)) (\<lambda>_ t. t) dir client r t =
    (if reservations t dir = Some r \<and> \<not> host_completion_pending (heap t r) \<and>
        (case client of None \<Rightarrow> True | Some c \<Rightarrow> clients t dir = Some c) \<and>
        (case after_close (heap t r) of None \<Rightarrow> True | Some a \<Rightarrow> succeeds a)
     then (drop_reservation dir
             (case client of None \<Rightarrow> t | Some c \<Rightarrow> t\<lparr>clients := (clients t)(dir := None)\<rparr>), True)
     else (t, False))"
  by (cases client; cases "after_close (heap t r)")
    (auto simp: finish_cleanup_def Let_def owns_def evict_def release_reservation_def)

text \<open>
  Without interference, finishing a cleanup is all or nothing: either the token is
  current, no host completion is pending, the client (if one is named) still owns the
  directory and the action succeeded, and then exactly that client and that reservation are
  removed and the directory can be admitted again; or the table is left as it was for a retry.
\<close>

theorem finish_cleanup_all_or_nothing:
  assumes "finish_cleanup (\<lambda>a t. (t, succeeds a)) (\<lambda>_ t. t) dir client r t = (t', finished)"
  shows "if finished
    then reservations t' = (reservations t)(dir := None) \<and>
         clients t' = (if client = None then clients t else (clients t)(dir := None)) \<and>
         heap t' = heap t \<and> retiring t' = retiring t \<and>
         (\<forall>a. after_close (heap t r) = Some a \<longrightarrow> succeeds a) \<and>
         (client \<noteq> None \<longrightarrow> admit id dir False (Inr c) t' = (table_insert dir c t', Inr c))
    else t' = t"
  using assms
  by (auto simp: finish_cleanup_quiet drop_reservation_def admit_def cleanup_pending_def
      table_insert_def split: if_splits option.splits)

theorem finish_cleanup_all_or_nothing_witness:
  "let t = fst (reservation_for ''/d'' (table_insert ''/d'' (7::nat) (table_new :: (nat, nat) client_table)));
       (t', finished) = finish_cleanup (\<lambda>a t. (t, True)) (\<lambda>_ t. t) ''/d'' (Some 7) 0 t
   in finished \<and> clients t' ''/d'' = None \<and> reservations t' ''/d'' = None"
proof -
  define t where
    "t = fst (reservation_for ''/d'' (table_insert ''/d'' (7::nat) (table_new :: (nat, nat) client_table)))"
  define t' where "t' = fst (finish_cleanup (\<lambda>a t. (t, True)) (\<lambda>_ t. t) ''/d'' (Some 7) 0 t)"
  have "finish_cleanup (\<lambda>a t. (t, True)) (\<lambda>_ t. t) ''/d'' (Some 7) 0 t = (t', True)"
    unfolding t'_def t_def
    by (simp add: finish_cleanup_def table_defs owns_def table_new_def default_reservation_def Let_def)
  moreover note finish_cleanup_all_or_nothing [where succeeds = "\<lambda>_. True" and c = 0, OF this]
  then have "reservations t' = (reservations t)(''/d'' := None) \<and> clients t' = (clients t)(''/d'' := None)"
    by simp (elim conjE, intro conjI, assumption+)
  then have "clients t' ''/d'' = None \<and> reservations t' ''/d'' = None" by simp
  ultimately show ?thesis by (simp add: t_def [symmetric] Let_def)
qed

text \<open>
  C37. Admission without interference answers a client exactly when the caller is not removed,
  the directory is not reserved, and either a cached client is not retiring or there is none
  and the constructor succeeded; the answered client is then the cached one, and a refusal
  changes nothing. After \<open>retire\<close> the directory is refused until another client takes it.
\<close>

theorem admit_exact:
  "(snd (admit id dir removed create t) = Inr c \<longleftrightarrow>
     \<not> removed \<and> \<not> cleanup_pending t dir \<and>
     (clients t dir = Some c \<and> \<not> is_retiring t c \<or> clients t dir = None \<and> create = Inr c)) \<and>
   fst (admit id dir removed create t) =
     (case snd (admit id dir removed create t) of
        Inl _ \<Rightarrow> t | Inr c \<Rightarrow> table_insert dir c t) \<and>
   (clients t dir \<noteq> None \<longrightarrow>
     admit id dir removed create (fst (retire dir t)) = (fst (retire dir t), Inl Unavailable) \<and>
     close_pending (fst (retire dir t)) dir)"
proof (intro conjI impI)
  have [simp]: "clients t dir = Some c \<Longrightarrow> (clients t)(dir \<mapsto> c) = clients t" for c
    by (simp add: fun_upd_idem)
  show "fst (admit id dir removed create t) =
     (case snd (admit id dir removed create t) of
        Inl _ \<Rightarrow> t | Inr c \<Rightarrow> table_insert dir c t)"
    by (auto simp: admit_def table_insert_def split: option.splits sum.splits)
qed (auto simp: admit_def retire_def mark_retiring_def is_retiring_def close_pending_def
    split: option.splits sum.splits)

theorem admit_exact_witness:
  "let t = table_insert ''/d'' (3::nat) (table_new :: (nat, nat) client_table)
   in admit id ''/d'' False (Inr 9 :: unit + nat) (fst (retire ''/d'' t)) =
        (fst (retire ''/d'' t), Inl Unavailable) \<and>
      snd (admit id ''/d'' False (Inr 9 :: unit + nat) t) = Inr 3"
  using admit_exact [of "''/d''" False "Inr 9 :: unit + nat"
      "table_insert ''/d'' (3::nat) (table_new :: (nat, nat) client_table)" 3]
  by (simp add: table_insert_def table_new_def cleanup_pending_def is_retiring_def Let_def)

text \<open>Reserving with an action returns the current token at the first attempt when no other
  thread interferes, and the action registered first stays.\<close>

lemma reservation_with_action_first_wins:
  "let (t', token) = reservation_with_action (Suc fuel) (\<lambda>_ t. t) dir action t
   in token = reservations t' dir \<and> token \<noteq> None \<and>
      after_close (heap t' (the token)) =
        (case reservations t dir of
           None \<Rightarrow> Some action
         | Some r \<Rightarrow> Some (case after_close (heap t r) of None \<Rightarrow> action | Some a \<Rightarrow> a))"
  by (auto simp: reservation_for_def get_or_insert_action_def default_reservation_def Let_def
      split: option.split)

end
