(* ===== verification/Text.thy ===== *)
theory Text
  imports Prelude
begin

text \<open>
  The operations of \<open>str\<close> the code uses, on strings as lists of UTF-8 bytes: ASCII classes
  and case, trimming of Unicode white space, splitting and joining.
\<close>

section \<open>Bytes\<close>

definition byte :: "char \<Rightarrow> nat" where "byte c = of_char c"

definition is_lower :: "char \<Rightarrow> bool" where "is_lower c = (97 \<le> byte c \<and> byte c \<le> 122)"
definition is_upper :: "char \<Rightarrow> bool" where "is_upper c = (65 \<le> byte c \<and> byte c \<le> 90)"
definition is_digit :: "char \<Rightarrow> bool" where "is_digit c = (48 \<le> byte c \<and> byte c \<le> 57)"
definition is_alnum :: "char \<Rightarrow> bool" where "is_alnum c = (is_lower c \<or> is_upper c \<or> is_digit c)"
definition is_hex :: "char \<Rightarrow> bool" where
  "is_hex c = (is_digit c \<or> (97 \<le> byte c \<and> byte c \<le> 102) \<or> (65 \<le> byte c \<and> byte c \<le> 70))"

definition to_lower :: "char \<Rightarrow> char" where
  "to_lower c = (if is_upper c then char_of (byte c + 32) else c)"

lemmas byte_defs = byte_def is_lower_def is_upper_def is_digit_def is_alnum_def is_hex_def

lemma byte_less [simp]: "byte c < 256"
  by (simp add: byte_def)

lemma byte_to_lower: "byte (to_lower c) = (if is_upper c then byte c + 32 else byte c)"
  by (auto simp: to_lower_def byte_def is_upper_def)

lemma to_lower_idem [simp]: "to_lower (to_lower c) = to_lower c"
  by (subst (1) to_lower_def) (auto simp: is_upper_def byte_to_lower)

lemma to_lower_not_upper [simp]: "\<not> is_upper (to_lower c)"
  by (auto simp: is_upper_def byte_to_lower)

lemma to_lower_alnum [simp]: "is_alnum (to_lower c) = is_alnum c"
  by (auto simp: is_alnum_def is_upper_def is_lower_def is_digit_def byte_to_lower)

definition lowercase :: "string \<Rightarrow> string" where "lowercase s = map to_lower s"

definition eq_ignore_case :: "string \<Rightarrow> string \<Rightarrow> bool" where
  "eq_ignore_case a b = (lowercase a = lowercase b)"

lemma lowercase_idem [simp]: "lowercase (lowercase s) = lowercase s"
  by (simp add: lowercase_def)

lemma length_lowercase [simp]: "length (lowercase s) = length s"
  by (simp add: lowercase_def)

section \<open>Trimming\<close>

text \<open>
  The length of the white-space character a string starts with, 0 when it starts with none:
  the ASCII ones, U+0085, U+00A0, U+1680, U+2000 to U+200A, U+2028, U+2029, U+202F, U+205F
  and U+3000, each as its UTF-8 bytes. \<open>ws_code\<close> is given the bytes of one character.
\<close>

definition ws_code :: "nat list \<Rightarrow> bool" where
  "ws_code bs = (case bs of
     [a] \<Rightarrow> 9 \<le> a \<and> a \<le> 13 \<or> a = 32
   | [a, b] \<Rightarrow> a = 194 \<and> (b = 133 \<or> b = 160)
   | [a, b, c] \<Rightarrow>
       a = 225 \<and> b = 154 \<and> c = 128 \<or>
       a = 226 \<and> b = 128 \<and> (128 \<le> c \<and> c \<le> 138 \<or> c = 168 \<or> c = 169 \<or> c = 175) \<or>
       a = 226 \<and> b = 129 \<and> c = 159 \<or>
       a = 227 \<and> b = 128 \<and> c = 128
   | _ \<Rightarrow> False)"

definition ws_prefix :: "string \<Rightarrow> nat" where
  "ws_prefix s =
     (if ws_code (map byte (take 1 s)) then 1
      else if ws_code (map byte (take 2 s)) \<and> 2 \<le> length s then 2
      else if ws_code (map byte (take 3 s)) \<and> 3 \<le> length s then 3
      else 0)"

definition ws_suffix :: "string \<Rightarrow> nat" where
  "ws_suffix s =
     (if ws_code (map byte (rev (take 1 s))) then 1
      else if ws_code (map byte (rev (take 2 s))) \<and> 2 \<le> length s then 2
      else if ws_code (map byte (rev (take 3 s))) \<and> 3 \<le> length s then 3
      else 0)"

function trim_by :: "(string \<Rightarrow> nat) \<Rightarrow> string \<Rightarrow> string" where
  "trim_by f s = (if f s = 0 \<or> s = [] then s else trim_by f (drop (f s) s))"
  by pat_completeness auto
termination by (relation "measure (\<lambda>(f, s). length s)") auto

declare trim_by.simps [simp del]

definition trim_start :: "string \<Rightarrow> string" where "trim_start = trim_by ws_prefix"
definition trim_end :: "string \<Rightarrow> string" where "trim_end s = rev (trim_by ws_suffix (rev s))"
definition trim :: "string \<Rightarrow> string" where "trim s = trim_end (trim_start s)"

lemma trim_by_stable: "trim_by f (trim_by f s) = trim_by f s"
proof (induction f s rule: trim_by.induct)
  case (1 f s)
  show ?case
  proof (cases "f s = 0 \<or> s = []")
    case True
    then show ?thesis by (simp add: trim_by.simps)
  next
    case False
    then have "trim_by f s = trim_by f (drop (f s) s)" by (subst trim_by.simps) simp
    with 1 False show ?thesis by simp
  qed
qed

lemma trim_by_suffix: "suffix (trim_by f s) s"
proof (induction f s rule: trim_by.induct)
  case (1 f s)
  show ?case
  proof (cases "f s = 0 \<or> s = []")
    case True
    then show ?thesis by (simp add: trim_by.simps)
  next
    case False
    then have "trim_by f s = trim_by f (drop (f s) s)" by (subst trim_by.simps) simp
    with 1 False show ?thesis using suffix_drop suffix_order.order_trans by metis
  qed
qed

lemma trim_by_Nil [simp]: "trim_by f [] = []"
  by (simp add: trim_by.simps)

lemma trim_Nil [simp]: "trim [] = []"
  by (simp add: trim_def trim_start_def trim_end_def)

lemma sublist_trim: "sublist (trim s) s"
proof -
  have "prefix (trim_end (trim_start s)) (trim_start s)"
    unfolding trim_end_def using trim_by_suffix [of ws_suffix "rev (trim_start s)"]
    by (simp add: suffix_to_prefix)
  moreover have "suffix (trim_start s) s" unfolding trim_start_def by (rule trim_by_suffix)
  ultimately show ?thesis unfolding trim_def by (meson prefix_imp_sublist suffix_imp_sublist
    sublist_order.order_trans)
qed

lemma set_trim: "set (trim s) \<subseteq> set s"
  using sublist_trim [of s] by (rule set_mono_sublist)

lemma ws_prefix_append: "ws_prefix u \<noteq> 0 \<Longrightarrow> ws_prefix (u @ w) \<noteq> 0"
proof -
  have "take n (u @ w) = take n u" if "n \<le> length u" for n using that by simp
  moreover have "u \<noteq> []" if "ws_code (map byte (take 1 u))" using that by (auto simp: ws_code_def)
  ultimately show "ws_prefix u \<noteq> 0 \<Longrightarrow> ws_prefix (u @ w) \<noteq> 0"
    by (auto simp: ws_prefix_def Suc_le_eq simp del: take_append split: if_splits)
qed

lemma trim_by_fixed: "f s = 0 \<Longrightarrow> trim_by f s = s"
  by (simp add: trim_by.simps)

lemma trim_by_done: "trim_by f s = [] \<or> f (trim_by f s) = 0"
proof (induction f s rule: trim_by.induct)
  case (1 f s)
  then show ?case
    by (cases "f s = 0 \<or> s = []") (auto simp: trim_by.simps [of f s])
qed

lemma trim_idem [simp]: "trim (trim s) = trim s"
proof -
  let ?t = "trim_start s"
  obtain z where z: "rev ?t = z @ trim_by ws_suffix (rev ?t)"
    using trim_by_suffix [of ws_suffix "rev ?t"] by (auto simp: suffix_def)
  obtain w where w: "?t = trim_end ?t @ w"
    using arg_cong [OF z, of rev] by (simp add: trim_end_def)
  have "trim_start (trim_end ?t) = trim_end ?t"
  proof (cases "trim_end ?t = []")
    case False
    with w have "?t \<noteq> []" by auto
    then have "ws_prefix ?t = 0" using trim_by_done [of ws_prefix s] by (simp add: trim_start_def)
    then have "ws_prefix (trim_end ?t) = 0" using ws_prefix_append [of "trim_end ?t" w] w by fastforce
    then show ?thesis by (simp add: trim_start_def trim_by_fixed)
  qed (simp add: trim_start_def)
  moreover have "trim_end (trim_end ?t) = trim_end ?t" by (simp add: trim_end_def trim_by_stable)
  ultimately show ?thesis by (simp add: trim_def)
qed

section \<open>Searching and splitting\<close>

definition starts_with :: "string \<Rightarrow> string \<Rightarrow> bool" where "starts_with p s = prefix p s"
definition ends_with :: "string \<Rightarrow> string \<Rightarrow> bool" where "ends_with p s = suffix p s"

definition strip_prefix :: "string \<Rightarrow> string \<Rightarrow> string option" where
  "strip_prefix p s = (if prefix p s then Some (drop (length p) s) else None)"

fun contains_str :: "string \<Rightarrow> string \<Rightarrow> bool" where
  "contains_str p [] = (p = [])"
| "contains_str p (c # cs) = (prefix p (c # cs) \<or> contains_str p cs)"

fun split_once :: "char \<Rightarrow> string \<Rightarrow> (string \<times> string) option" where
  "split_once c [] = None"
| "split_once c (x # xs) =
     (if x = c then Some ([], xs)
      else case split_once c xs of None \<Rightarrow> None | Some (a, b) \<Rightarrow> Some (x # a, b))"

fun split_on :: "(char \<Rightarrow> bool) \<Rightarrow> string \<Rightarrow> string list" where
  "split_on p [] = [[]]"
| "split_on p (x # xs) =
     (if p x then [] # split_on p xs
      else case split_on p xs of [] \<Rightarrow> [[x]] | y # ys \<Rightarrow> (x # y) # ys)"

fun join :: "string \<Rightarrow> string list \<Rightarrow> string" where
  "join sep [] = []"
| "join sep [x] = x"
| "join sep (x # y # ys) = x @ sep @ join sep (y # ys)"

lemma strip_prefix_Some [simp]: "strip_prefix p s = Some r \<longleftrightarrow> s = p @ r"
  by (auto simp: strip_prefix_def prefix_def)

lemma contains_str_sublist: "contains_str p s \<longleftrightarrow> sublist p s"
  by (induction p s rule: contains_str.induct) (auto simp: sublist_Cons_right)

lemma split_once_append: "c \<notin> set a \<Longrightarrow> split_once c (a @ c # b) = Some (a, b)"
  by (induction a) auto

lemma split_once_SomeD: "split_once c s = Some (a, b) \<Longrightarrow> s = a @ c # b \<and> c \<notin> set a"
  by (induction s arbitrary: a b) (auto split: option.splits if_splits)

lemma split_once_Some: "split_once c s = Some (a, b) \<longleftrightarrow> s = a @ c # b \<and> c \<notin> set a"
  using split_once_SomeD split_once_append by blast

lemma split_once_None: "split_once c s = None \<longleftrightarrow> c \<notin> set s"
  by (induction s) (auto split: option.splits)

lemma split_on_nonempty [simp]: "split_on p s \<noteq> []"
  by (induction s) (auto split: list.splits)

lemma split_on_no_sep: "x \<in> set (split_on p s) \<Longrightarrow> c \<in> set x \<Longrightarrow> \<not> p c"
proof (induction s arbitrary: x)
  case (Cons y ys)
  obtain z zs where sp: "split_on p ys = z # zs"
    using split_on_nonempty by (metis list.exhaust)
  show ?case using Cons.prems Cons.IH [of x] Cons.IH [of z] by (auto simp: sp split: if_splits)
qed auto

lemma split_on_trivial: "\<forall>c \<in> set s. \<not> p c \<Longrightarrow> split_on p s = [s]"
  by (induction s) auto

lemma join_split_on: "join [c] (split_on (\<lambda>x. x = c) s) = s"
proof (induction s)
  case (Cons x xs)
  obtain y ys where sp: "split_on (\<lambda>x. x = c) xs = y # ys"
    using split_on_nonempty by (metis list.exhaust)
  with Cons.IH show ?case by (cases ys) auto
qed simp

section \<open>Numbers and character boundaries\<close>

fun show_nat :: "nat \<Rightarrow> string" where
  "show_nat n = (if n < 10 then [char_of (48 + n)] else show_nat (n div 10) @ [char_of (48 + n mod 10)])"

declare show_nat.simps [simp del]

lemma show_nat_digits: "\<forall>c \<in> set (show_nat n). is_digit c"
proof (induction n rule: show_nat.induct)
  case (1 n)
  have "is_digit (char_of (48 + n mod 10))" for n :: nat
  proof -
    have "(48 + n mod 10) < 256" "n mod 10 < 10" by (simp_all add: trans_less_add1)
    then show ?thesis by (simp add: is_digit_def byte_def)
  qed
  with 1 show ?case by (subst show_nat.simps) (auto simp: is_digit_def byte_def)
qed

lemma show_nat_nonempty [simp]: "show_nat n \<noteq> []"
  by (subst show_nat.simps) simp

definition is_cont :: "char \<Rightarrow> bool" where "is_cont c = (128 \<le> byte c \<and> byte c < 192)"

definition is_char_boundary :: "string \<Rightarrow> nat \<Rightarrow> bool" where
  "is_char_boundary s i = (i = 0 \<or> i = length s \<or> i < length s \<and> \<not> is_cont (s ! i))"

text \<open>The largest character boundary at or below a position.\<close>

fun floor_boundary :: "string \<Rightarrow> nat \<Rightarrow> nat" where
  "floor_boundary s 0 = 0"
| "floor_boundary s (Suc n) = (if is_char_boundary s (Suc n) then Suc n else floor_boundary s n)"

lemma floor_boundary_le: "floor_boundary s n \<le> n"
  by (induction s n rule: floor_boundary.induct) auto

lemma floor_boundary_is: "is_char_boundary s (floor_boundary s n)"
  by (induction s n rule: floor_boundary.induct) (auto simp: is_char_boundary_def)

text \<open>The bytes of a \<open>str\<close>: each character is a byte below 128 or a lead byte with as many
  continuation bytes as it announces. A cut on a character boundary keeps that.\<close>

definition lead_len :: "char \<Rightarrow> nat" where
  "lead_len c = (if byte c < 128 then 1 else if byte c < 192 then 0
     else if byte c < 224 then 2 else if byte c < 240 then 3 else if byte c < 248 then 4 else 0)"

function utf8 :: "string \<Rightarrow> bool" where
  "utf8 [] = True"
| "utf8 (c # cs) = (lead_len c \<noteq> 0 \<and> lead_len c \<le> Suc (length cs) \<and>
     (\<forall>d \<in> set (take (lead_len c - 1) cs). is_cont d) \<and> utf8 (drop (lead_len c - 1) cs))"
  by pat_completeness auto
termination by (relation "measure length") auto

lemma utf8_ascii: "\<forall>c \<in> set s. byte c < 128 \<Longrightarrow> utf8 s"
  by (induction s) (auto simp: lead_len_def)

lemma utf8_append: "utf8 a \<Longrightarrow> utf8 b \<Longrightarrow> utf8 (a @ b)"
proof (induction a rule: utf8.induct)
  case (2 c cs)
  then show ?case by (cases "lead_len c") auto
qed simp

lemma utf8_take: "utf8 s \<Longrightarrow> i \<le> length s \<Longrightarrow> is_char_boundary s i \<Longrightarrow> utf8 (take i s)"
proof (induction s arbitrary: i rule: utf8.induct)
  case (2 c cs)
  obtain k where k: "lead_len c = Suc k" using 2(2) by (cases "lead_len c") auto
  have cont: "\<forall>d \<in> set (take k cs). is_cont d" and len: "k \<le> length cs" and rest: "utf8 (drop k cs)"
    using 2(2) by (simp_all add: k)
  show ?case
  proof (cases i)
    case (Suc j)
    have jl: "j \<le> length cs" using 2(3) Suc by simp
    have "\<not> j < k"
    proof
      assume "j < k"
      then have jn: "j < length cs" using len by linarith
      have "cs ! j \<in> set (take k cs)" using \<open>j < k\<close> jn by (auto simp: in_set_conv_nth intro!: exI [of _ j])
      with cont have "is_cont (cs ! j)" by blast
      with 2(4) Suc jn show False by (simp add: is_char_boundary_def)
    qed
    then obtain m where m: "j = k + m" using le_Suc_ex not_less by blast
    have "is_char_boundary (drop k cs) m"
      using 2(4) Suc m jl len by (auto simp: is_char_boundary_def)
    moreover have "m \<le> length (drop k cs)" using jl m by simp
    ultimately have "utf8 (take m (drop k cs))" using 2(1) [of m] rest by (simp add: k)
    moreover have "take k (take j cs) = take k cs" "drop k (take j cs) = take m (drop k cs)"
      using m by (simp_all add: drop_take min_def)
    ultimately show ?thesis using Suc cont len m jl by (simp add: k)
  qed simp
qed simp

lemma ws_code_simps [simp]:
  "ws_code [] = False"
  "ws_code [x] = (9 \<le> x \<and> x \<le> 13 \<or> x = 32)"
  "ws_code [x, y] = (x = 194 \<and> (y = 133 \<or> y = 160))"
  by (auto simp: ws_code_def)

lemma ws_code_3: "ws_code [x, y, z] \<Longrightarrow> 225 \<le> x \<and> x \<le> 227"
  by (auto simp: ws_code_def)

lemma ws_prefix_cases:
  assumes "ws_prefix s \<noteq> 0"
  obtains a r where "s = a # r" "ws_prefix s = 1" "byte a < 128"
  | a b r where "s = a # b # r" "ws_prefix s = 2" "byte a = 194"
  | a b c r where "s = a # b # c # r" "ws_prefix s = 3" "225 \<le> byte a" "byte a \<le> 227"
proof (cases s)
  case Nil
  with assms show ?thesis by (simp add: ws_prefix_def)
next
  case (Cons a r)
  show ?thesis
  proof (cases "ws_code [byte a]")
    case True
    with Cons show ?thesis by (intro that(1) [of a r]) (auto simp: ws_prefix_def)
  next
    case n1: False
    with assms Cons obtain b r' where r: "r = b # r'" by (cases r) (auto simp: ws_prefix_def)
    show ?thesis
    proof (cases "ws_code [byte a, byte b]")
      case True
      with Cons n1 r show ?thesis by (intro that(2) [of a b r']) (auto simp: ws_prefix_def)
    next
      case n2: False
      with assms Cons n1 r obtain c r'' where r': "r' = c # r''" "ws_code [byte a, byte b, byte c]"
        by (cases r') (auto simp: ws_prefix_def simp del: ws_code_simps split: if_splits)
      with Cons n1 n2 r ws_code_3 [OF r'(2)] show ?thesis
        by (intro that(3) [of a b c r'']) (auto simp: ws_prefix_def simp del: ws_code_simps)
    qed
  qed
qed

lemma utf8_drop_ws:
  assumes "utf8 s" shows "utf8 (drop (ws_prefix s) s)"
proof (cases "ws_prefix s = 0")
  case False
  then show ?thesis
  proof (cases rule: ws_prefix_cases)
    case (1 a r)
    then have "lead_len a = 1" by (simp add: lead_len_def)
    with 1 assms show ?thesis by simp
  next
    case (2 a b r)
    then have "lead_len a = 2" by (simp add: lead_len_def)
    with 2 assms show ?thesis by simp
  next
    case (3 a b c r)
    then have "lead_len a = 3" by (simp add: lead_len_def)
    with 3 assms show ?thesis by simp
  qed
qed (use assms in simp)

lemma utf8_trim_start: "utf8 s \<Longrightarrow> utf8 (trim_by ws_prefix s)"
proof (induction ws_prefix s rule: trim_by.induct)
  case (1 s)
  then show ?case by (subst trim_by.simps) (auto intro: utf8_drop_ws)
qed

lemma ws_suffix_boundary:
  assumes "ws_suffix t \<noteq> 0"
  shows "ws_suffix t \<le> length t \<and> \<not> is_cont (t ! (ws_suffix t - 1))"
proof (cases t)
  case Nil
  with assms show ?thesis by (simp add: ws_suffix_def)
next
  case (Cons a r)
  show ?thesis
  proof (cases "ws_code [byte a]")
    case True
    with Cons show ?thesis by (auto simp: ws_suffix_def is_cont_def)
  next
    case n1: False
    with assms Cons obtain b r' where r: "r = b # r'" by (cases r) (auto simp: ws_suffix_def)
    show ?thesis
    proof (cases "ws_code [byte b, byte a]")
      case True
      with Cons n1 r show ?thesis by (auto simp: ws_suffix_def is_cont_def)
    next
      case n2: False
      with assms Cons n1 r obtain c r'' where r': "r' = c # r''" "ws_code [byte c, byte b, byte a]"
        by (cases r') (auto simp: ws_suffix_def simp del: ws_code_simps split: if_splits)
      with Cons n1 n2 r ws_code_3 [OF r'(2)] show ?thesis
        by (auto simp: ws_suffix_def is_cont_def simp del: ws_code_simps)
    qed
  qed
qed

lemma utf8_drop_ws_end:
  assumes "utf8 (rev t)" shows "utf8 (rev (drop (ws_suffix t) t))"
proof (cases "ws_suffix t = 0")
  case False
  let ?n = "ws_suffix t"
  have n: "?n \<le> length t" "\<not> is_cont (t ! (?n - 1))" using ws_suffix_boundary [OF False] by auto
  have "rev t ! (length t - ?n) = t ! (?n - 1)" using n False by (simp add: rev_nth)
  then have "is_char_boundary (rev t) (length t - ?n)"
    using n False by (auto simp: is_char_boundary_def)
  then have "utf8 (take (length t - ?n) (rev t))" using assms by (intro utf8_take) simp_all
  then show ?thesis using n by (simp add: take_rev)
qed (use assms in simp)

lemma utf8_trim_end: "utf8 (rev t) \<Longrightarrow> utf8 (rev (trim_by ws_suffix t))"
proof (induction ws_suffix t rule: trim_by.induct)
  case (1 t)
  then show ?case by (subst trim_by.simps) (auto intro: utf8_drop_ws_end)
qed

lemma utf8_trim: "utf8 s \<Longrightarrow> utf8 (trim s)"
  unfolding trim_def trim_start_def trim_end_def by (rule utf8_trim_end) (simp add: utf8_trim_start)

end
