(* ===== verification/Json.thy ===== *)
theory Json
  imports Text
begin

text \<open>
  JSON values as \<open>serde_json\<close> holds them: a number is an integer of 64 bits or a float, kept
  here as its bit pattern, and an object is a \<open>BTreeMap\<close>, hence a list sorted by key.
\<close>

datatype json =
    JNull
  | JBool bool
  | JInt int
  | JFloat u64
  | JStr string
  | JArr "json list"
  | JObj "(string \<times> json) list"

definition as_str :: "json \<Rightarrow> string option" where
  "as_str j = (case j of JStr s \<Rightarrow> Some s | _ \<Rightarrow> None)"

definition as_array :: "json \<Rightarrow> json list option" where
  "as_array j = (case j of JArr xs \<Rightarrow> Some xs | _ \<Rightarrow> None)"

definition as_object :: "json \<Rightarrow> (string \<times> json) list option" where
  "as_object j = (case j of JObj m \<Rightarrow> Some m | _ \<Rightarrow> None)"

definition as_bool :: "json \<Rightarrow> bool option" where
  "as_bool j = (case j of JBool b \<Rightarrow> Some b | _ \<Rightarrow> None)"

definition as_u64 :: "json \<Rightarrow> u64 option" where
  "as_u64 j = (case j of JInt i \<Rightarrow> (if 0 \<le> i \<and> i < 2 ^ 64 then Some (word_of_int i) else None) | _ \<Rightarrow> None)"

definition as_i64 :: "json \<Rightarrow> int option" where
  "as_i64 j = (case j of JInt i \<Rightarrow> (if - (2 ^ 63) \<le> i \<and> i < 2 ^ 63 then Some i else None) | _ \<Rightarrow> None)"

definition jget :: "string \<Rightarrow> json \<Rightarrow> json option" where
  "jget k j = (case j of JObj m \<Rightarrow> bt_get m k | _ \<Rightarrow> None)"

definition field_str :: "string \<Rightarrow> json \<Rightarrow> string option" where
  "field_str k doc = Option.bind (jget k doc) as_str"

definition is_object :: "json \<Rightarrow> bool" where "is_object j = (as_object j \<noteq> None)"

text \<open>\<open>json!({..})\<close> builds an object from its fields in source order.\<close>

definition jobject :: "(string \<times> json) list \<Rightarrow> json" where
  "jobject fs = JObj (bt_of_list fs)"

fun json_wf :: "json \<Rightarrow> bool" where
  "json_wf (JArr xs) = (\<forall>x \<in> set xs. json_wf x)"
| "json_wf (JObj m) = (bt_wf m \<and> (\<forall>(k, x) \<in> set m. json_wf x))"
| "json_wf (JInt i) = (- (2 ^ 63) \<le> i \<and> i < 2 ^ 64)"
| "json_wf _ = True"

lemmas json_access = as_str_def as_array_def as_object_def as_bool_def as_u64_def as_i64_def
  jget_def is_object_def

lemma as_str_simps [simp]:
  "as_str (JStr s) = Some s" "as_str JNull = None" "as_str (JBool b) = None"
  "as_str (JInt i) = None" "as_str (JFloat f) = None" "as_str (JArr xs) = None"
  "as_str (JObj m) = None"
  by (simp_all add: as_str_def)

lemma as_array_simps [simp]:
  "as_array (JArr xs) = Some xs" "as_array JNull = None" "as_array (JBool b) = None"
  "as_array (JInt i) = None" "as_array (JFloat f) = None" "as_array (JStr s) = None"
  "as_array (JObj m) = None"
  by (simp_all add: as_array_def)

lemma as_object_simps [simp]:
  "as_object (JObj m) = Some m" "as_object JNull = None" "as_object (JBool b) = None"
  "as_object (JInt i) = None" "as_object (JFloat f) = None" "as_object (JStr s) = None"
  "as_object (JArr xs) = None"
  by (simp_all add: as_object_def)

lemma jget_JObj [simp]: "jget k (JObj m) = bt_get m k"
  by (simp add: jget_def)

lemma as_str_eq_Some [simp]: "as_str j = Some s \<longleftrightarrow> j = JStr s"
  by (cases j) auto

lemma as_array_eq_Some [simp]: "as_array j = Some xs \<longleftrightarrow> j = JArr xs"
  by (cases j) auto

lemma as_object_eq_Some [simp]: "as_object j = Some m \<longleftrightarrow> j = JObj m"
  by (cases j) auto

lemma jget_jobject: "jget k (jobject fs) = map_of (rev fs) k"
  by (simp add: jobject_def bt_of_list_def bt_get_extend)

lemma as_u64_JInt_unat [simp]: "as_u64 (JInt (uint w)) = Some w"
proof -
  have "uint w < 2 ^ 64" using uint_lt2p [of w] by simp
  then show ?thesis by (simp add: as_u64_def)
qed

end
