(* ===== verification/Errors.thy ===== *)
theory Errors
  imports Text
begin

text \<open>
  \<open>crates/tinymcp/src/error/mod.rs\<close> and \<open>crates/tinymcp-bus/src/errors/mod.rs\<close>: every failure
  of the crate, what a caller may conclude from one, the name it travels under on the bus and
  the sentence it renders to. The errors of libraries a variant wraps are their rendered text,
  with the two facts the code asks of them.
\<close>

section \<open>Variants\<close>

datatype command_kind = Node | Python | Binary

datatype registry_operation = Browse | Search | Detail

fun operation_name :: "registry_operation \<Rightarrow> string" where
  "operation_name Browse = ''browse''"
| "operation_name Search = ''search''"
| "operation_name Detail = ''detail''"

record source_error =
  rendered :: string
  source_timeout :: bool

record auth_challenge =
  scheme :: string
  realm :: "string option"
  challenge_metadata :: "string option"

datatype args_error = NotAnObject string | StringNotAnObject "string option"

datatype error =
    Unauthorized (err_endpoint: string) (err_metadata: "string option")
  | MissingRuntime string command_kind
  | Http string u16 string
  | Transport_Failure string source_error
  | EndpointResolution string string
  | RegistryTimeout string registry_operation nat
  | UnsupportedProtocolVersion string
  | MalformedResponse string
  | Rpc string
  | MissingAuthChallenge
  | AuthDiscovery string auth_challenge
  | ToolNotAllowed string string
  | NotConnected string
  | ResourceTooLarge string nat nat
  | ServerDisabled string
  | InvalidArguments string args_error
  | ConfigDoc string
  | UnknownServer string
  | ClientBuild source_error
  | Serialization source_error
  | Store_Failure string source_error
  | CredentialStore string string
  | StoreIo string source_error
  | Bus string
  | InvalidArgument string
  | ServerIo source_error
  | ServerBind string source_error

section \<open>What a caller may conclude\<close>

definition is_unauthorized :: "error \<Rightarrow> bool" where
  "is_unauthorized e = (case e of Unauthorized _ _ \<Rightarrow> True | _ \<Rightarrow> False)"

definition is_missing_runtime :: "error \<Rightarrow> bool" where
  "is_missing_runtime e = (case e of MissingRuntime _ _ \<Rightarrow> True | _ \<Rightarrow> False)"

definition is_timeout :: "error \<Rightarrow> bool" where
  "is_timeout e = (case e of
     RegistryTimeout _ _ _ \<Rightarrow> True
   | Transport_Failure _ src \<Rightarrow> source_timeout src
   | _ \<Rightarrow> False)"

definition is_registry_unavailable :: "error \<Rightarrow> bool" where
  "is_registry_unavailable e = (case e of
     RegistryTimeout _ _ _ \<Rightarrow> True
   | Transport_Failure _ _ \<Rightarrow> True
   | Http _ status _ \<Rightarrow> status = 408 \<or> status = 429 \<or> 500 \<le> status \<and> status \<le> 599
   | _ \<Rightarrow> False)"

definition advertises_oauth :: "error \<Rightarrow> bool" where
  "advertises_oauth e = (case e of Unauthorized _ (Some _) \<Rightarrow> True | _ \<Rightarrow> False)"

section \<open>Names on the bus\<close>

definition name_prefix :: string where "name_prefix = ''ai.tinyhumans.tinymcp.Error.''"

fun wire_name :: "error \<Rightarrow> string" where
  "wire_name (Unauthorized _ _) = name_prefix @ ''Unauthorized''"
| "wire_name (MissingRuntime _ _) = name_prefix @ ''MissingRuntime''"
| "wire_name (Http _ _ _) = name_prefix @ ''Http''"
| "wire_name (Transport_Failure _ _) = name_prefix @ ''Transport''"
| "wire_name (EndpointResolution _ _) = name_prefix @ ''EndpointResolution''"
| "wire_name (RegistryTimeout _ _ _) = name_prefix @ ''RegistryTimeout''"
| "wire_name (UnsupportedProtocolVersion _) = name_prefix @ ''UnsupportedProtocolVersion''"
| "wire_name (MalformedResponse _) = name_prefix @ ''MalformedResponse''"
| "wire_name (Rpc _) = name_prefix @ ''Rpc''"
| "wire_name MissingAuthChallenge = name_prefix @ ''MissingAuthChallenge''"
| "wire_name (AuthDiscovery _ _) = name_prefix @ ''AuthDiscovery''"
| "wire_name (ToolNotAllowed _ _) = name_prefix @ ''ToolNotAllowed''"
| "wire_name (NotConnected _) = name_prefix @ ''NotConnected''"
| "wire_name (ResourceTooLarge _ _ _) = name_prefix @ ''ResourceTooLarge''"
| "wire_name (ServerDisabled _) = name_prefix @ ''ServerDisabled''"
| "wire_name (UnknownServer _) = name_prefix @ ''UnknownServer''"
| "wire_name (ClientBuild _) = name_prefix @ ''ClientBuild''"
| "wire_name (Serialization _) = name_prefix @ ''Serialization''"
| "wire_name (Store_Failure _ _) = name_prefix @ ''Store''"
| "wire_name (CredentialStore _ _) = name_prefix @ ''CredentialStore''"
| "wire_name (StoreIo _ _) = name_prefix @ ''StoreIo''"
| "wire_name (Bus _) = name_prefix @ ''Bus''"
| "wire_name (InvalidArgument _) = name_prefix @ ''InvalidArgument''"
| "wire_name (InvalidArguments _ _) = name_prefix @ ''InvalidArguments''"
| "wire_name (ConfigDoc _) = name_prefix @ ''ConfigDoc''"
| "wire_name (ServerIo _) = name_prefix @ ''ServerIo''"
| "wire_name (ServerBind _ _) = name_prefix @ ''ServerBind''"

definition wire_names :: "string list" where
  "wire_names = map (\<lambda>n. name_prefix @ n)
    [''Unauthorized'', ''MissingRuntime'', ''Http'', ''Transport'', ''EndpointResolution'',
     ''UnsupportedProtocolVersion'', ''MalformedResponse'', ''Rpc'', ''MissingAuthChallenge'',
     ''AuthDiscovery'', ''ToolNotAllowed'', ''NotConnected'', ''ServerDisabled'',
     ''UnknownServer'', ''ClientBuild'', ''Serialization'', ''Store'', ''CredentialStore'',
     ''StoreIo'', ''Bus'', ''InvalidArgument'', ''ServerIo'', ''ServerBind'', ''ConfigDoc'',
     ''InvalidArguments'', ''RegistryTimeout'', ''ResourceTooLarge'']"

section \<open>Rendering\<close>

definition missing_runtime_guidance :: "string \<Rightarrow> command_kind \<Rightarrow> string" where
  "missing_runtime_guidance command runtime = (case runtime of
     Node \<Rightarrow> ''`'' @ command @ ''` was not found. This MCP server needs Node.js, which does not appear to be installed, or is not on this application's PATH. Install Node.js from https://nodejs.org and restart the application.''
   | Python \<Rightarrow> ''`'' @ command @ ''` was not found. This MCP server needs uv (Python), which does not appear to be installed. Install it from https://docs.astral.sh/uv/ and restart the application.''
   | Binary \<Rightarrow> ''`'' @ command @ ''` was not found on this application's PATH. Install it, or its runtime, make sure it is available in your shell, then restart the application.'')"

definition max_rendered_body :: nat where "max_rendered_body = 200"

definition ellipsis :: string where "ellipsis = [char_of (226::nat), char_of (128::nat), char_of (166::nat)]"

definition rendered_body :: "string \<Rightarrow> string" where
  "rendered_body body =
     (let trimmed = trim body in
      if trimmed = [] then []
      else if length trimmed \<le> max_rendered_body then '': '' @ trimmed
      else '': '' @ take (floor_boundary trimmed max_rendered_body) trimmed @ ellipsis)"

fun args_reason :: "args_error \<Rightarrow> string" where
  "args_reason (NotAnObject actual) = ''tool arguments must be a JSON object, not '' @ actual"
| "args_reason (StringNotAnObject (Some decoded)) =
     ''tool arguments must be a JSON object, not a string holding '' @ decoded"
| "args_reason (StringNotAnObject None) =
     ''tool arguments must be a JSON object, not a string that is not JSON''"

fun error_text :: "error \<Rightarrow> string" where
  "error_text (Unauthorized endpoint _) = ''mcp unauthorized for `'' @ endpoint @ ''` (HTTP 401)''"
| "error_text (MissingRuntime command runtime) = missing_runtime_guidance command runtime"
| "error_text (Http endpoint status body) =
     ''mcp http '' @ show_nat (unat status) @ '' from `'' @ endpoint @ ''`'' @ rendered_body body"
| "error_text (Transport_Failure endpoint src) =
     ''mcp transport failure for `'' @ endpoint @ ''`: '' @ rendered src"
| "error_text (EndpointResolution what detail) =
     ''mcp '' @ what @ '' endpoint resolution failed: '' @ detail"
| "error_text (RegistryTimeout endpoint operation millis) =
     ''mcp registry '' @ operation_name operation @ '' timed out after '' @ show_nat millis @
     ''ms at `'' @ endpoint @ ''`''"
| "error_text (UnsupportedProtocolVersion version) =
     ''unsupported mcp protocol version negotiated by server: '' @ version"
| "error_text (MalformedResponse detail) = ''malformed mcp response: '' @ detail"
| "error_text (Rpc message) = ''mcp error response: '' @ message"
| "error_text MissingAuthChallenge =
     ''401 response missing a parseable www-authenticate challenge''"
| "error_text (AuthDiscovery detail _) = ''mcp authorization discovery failed: '' @ detail"
| "error_text (ToolNotAllowed server tool) =
     ''tool `'' @ tool @ ''` is not permitted on server `'' @ server @ ''`''"
| "error_text (NotConnected server) =
     ''mcp server `'' @ server @ ''` is not connected; connect it first''"
| "error_text (ResourceTooLarge uri bytes limit) =
     ''mcp resource `'' @ uri @ ''` is '' @ show_nat bytes @ '' bytes, above the '' @
     show_nat limit @ ''-byte limit''"
| "error_text (ServerDisabled server) =
     ''mcp server `'' @ server @ ''` is disabled; turn it on before connecting''"
| "error_text (InvalidArguments tool reason) =
     ''invalid arguments for tool `'' @ tool @ ''`: '' @ args_reason reason"
| "error_text (ConfigDoc detail) = detail"
| "error_text (UnknownServer server) = ''unknown mcp server `'' @ server @ ''`''"
| "error_text (ClientBuild src) = ''could not build an http client: '' @ rendered src"
| "error_text (Serialization src) = ''mcp payload serialization failed: '' @ rendered src"
| "error_text (Store_Failure action src) =
     ''mcp store failure while '' @ action @ '': '' @ rendered src"
| "error_text (CredentialStore action detail) =
     ''mcp credential store failure while '' @ action @ '': '' @ detail"
| "error_text (StoreIo path src) = ''mcp store is unreachable at `'' @ path @ ''`: '' @ rendered src"
| "error_text (Bus detail) = ''bus failure: '' @ detail"
| "error_text (InvalidArgument detail) = ''invalid argument: '' @ detail"
| "error_text (ServerIo src) = ''mcp server i/o failure: '' @ rendered src"
| "error_text (ServerBind addr src) =
     ''could not bind the mcp server on `'' @ addr @ ''`: '' @ rendered src"

lemmas error_class_defs = is_unauthorized_def is_missing_runtime_def is_timeout_def
  is_registry_unavailable_def advertises_oauth_def

lemma is_unauthorized_Unauthorized [simp]: "is_unauthorized (Unauthorized ep md)"
  by (simp add: is_unauthorized_def)

lemma wire_names_distinct: "distinct wire_names"
  by (simp add: wire_names_def name_prefix_def)

text \<open>
  The bus names tell a host what the error was: every error travels under a name of the
  published table, the names of the table are pairwise distinct and start with the common
  prefix, and two errors share a name only when they are the same variant, so the questions a
  host may ask (is it a 401, is a runtime missing) are decided by the name.
\<close>

theorem wire_name_classifies:
  "wire_name e \<in> set wire_names \<and> prefix name_prefix (wire_name e) \<and> distinct wire_names \<and>
   length wire_names = 27 \<and>
   (is_unauthorized e \<longleftrightarrow> wire_name e = wire_name (Unauthorized [] None)) \<and>
   (is_missing_runtime e \<longleftrightarrow> wire_name e = wire_name (MissingRuntime [] Binary)) \<and>
   (advertises_oauth e \<longrightarrow> is_unauthorized e) \<and>
   \<not> (is_unauthorized e \<and> is_registry_unavailable e) \<and>
   (is_timeout e \<longrightarrow> is_registry_unavailable e)"
proof -
  have "wire_name e \<in> set wire_names" by (cases e) (simp_all add: wire_names_def)
  moreover have "prefix name_prefix (wire_name e)" by (cases e) simp_all
  moreover have "length wire_names = 27" by (simp add: wire_names_def)
  moreover have "is_unauthorized e \<longleftrightarrow> wire_name e = wire_name (Unauthorized [] None)"
    by (cases e) (simp_all add: is_unauthorized_def)
  moreover have "is_missing_runtime e \<longleftrightarrow> wire_name e = wire_name (MissingRuntime [] Binary)"
    by (cases e) (simp_all add: is_missing_runtime_def)
  moreover have "advertises_oauth e \<longrightarrow> is_unauthorized e"
    by (cases e) (simp_all add: error_class_defs)
  moreover have "\<not> (is_unauthorized e \<and> is_registry_unavailable e)"
    by (cases e) (simp_all add: error_class_defs)
  moreover have "is_timeout e \<longrightarrow> is_registry_unavailable e"
    by (cases e) (simp_all add: error_class_defs)
  ultimately show ?thesis using wire_names_distinct by blast
qed

theorem wire_name_classifies_witness:
  "wire_name (Unauthorized ''h'' (Some ''m'')) \<in> set wire_names \<and>
   is_unauthorized (Unauthorized ''h'' (Some ''m'')) \<and>
   is_registry_unavailable (RegistryTimeout ''h'' Browse 9)"
  using wire_name_classifies [of "Unauthorized ''h'' (Some ''m'')"]
    wire_name_classifies [of "RegistryTimeout ''h'' Browse 9"]
  by (simp add: is_timeout_def advertises_oauth_def)

text \<open>
  A failing upstream cannot flood a message: whatever body it sent, what is rendered of it
  is at most 205 bytes, is empty exactly when the body is blank, and is still well-formed UTF-8
  because the cut is on a character boundary.
\<close>

theorem rendered_body_bounded:
  assumes body: "utf8 body"
  shows "length (rendered_body body) \<le> 205 \<and>
    (rendered_body body = [] \<longleftrightarrow> trim body = []) \<and> utf8 (rendered_body body) \<and>
    (length (trim body) \<le> 200 \<and> trim body \<noteq> [] \<longrightarrow> rendered_body body = '': '' @ trim body)"
proof -
  from body have assms: "utf8 (trim body)" by (rule utf8_trim)
  have l: "lead_len CHR '':'' = 1" "lead_len CHR '' '' = 1" "lead_len (char_of (226::nat)) = 3"
    "is_cont (char_of (128::nat))" "is_cont (char_of (166::nat))"
    by (simp_all add: lead_len_def is_cont_def byte_def)
  then have "utf8 ellipsis" by (simp add: ellipsis_def)
  moreover have "utf8 (take (floor_boundary (trim body) 200) (trim body))" if "200 \<le> length (trim body)"
    using that floor_boundary_le [of "trim body" 200]
    by (intro utf8_take assms floor_boundary_is) linarith
  moreover have "length (take (floor_boundary (trim body) 200) (trim body)) \<le> 200"
    using floor_boundary_le [of "trim body" 200] by simp
  ultimately show ?thesis
    using assms l by (auto simp: rendered_body_def max_rendered_body_def Let_def ellipsis_def intro!: utf8_append)
qed

theorem rendered_body_bounded_witness:
  "length (rendered_body (replicate 300 CHR ''a'')) \<le> 205 \<and>
   rendered_body (replicate 300 CHR ''a'') \<noteq> []"
proof -
  have ws: "ws_prefix (replicate 300 CHR ''a'') = 0" "ws_suffix (replicate 300 CHR ''a'') = 0"
    by (simp_all add: ws_prefix_def ws_suffix_def ws_code_def byte_def take_Cons' numeral_eq_Suc)
  have "trim (replicate 300 CHR ''a'') = replicate 300 CHR ''a''"
    unfolding trim_def trim_start_def trim_end_def
    by (subst (1 2) trim_by.simps) (simp add: ws)
  moreover have "utf8 (replicate 300 CHR ''a'')" by (rule utf8_ascii) (simp add: byte_def)
  ultimately show ?thesis using rendered_body_bounded [of "replicate 300 CHR ''a''"] by simp
qed

end
