(* ===== verification/Payloads.thy ===== *)
theory Payloads
  imports Json Errors
begin

text \<open>
  \<open>crates/tinymcp-bus/src/registry/types.rs\<close>: the records the registry and its callers
  exchange, with the JSON form of an install as serde derives it (the row the store keeps).
\<close>

section \<open>Types\<close>

fun command_kind_str :: "command_kind \<Rightarrow> string" where
  "command_kind_str Node = ''node''"
| "command_kind_str Python = ''python''"
| "command_kind_str Binary = ''binary''"

datatype transport = Stdio | HttpRemote string

fun dispatch_kind :: "transport \<Rightarrow> string" where
  "dispatch_kind Stdio = ''stdio''"
| "dispatch_kind (HttpRemote _) = ''http_remote''"

fun deployment_url :: "transport \<Rightarrow> string option" where
  "deployment_url Stdio = None"
| "deployment_url (HttpRemote url) = Some url"

record installed_server =
  server_id :: string
  qualified_name :: string
  display_name :: string
  description :: "string option"
  icon_url :: "string option"
  launch_kind :: command_kind
  launch_command :: string
  launch_args :: "string list"
  env_keys :: "string list"
  install_config :: "json option"
  installed_at :: int
  last_connected_at :: "int option"
  dial :: transport
  enabled :: bool

record mcp_tool =
  tool_name :: string
  tool_description :: "string option"
  input_schema :: json
  tool_meta :: "json option"

definition mcp_tool_new :: "string \<Rightarrow> mcp_tool" where
  "mcp_tool_new name =
     \<lparr>tool_name = name, tool_description = None, input_schema = JNull, tool_meta = None\<rparr>"

record connected_overview =
  ov_server_id :: string
  ov_qualified_name :: string
  ov_display_name :: string
  ov_description :: "string option"
  ov_instructions :: "string option"
  ov_tools :: "mcp_tool list"

datatype server_status =
  Disconnected | Connecting | Connected | StatusUnauthorized | StatusError | Disabled

fun status_str :: "server_status \<Rightarrow> string" where
  "status_str Disconnected = ''disconnected''"
| "status_str Connecting = ''connecting''"
| "status_str Connected = ''connected''"
| "status_str StatusUnauthorized = ''unauthorized''"
| "status_str StatusError = ''error''"
| "status_str Disabled = ''disabled''"

datatype auth_hint = OauthRequired | TokenRejected | CredentialRequired

fun hint_code :: "auth_hint \<Rightarrow> string" where
  "hint_code OauthRequired = ''oauth_required''"
| "hint_code TokenRejected = ''token_rejected''"
| "hint_code CredentialRequired = ''credential_required''"

definition classify_hint :: "bool \<Rightarrow> bool \<Rightarrow> auth_hint" where
  "classify_hint oauth_advertised has_credential =
     (if oauth_advertised then OauthRequired
      else if has_credential then TokenRejected
      else CredentialRequired)"

record conn_status =
  st_server_id :: string
  st_qualified_name :: string
  st_display_name :: string
  st_status :: server_status
  st_tool_count :: u32
  st_last_error :: "string option"
  st_auth_hint :: "auth_hint option"

section \<open>The JSON form of an install\<close>

text \<open>
  How serde reads a struct out of an object: a required field that is absent is an error, an
  optional one is \<open>None\<close> when absent or null, and a defaulted one takes its default only when
  absent. Keys the struct does not name are ignored.
\<close>

definition required :: "string \<Rightarrow> (json \<Rightarrow> 'a option) \<Rightarrow> json \<Rightarrow> 'a option" where
  "required k dec j = (case jget k j of None \<Rightarrow> None | Some v \<Rightarrow> dec v)"

definition optional :: "string \<Rightarrow> (json \<Rightarrow> 'a option) \<Rightarrow> json \<Rightarrow> 'a option option" where
  "optional k dec j = (case jget k j of None \<Rightarrow> Some None | Some JNull \<Rightarrow> Some None
     | Some v \<Rightarrow> map_option Some (dec v))"

definition defaulted :: "string \<Rightarrow> 'a \<Rightarrow> (json \<Rightarrow> 'a option) \<Rightarrow> json \<Rightarrow> 'a option" where
  "defaulted k d dec j = (case jget k j of None \<Rightarrow> Some d | Some v \<Rightarrow> dec v)"

fun all_some :: "'a option list \<Rightarrow> 'a list option" where
  "all_some [] = Some []"
| "all_some (x # xs) = (case x of None \<Rightarrow> None | Some a \<Rightarrow> map_option ((#) a) (all_some xs))"

definition dec_strings :: "json \<Rightarrow> string list option" where
  "dec_strings j = (case as_array j of None \<Rightarrow> None | Some xs \<Rightarrow> all_some (map as_str xs))"

definition enc_opt :: "('a \<Rightarrow> json) \<Rightarrow> 'a option \<Rightarrow> json" where
  "enc_opt f x = (case x of None \<Rightarrow> JNull | Some a \<Rightarrow> f a)"

definition dec_command_kind :: "json \<Rightarrow> command_kind option" where
  "dec_command_kind j = (if j = JStr ''node'' then Some Node
     else if j = JStr ''python'' then Some Python
     else if j = JStr ''binary'' then Some Binary else None)"

fun enc_transport :: "transport \<Rightarrow> json" where
  "enc_transport Stdio = jobject [(''kind'', JStr ''stdio'')]"
| "enc_transport (HttpRemote url) = jobject [(''kind'', JStr ''http_remote''), (''url'', JStr url)]"

definition dec_transport :: "json \<Rightarrow> transport option" where
  "dec_transport j =
     (if jget ''kind'' j = Some (JStr ''stdio'') then Some Stdio
      else if jget ''kind'' j = Some (JStr ''http_remote'')
      then map_option HttpRemote (required ''url'' as_str j)
      else None)"

definition enc_installed :: "installed_server \<Rightarrow> json" where
  "enc_installed s = jobject
     [(''server_id'', JStr (server_id s)),
      (''qualified_name'', JStr (qualified_name s)),
      (''display_name'', JStr (display_name s)),
      (''description'', enc_opt JStr (description s)),
      (''icon_url'', enc_opt JStr (icon_url s)),
      (''command_kind'', JStr (command_kind_str (launch_kind s))),
      (''command'', JStr (launch_command s)),
      (''args'', JArr (map JStr (launch_args s))),
      (''env_keys'', JArr (map JStr (env_keys s))),
      (''config'', enc_opt id (install_config s)),
      (''installed_at'', JInt (installed_at s)),
      (''last_connected_at'', enc_opt JInt (last_connected_at s)),
      (''transport'', enc_transport (dial s)),
      (''enabled'', JBool (enabled s))]"

definition dec_installed :: "json \<Rightarrow> installed_server option" where
  "dec_installed j =
     Option.bind (required ''server_id'' as_str j) (\<lambda>sid.
     Option.bind (required ''qualified_name'' as_str j) (\<lambda>qn.
     Option.bind (required ''display_name'' as_str j) (\<lambda>dn.
     Option.bind (optional ''description'' as_str j) (\<lambda>de.
     Option.bind (optional ''icon_url'' as_str j) (\<lambda>ic.
     Option.bind (required ''command_kind'' dec_command_kind j) (\<lambda>ck.
     Option.bind (required ''command'' as_str j) (\<lambda>cm.
     Option.bind (defaulted ''args'' [] dec_strings j) (\<lambda>ar.
     Option.bind (defaulted ''env_keys'' [] dec_strings j) (\<lambda>ek.
     Option.bind (optional ''config'' Some j) (\<lambda>cf.
     Option.bind (required ''installed_at'' as_i64 j) (\<lambda>ia.
     Option.bind (optional ''last_connected_at'' as_i64 j) (\<lambda>lc.
     Option.bind (defaulted ''transport'' Stdio dec_transport j) (\<lambda>tr.
     Option.bind (defaulted ''enabled'' True as_bool j) (\<lambda>en.
       Some \<lparr>server_id = sid, qualified_name = qn, display_name = dn, description = de,
         icon_url = ic, launch_kind = ck, launch_command = cm, launch_args = ar, env_keys = ek,
         install_config = cf, installed_at = ia, last_connected_at = lc, dial = tr,
         enabled = en\<rparr>))))))))))))))"

text \<open>The values the types of the struct allow: times are 64-bit, and a present configuration
  is not the JSON null, which serde cannot tell from an absent one.\<close>

definition i64_ok :: "int \<Rightarrow> bool" where "i64_ok i = (- (2 ^ 63) \<le> i \<and> i < 2 ^ 63)"

definition installed_ok :: "installed_server \<Rightarrow> bool" where
  "installed_ok s = (i64_ok (installed_at s) \<and>
     (case last_connected_at s of None \<Rightarrow> True | Some t \<Rightarrow> i64_ok t) \<and>
     install_config s \<noteq> Some JNull)"

lemmas field_defs = required_def optional_def defaulted_def

lemma all_some_map_Some [simp]: "all_some (map (\<lambda>x. Some (f x)) xs) = Some (map f xs)"
  by (induction xs) auto

lemma dec_strings_enc [simp]: "dec_strings (JArr (map JStr xs)) = Some xs"
  by (simp add: dec_strings_def comp_def)

lemma dec_command_kind_enc [simp]: "dec_command_kind (JStr (command_kind_str k)) = Some k"
  by (cases k) (simp_all add: dec_command_kind_def)

lemma dec_transport_enc [simp]: "dec_transport (enc_transport t) = Some t"
  by (cases t) (simp_all add: dec_transport_def jget_jobject field_defs)

lemma as_i64_enc [simp]: "i64_ok i \<Longrightarrow> as_i64 (JInt i) = Some i"
  by (simp add: as_i64_def i64_ok_def)

lemma as_bool_JBool [simp]: "as_bool (JBool b) = Some b"
  by (simp add: as_bool_def)

lemma optional_enc:
  assumes "jget k j = Some (enc_opt enc x)"
    and "\<And>a. x = Some a \<Longrightarrow> enc a \<noteq> JNull \<and> dec (enc a) = Some a"
  shows "optional k dec j = Some x"
  using assms by (cases x) (auto simp: optional_def enc_opt_def split: json.splits)

lemma required_enc: "jget k j = Some v \<Longrightarrow> required k dec j = dec v"
  by (simp add: required_def)

lemma defaulted_enc: "jget k j = Some v \<Longrightarrow> defaulted k d dec j = dec v"
  by (simp add: defaulted_def)

lemma enc_installed_get:
  "jget ''server_id'' (enc_installed s) = Some (JStr (server_id s))"
  "jget ''qualified_name'' (enc_installed s) = Some (JStr (qualified_name s))"
  "jget ''display_name'' (enc_installed s) = Some (JStr (display_name s))"
  "jget ''description'' (enc_installed s) = Some (enc_opt JStr (description s))"
  "jget ''icon_url'' (enc_installed s) = Some (enc_opt JStr (icon_url s))"
  "jget ''command_kind'' (enc_installed s) = Some (JStr (command_kind_str (launch_kind s)))"
  "jget ''command'' (enc_installed s) = Some (JStr (launch_command s))"
  "jget ''args'' (enc_installed s) = Some (JArr (map JStr (launch_args s)))"
  "jget ''env_keys'' (enc_installed s) = Some (JArr (map JStr (env_keys s)))"
  "jget ''config'' (enc_installed s) = Some (enc_opt id (install_config s))"
  "jget ''installed_at'' (enc_installed s) = Some (JInt (installed_at s))"
  "jget ''last_connected_at'' (enc_installed s) = Some (enc_opt JInt (last_connected_at s))"
  "jget ''transport'' (enc_installed s) = Some (enc_transport (dial s))"
  "jget ''enabled'' (enc_installed s) = Some (JBool (enabled s))"
  by (simp_all add: enc_installed_def jget_jobject)

lemma dec_enc_installed:
  assumes "installed_ok s"
  shows "dec_installed (enc_installed s) = Some s"
proof -
  have "optional ''description'' as_str (enc_installed s) = Some (description s)"
    "optional ''icon_url'' as_str (enc_installed s) = Some (icon_url s)"
    "optional ''config'' Some (enc_installed s) = Some (install_config s)"
    "optional ''last_connected_at'' as_i64 (enc_installed s) = Some (last_connected_at s)"
    using assms
    by (auto intro!: optional_enc simp: enc_installed_get installed_ok_def)
  moreover have "as_i64 (JInt (installed_at s)) = Some (installed_at s)"
    using assms by (simp add: installed_ok_def)
  ultimately show ?thesis
    by (simp add: dec_installed_def required_enc [OF enc_installed_get(1)]
        required_enc [OF enc_installed_get(2)] required_enc [OF enc_installed_get(3)]
        required_enc [OF enc_installed_get(6)] required_enc [OF enc_installed_get(7)]
        defaulted_enc [OF enc_installed_get(8)] defaulted_enc [OF enc_installed_get(9)]
        required_enc [OF enc_installed_get(11)] defaulted_enc [OF enc_installed_get(13)]
        defaulted_enc [OF enc_installed_get(14)])
qed

end
