(* ===== verification/Supervisor_Events.thy ===== *)
theory Supervisor_Events
  imports Payloads
begin

text \<open>
  \<open>crates/tinymcp-bus/src/supervisor/mod.rs\<close>: what a supervisor cycle observed, and how a host
  reads it off the wire. Reading tolerates the future: a variant this host does not know is
  \<open>Unknown\<close>, whatever it carries, while a known variant must be well formed.
\<close>

section \<open>Observations\<close>

text \<open>A \<open>Duration\<close> is its number of nanoseconds.\<close>

type_synonym duration = nat

datatype probe_outcome =
    Alive duration
  | Missing
  | Broken string duration
  | TimedOut duration
  | UnknownOutcome

record server_ref =
  ref_server_id :: string
  ref_qualified_name :: string
  ref_display_name :: string

definition server_ref_of :: "installed_server \<Rightarrow> server_ref" where
  "server_ref_of s = \<lparr>ref_server_id = server_id s, ref_qualified_name = qualified_name s,
     ref_display_name = display_name s\<rparr>"

datatype supervisor_event =
    ProbeAnswered server_ref duration
  | ProbeTimedOut server_ref duration u32 u32
  | TransportDropped server_ref probe_outcome u32
  | Reconnected server_ref nat u32
  | ReconnectFailed server_ref string u32 duration
  | Parked server_ref string
  | UnknownEvent

fun is_alive :: "probe_outcome \<Rightarrow> bool" where
  "is_alive (Alive _) = True"
| "is_alive _ = False"

fun outcome_str :: "probe_outcome \<Rightarrow> string" where
  "outcome_str (Alive _) = ''alive''"
| "outcome_str Missing = ''missing''"
| "outcome_str (Broken _ _) = ''broken''"
| "outcome_str (TimedOut _) = ''timed_out''"
| "outcome_str UnknownOutcome = ''unknown''"

fun event_server :: "supervisor_event \<Rightarrow> server_ref option" where
  "event_server (ProbeAnswered s _) = Some s"
| "event_server (ProbeTimedOut s _ _ _) = Some s"
| "event_server (TransportDropped s _ _) = Some s"
| "event_server (Reconnected s _ _) = Some s"
| "event_server (ReconnectFailed s _ _ _) = Some s"
| "event_server (Parked s _) = Some s"
| "event_server UnknownEvent = None"

fun event_kind :: "supervisor_event \<Rightarrow> string" where
  "event_kind (ProbeAnswered _ _) = ''probe_answered''"
| "event_kind (ProbeTimedOut _ _ _ _) = ''probe_timed_out''"
| "event_kind (TransportDropped _ _ _) = ''transport_dropped''"
| "event_kind (Reconnected _ _ _) = ''reconnected''"
| "event_kind (ReconnectFailed _ _ _ _) = ''reconnect_failed''"
| "event_kind (Parked _ _) = ''parked''"
| "event_kind UnknownEvent = ''unknown''"

record tick_report = events :: "supervisor_event list"

definition report_empty :: "tick_report \<Rightarrow> bool" where "report_empty r = (events r = [])"

definition report_push :: "supervisor_event \<Rightarrow> tick_report \<Rightarrow> tick_report" where
  "report_push e r = r\<lparr>events := events r @ [e]\<rparr>"

section \<open>Wire form\<close>

text \<open>serde's externally tagged form: a unit variant is its name, a struct variant an object
  with the name as its only key. A \<open>Duration\<close> is its whole seconds and the rest. The positional
  array that serde also accepts in place of a nested object is not modelled.\<close>

definition enc_duration :: "duration \<Rightarrow> json" where
  "enc_duration d = jobject [(''secs'', JInt (int (d div 10 ^ 9))), (''nanos'', JInt (int (d mod 10 ^ 9)))]"

definition as_u32 :: "json \<Rightarrow> u32 option" where
  "as_u32 j = (case j of JInt i \<Rightarrow> (if 0 \<le> i \<and> i < 2 ^ 32 then Some (word_of_int i) else None) | _ \<Rightarrow> None)"

definition dec_duration :: "json \<Rightarrow> duration option" where
  "dec_duration j =
     Option.bind (required ''secs'' as_u64 j) (\<lambda>secs.
     Option.bind (required ''nanos'' as_u32 j) (\<lambda>nanos.
       if unat secs + unat nanos div 10 ^ 9 < 2 ^ 64
       then Some (unat secs * 10 ^ 9 + unat nanos) else None))"

definition enc_ref :: "server_ref \<Rightarrow> json" where
  "enc_ref s = jobject [(''server_id'', JStr (ref_server_id s)),
     (''qualified_name'', JStr (ref_qualified_name s)),
     (''display_name'', JStr (ref_display_name s))]"

definition dec_ref :: "json \<Rightarrow> server_ref option" where
  "dec_ref j =
     Option.bind (required ''server_id'' as_str j) (\<lambda>sid.
     Option.bind (required ''qualified_name'' as_str j) (\<lambda>qn.
     Option.bind (required ''display_name'' as_str j) (\<lambda>dn.
       Some \<lparr>ref_server_id = sid, ref_qualified_name = qn, ref_display_name = dn\<rparr>)))"

definition tagged :: "string \<Rightarrow> (string \<times> json) list \<Rightarrow> json" where
  "tagged tag fs = JObj [(tag, jobject fs)]"

fun enc_outcome :: "probe_outcome \<Rightarrow> json" where
  "enc_outcome (Alive elapsed) = tagged ''Alive'' [(''elapsed'', enc_duration elapsed)]"
| "enc_outcome Missing = JStr ''Missing''"
| "enc_outcome (Broken err elapsed) =
     tagged ''Broken'' [(''error'', JStr err), (''elapsed'', enc_duration elapsed)]"
| "enc_outcome (TimedOut window) = tagged ''TimedOut'' [(''after'', enc_duration window)]"
| "enc_outcome UnknownOutcome = JStr ''Unknown''"

definition external_tag :: "json \<Rightarrow> string option" where
  "external_tag j = (case j of
     JStr tag \<Rightarrow> Some tag
   | JObj [(tag, _)] \<Rightarrow> Some tag
   | _ \<Rightarrow> None)"

text \<open>The known variants as serde derives their reading: a struct variant needs its body.\<close>

definition payload :: "json \<Rightarrow> json option" where
  "payload j = (case j of JObj [(_, body)] \<Rightarrow> (if is_object body then Some body else None) | _ \<Rightarrow> None)"

definition known_outcome :: "string \<Rightarrow> json \<Rightarrow> probe_outcome option" where
  "known_outcome tag j =
     (if tag = ''Alive'' then
        Option.bind (payload j) (\<lambda>b. map_option Alive (required ''elapsed'' dec_duration b))
      else if tag = ''Missing'' then
        (case j of JStr _ \<Rightarrow> Some Missing | JObj [(_, JNull)] \<Rightarrow> Some Missing | _ \<Rightarrow> None)
      else if tag = ''Broken'' then
        Option.bind (payload j) (\<lambda>b. Option.bind (required ''error'' as_str b) (\<lambda>e.
          map_option (Broken e) (required ''elapsed'' dec_duration b)))
      else Option.bind (payload j) (\<lambda>b. map_option TimedOut (required ''after'' dec_duration b)))"

definition dec_outcome :: "json \<Rightarrow> probe_outcome option" where
  "dec_outcome j = (case external_tag j of
     None \<Rightarrow> None
   | Some tag \<Rightarrow>
       if tag \<notin> {''Alive'', ''Missing'', ''Broken'', ''TimedOut''} then Some UnknownOutcome
       else known_outcome tag j)"

definition enc_u32 :: "u32 \<Rightarrow> json" where "enc_u32 w = JInt (uint w)"

fun enc_event :: "supervisor_event \<Rightarrow> json" where
  "enc_event (ProbeAnswered s elapsed) =
     tagged ''ProbeAnswered'' [(''server'', enc_ref s), (''elapsed'', enc_duration elapsed)]"
| "enc_event (ProbeTimedOut s window consecutive teardown) =
     tagged ''ProbeTimedOut'' [(''server'', enc_ref s), (''after'', enc_duration window),
       (''consecutive'', enc_u32 consecutive), (''teardown_after'', enc_u32 teardown)]"
| "enc_event (TransportDropped s outcome consecutive) =
     tagged ''TransportDropped'' [(''server'', enc_ref s), (''outcome'', enc_outcome outcome),
       (''consecutive_timeouts'', enc_u32 consecutive)]"
| "enc_event (Reconnected s tools after_failures) =
     tagged ''Reconnected'' [(''server'', enc_ref s), (''tools'', JInt (int tools)),
       (''after_failures'', enc_u32 after_failures)]"
| "enc_event (ReconnectFailed s err failures retry) =
     tagged ''ReconnectFailed'' [(''server'', enc_ref s), (''error'', JStr err),
       (''failures'', enc_u32 failures), (''retry_in'', enc_duration retry)]"
| "enc_event (Parked s err) =
     tagged ''Parked'' [(''server'', enc_ref s), (''error'', JStr err)]"
| "enc_event UnknownEvent = JStr ''Unknown''"

definition known_events :: "string set" where
  "known_events = {''ProbeAnswered'', ''ProbeTimedOut'', ''TransportDropped'', ''Reconnected'',
     ''ReconnectFailed'', ''Parked''}"

definition known_event :: "string \<Rightarrow> json \<Rightarrow> supervisor_event option" where
  "known_event tag j =
     Option.bind (payload j) (\<lambda>b.
     Option.bind (required ''server'' dec_ref b) (\<lambda>s.
       if tag = ''ProbeAnswered'' then
         map_option (ProbeAnswered s) (required ''elapsed'' dec_duration b)
       else if tag = ''ProbeTimedOut'' then
         Option.bind (required ''after'' dec_duration b) (\<lambda>w.
         Option.bind (required ''consecutive'' as_u32 b) (\<lambda>c.
           map_option (ProbeTimedOut s w c) (required ''teardown_after'' as_u32 b)))
       else if tag = ''TransportDropped'' then
         Option.bind (required ''outcome'' dec_outcome b) (\<lambda>out.
           map_option (TransportDropped s out) (required ''consecutive_timeouts'' as_u32 b))
       else if tag = ''Reconnected'' then
         Option.bind (required ''tools'' as_u64 b) (\<lambda>t.
           map_option (Reconnected s (unat t)) (required ''after_failures'' as_u32 b))
       else if tag = ''ReconnectFailed'' then
         Option.bind (required ''error'' as_str b) (\<lambda>e.
         Option.bind (required ''failures'' as_u32 b) (\<lambda>f.
           map_option (ReconnectFailed s e f) (required ''retry_in'' dec_duration b)))
       else map_option (Parked s) (required ''error'' as_str b)))"

definition dec_event :: "json \<Rightarrow> supervisor_event option" where
  "dec_event j = (case external_tag j of
     None \<Rightarrow> None
   | Some tag \<Rightarrow> if tag \<notin> known_events then Some UnknownEvent else known_event tag j)"

section \<open>Round trip\<close>

definition duration_ok :: "duration \<Rightarrow> bool" where "duration_ok d = (d div 10 ^ 9 < 2 ^ 64)"

fun outcome_ok :: "probe_outcome \<Rightarrow> bool" where
  "outcome_ok (Alive d) = duration_ok d"
| "outcome_ok (Broken _ d) = duration_ok d"
| "outcome_ok (TimedOut d) = duration_ok d"
| "outcome_ok _ = True"

fun event_ok :: "supervisor_event \<Rightarrow> bool" where
  "event_ok (ProbeAnswered _ d) = duration_ok d"
| "event_ok (ProbeTimedOut _ d _ _) = duration_ok d"
| "event_ok (TransportDropped _ out _) = outcome_ok out"
| "event_ok (Reconnected _ n _) = (n < 2 ^ 64)"
| "event_ok (ReconnectFailed _ _ _ d) = duration_ok d"
| "event_ok _ = True"

lemma as_u64_nat: "n < 2 ^ 64 \<Longrightarrow> as_u64 (JInt (int n)) = Some (word_of_nat n)"
  by (simp add: as_u64_def)

lemma as_u32_enc [simp]: "as_u32 (enc_u32 w) = Some w"
proof -
  have "uint w < 2 ^ 32" using uint_lt2p [of w] by simp
  then show ?thesis by (simp add: as_u32_def enc_u32_def)
qed

lemma dec_enc_duration [simp]:
  assumes "duration_ok d" shows "dec_duration (enc_duration d) = Some d"
proof -
  have s: "unat (word_of_nat (d div 1000000000) :: u64) = d div 1000000000"
    using assms by (simp add: unat_of_nat duration_ok_def)
  have lt: "d mod 1000000000 < 1000000000" by simp
  then have n: "unat (word_of_nat (d mod 1000000000) :: u32) = d mod 1000000000"
    by (simp add: unat_of_nat)
  have "as_u32 (JInt (int (d mod 1000000000))) = Some (word_of_nat (d mod 1000000000))"
    using lt by (simp add: as_u32_def)
  moreover have "as_u64 (JInt (int (d div 1000000000))) = Some (word_of_nat (d div 1000000000))"
    using assms by (simp add: as_u64_nat duration_ok_def)
  ultimately show ?thesis
    using assms by (simp add: dec_duration_def enc_duration_def required_def jget_jobject s n duration_ok_def)
qed

lemma dec_enc_ref [simp]: "dec_ref (enc_ref s) = Some s"
  by (simp add: dec_ref_def enc_ref_def required_def jget_jobject)

lemma tagged_simps [simp]:
  "external_tag (tagged tag fs) = Some tag"
  "payload (tagged tag fs) = Some (jobject fs)"
  by (simp_all add: external_tag_def tagged_def payload_def is_object_def jobject_def)

lemma external_tag_JStr [simp]: "external_tag (JStr t) = Some t"
  by (simp add: external_tag_def)

lemma dec_enc_outcome [simp]: "outcome_ok x \<Longrightarrow> dec_outcome (enc_outcome x) = Some x"
  by (cases x) (simp_all add: dec_outcome_def known_outcome_def required_def jget_jobject)

text \<open>
What a module reports is what its host reads: every event decodes to itself, the
  placeholder for unknown ones included. A host survives a newer module: an event of any other
  variant, whatever it carries, reads as \<open>UnknownEvent\<close>, and only a value that is no
  externally tagged variant at all, or a known variant without its fields, is refused.
\<close>

theorem event_roundtrip:
  assumes "event_ok e" "tag \<notin> known_events"
  shows "dec_event (enc_event e) = Some e \<and>
    dec_event (JObj [(tag, body)]) = Some UnknownEvent \<and>
    dec_event (JStr tag) = Some UnknownEvent \<and>
    (t \<in> known_events \<longrightarrow> dec_event (JStr t) = None \<and> dec_event (JObj [(t, jobject [])]) = None)"
proof -
  have "dec_event (enc_event e) = Some e"
    using assms(1)
    by (cases e) (simp_all add: dec_event_def known_events_def known_event_def required_def
        jget_jobject as_u64_nat unat_of_nat)
  moreover have "dec_event (JObj [(tag, body)]) = Some UnknownEvent" "dec_event (JStr tag) = Some UnknownEvent"
    using assms(2) by (simp_all add: dec_event_def external_tag_def)
  moreover have "dec_event (JStr t) = None \<and> dec_event (JObj [(t, jobject [])]) = None"
    if "t \<in> known_events"
    using that by (simp add: dec_event_def external_tag_def known_event_def payload_def
        required_def jobject_def bt_of_list_def bt_extend_def is_object_def)
  ultimately show ?thesis by blast
qed

theorem event_roundtrip_witness:
  "let s = \<lparr>ref_server_id = ''i'', ref_qualified_name = ''@a/b'', ref_display_name = ''B''\<rparr>;
       e = ReconnectFailed s ''refused'' 3 20000000000
   in dec_event (enc_event e) = Some e \<and>
      dec_event (JObj [(''Paused'', JNull)]) = Some UnknownEvent \<and> dec_event (JStr ''Parked'') = None"
  using event_roundtrip [of "ReconnectFailed \<lparr>ref_server_id = ''i'', ref_qualified_name = ''@a/b'',
    ref_display_name = ''B''\<rparr> ''refused'' 3 20000000000" "''Paused''" JNull "''Parked''"]
  by (simp add: duration_ok_def known_events_def)

end
