(* ===== verification/Supervisor.thy ===== *)
theory Supervisor
  imports Supervisor_Events
begin

text \<open>
  \<open>crates/tinymcp/src/registry/supervisor\<close>: the cycle that keeps installed servers connected.
  The connection pool and the store it works on are an argument (\<open>pool\<close>), given the laws it
  needs by the locale \<open>conn_pool\<close>; the pool of the registry is its interpretation, in
  \<open>Connections\<close>. Time is in nanoseconds.
\<close>

section \<open>Backoff\<close>

abbreviation secs :: "nat \<Rightarrow> duration" where "secs n \<equiv> n * 10 ^ 9"

definition backoff_base_secs :: u64 where "backoff_base_secs = 5"
definition backoff_max_secs :: u64 where "backoff_max_secs = 300"

definition delay_after :: "u32 \<Rightarrow> duration" where
  "delay_after failures =
     (if failures = 0 then secs (unat backoff_base_secs)
      else let factor = (case checked_shl (1 :: u64) (unat (failures - 1)) of
                           Some x \<Rightarrow> x | None \<Rightarrow> - 1);
               shifted = sat_mul backoff_base_secs factor
           in secs (unat (min shifted backoff_max_secs)))"

record backoff_state =
  failures :: u32
  next_attempt_at :: "nat option"

definition backoff_default :: backoff_state where
  "backoff_default = \<lparr>failures = 0, next_attempt_at = None\<rparr>"

definition ready :: "backoff_state \<Rightarrow> nat \<Rightarrow> bool" where
  "ready b now = (case next_attempt_at b of None \<Rightarrow> True | Some earliest \<Rightarrow> earliest \<le> now)"

definition record_failure :: "nat \<Rightarrow> backoff_state \<Rightarrow> backoff_state" where
  "record_failure now b = (let n = sat_add (failures b) 1 in
     \<lparr>failures = n, next_attempt_at = Some (now + delay_after n)\<rparr>)"

definition current_delay :: "backoff_state \<Rightarrow> duration" where
  "current_delay b = delay_after (failures b)"

section \<open>State\<close>

definition teardown_after :: u32 where "teardown_after = 3"

datatype after_probe = Keep | Rebuild

record supervisor_config =
  tick_interval :: duration
  probe_timeout :: duration

definition default_config :: supervisor_config where
  "default_config = \<lparr>tick_interval = secs 60, probe_timeout = secs 8\<rparr>"

record 'i supervisor =
  sup_config :: supervisor_config
  sup_identity :: 'i
  backoff :: "string \<rightharpoonup> backoff_state"
  timeouts :: "string \<rightharpoonup> u32"
  terminal :: "string set"

definition supervisor_new :: "supervisor_config \<Rightarrow> 'i \<Rightarrow> 'i supervisor" where
  "supervisor_new cfg identity = \<lparr>sup_config = cfg, sup_identity = identity,
     backoff = Map.empty, timeouts = Map.empty, terminal = {}\<rparr>"

text \<open>What the cycle calls: the store's listing and the four operations of \<open>Connections\<close>.\<close>

record ('w, 'i) pool =
  pool_list :: "'w \<Rightarrow> error + installed_server list"
  pool_connected :: "string \<Rightarrow> 'w \<Rightarrow> bool"
  pool_probe :: "string \<Rightarrow> duration \<Rightarrow> 'w \<Rightarrow> 'w \<times> probe_outcome"
  pool_connect :: "'i \<Rightarrow> installed_server \<Rightarrow> 'w \<Rightarrow> 'w \<times> (error + mcp_tool list)"
  pool_disconnect :: "string \<Rightarrow> 'w \<Rightarrow> 'w"

section \<open>The cycle\<close>

definition judge_timeout :: "installed_server \<Rightarrow> duration \<Rightarrow> 'i supervisor \<Rightarrow>
    'i supervisor \<times> after_probe \<times> supervisor_event" where
  "judge_timeout server after sv =
     (let sid = server_id server;
          streak = (case timeouts sv sid of Some n \<Rightarrow> sat_add n 1 | None \<Rightarrow> 1)
      in if streak < teardown_after
         then (sv\<lparr>timeouts := (timeouts sv)(sid \<mapsto> streak)\<rparr>, Keep,
               ProbeTimedOut (server_ref_of server) after streak teardown_after)
         else (sv\<lparr>timeouts := (timeouts sv)(sid := None)\<rparr>, Rebuild,
               TransportDropped (server_ref_of server) (TimedOut after) streak))"

definition judge_probe :: "('w, 'i) pool \<Rightarrow> installed_server \<Rightarrow> 'i supervisor \<Rightarrow> 'w \<Rightarrow>
    'i supervisor \<times> 'w \<times> after_probe \<times> supervisor_event" where
  "judge_probe p server sv w =
     (let sid = server_id server;
          (w, outcome) = pool_probe p sid (probe_timeout (sup_config sv)) w;
          forgotten = sv\<lparr>timeouts := (timeouts sv)(sid := None)\<rparr>;
          (sv, verdict, event) =
            (case outcome of
               Alive elapsed \<Rightarrow>
                 (forgotten\<lparr>backoff := (backoff sv)(sid := None)\<rparr>, Keep,
                  ProbeAnswered (server_ref_of server) elapsed)
             | TimedOut after \<Rightarrow> judge_timeout server after sv
             | _ \<Rightarrow> (forgotten, Rebuild, TransportDropped (server_ref_of server) outcome 0));
          w = (if verdict = Rebuild then pool_disconnect p sid w else w)
      in (sv, w, verdict, event))"

definition attempt_connect :: "('w, 'i) pool \<Rightarrow> installed_server \<Rightarrow> nat \<Rightarrow> 'i supervisor \<Rightarrow> 'w \<Rightarrow>
    'i supervisor \<times> 'w \<times> supervisor_event" where
  "attempt_connect p server now sv w =
     (let sid = server_id server; (w, outcome) = pool_connect p (sup_identity sv) server w in
      case outcome of
        Inr tools \<Rightarrow>
          (sv\<lparr>backoff := (backoff sv)(sid := None), timeouts := (timeouts sv)(sid := None),
               terminal := terminal sv - {sid}\<rparr>, w,
           Reconnected (server_ref_of server) (length tools)
             (case backoff sv sid of None \<Rightarrow> 0 | Some state \<Rightarrow> failures state))
      | Inl err \<Rightarrow>
          if is_missing_runtime err \<or> is_unauthorized err
          then (sv\<lparr>backoff := (backoff sv)(sid := None), terminal := insert sid (terminal sv)\<rparr>, w,
                Parked (server_ref_of server) (error_text err))
          else
            let state = record_failure now
                  (case backoff sv sid of None \<Rightarrow> backoff_default | Some state \<Rightarrow> state)
            in (sv\<lparr>backoff := (backoff sv)(sid \<mapsto> state)\<rparr>, w,
                ReconnectFailed (server_ref_of server) (error_text err) (failures state)
                  (current_delay state)))"

text \<open>One iteration of the loop over the installs; \<open>continue\<close> is a returned state.\<close>

definition supervise :: "('w, 'i) pool \<Rightarrow> nat \<Rightarrow> 'i supervisor \<times> 'w \<times> tick_report \<Rightarrow>
    installed_server \<Rightarrow> 'i supervisor \<times> 'w \<times> tick_report" where
  "supervise p now st server =
     (let (sv, w, report) = st; sid = server_id server in
      if \<not> enabled server
      then (sv\<lparr>backoff := (backoff sv)(sid := None), timeouts := (timeouts sv)(sid := None),
                terminal := terminal sv - {sid}\<rparr>, w, report)
      else
        let (sv, w, report, kept) =
          (if pool_connected p sid w
           then (let (sv, w, verdict, event) = judge_probe p server sv w
                 in (sv, w, report_push event report, verdict = Keep))
           else (sv, w, report, False))
        in if kept then (sv, w, report)
           else if sid \<in> terminal sv then (sv, w, report)
           else
             let state = (case backoff sv sid of None \<Rightarrow> backoff_default | Some s \<Rightarrow> s);
                 sv = sv\<lparr>backoff := (backoff sv)(sid \<mapsto> state)\<rparr>
             in if \<not> ready state now then (sv, w, report)
                else let (sv, w, event) = attempt_connect p server now sv w
                     in (sv, w, report_push event report))"

definition tick :: "('w, 'i) pool \<Rightarrow> nat \<Rightarrow> 'i supervisor \<Rightarrow> 'w \<Rightarrow>
    'i supervisor \<times> 'w \<times> tick_report" where
  "tick p now sv w = (case pool_list p w of
     Inl _ \<Rightarrow> (sv, w, \<lparr>events = []\<rparr>)
   | Inr servers \<Rightarrow> foldl (supervise p now) (sv, w, \<lparr>events = []\<rparr>) servers)"

definition consecutive_timeouts :: "'i supervisor \<Rightarrow> string \<Rightarrow> u32" where
  "consecutive_timeouts sv sid = (case timeouts sv sid of None \<Rightarrow> 0 | Some n \<Rightarrow> n)"

definition backed_off_count :: "'i supervisor \<Rightarrow> nat" where
  "backed_off_count sv = card (dom (backoff sv))"

definition terminally_failed_count :: "'i supervisor \<Rightarrow> nat" where
  "terminally_failed_count sv = card (terminal sv)"

section \<open>The delay curve\<close>

lemma delay_after_eq:
  "delay_after n = secs (if n = 0 then 5 else min 300 (5 * 2 ^ (unat n - 1)))"
proof (cases "n = 0")
  case False
  let ?k = "unat n - 1"
  have u: "unat (n - 1) = ?k" using False by (simp add: unat_minus_one)
  have m: "unat (min x backoff_max_secs) = min (unat x) 300" for x :: u64
    by (simp add: min_def word_le_nat_alt backoff_max_secs_def)
  have "min (unat (sat_mul backoff_base_secs
      (case checked_shl (1 :: u64) ?k of Some x \<Rightarrow> x | None \<Rightarrow> - 1))) 300 = min 300 (5 * 2 ^ ?k)"
  proof (cases "?k < 64")
    case True
    then have "(2::nat) ^ ?k < 2 ^ 64" by (intro power_strict_increasing) simp_all
    then have "unat (word_of_nat (2 ^ ?k) :: u64) = 2 ^ ?k" by (simp only: unat_of_nat) simp
    then have "unat ((2 :: u64) ^ ?k) = 2 ^ ?k" by simp
    with True show ?thesis
      by (simp add: checked_shl_1 unat_sat_mul backoff_base_secs_def)
  next
    case False
    then have "(2::nat) ^ 64 \<le> 2 ^ ?k" by (intro power_increasing) simp_all
    then have "(300::nat) \<le> 5 * 2 ^ ?k" by simp
    with False show ?thesis
      by (simp add: checked_shl_1 unat_sat_mul backoff_base_secs_def unat_minus_1)
  qed
  then show ?thesis using False by (simp add: delay_after_def Let_def u m)
qed (simp add: delay_after_def backoff_base_secs_def)

text \<open>
  C31. The backoff curve, on the machine's integers: after \<open>n\<close> consecutive failures the wait is
  exactly five seconds doubled \<open>n - 1\<close> times and capped at five minutes, whatever the 32-bit
  count; it never shrinks as failures accumulate, and the count itself saturates.
\<close>

theorem backoff_curve:
  "delay_after n = secs (if n = 0 then 5 else min 300 (5 * 2 ^ (unat n - 1))) \<and>
   secs 5 \<le> delay_after n \<and> delay_after n \<le> secs 300 \<and>
   (n \<le> m \<longrightarrow> delay_after n \<le> delay_after m) \<and>
   (7 \<le> n \<longrightarrow> delay_after n = secs 300) \<and>
   failures (record_failure now b) = (if failures b = - 1 then - 1 else failures b + 1) \<and>
   ready (record_failure now b) t = (now + current_delay (record_failure now b) \<le> t)"
proof (intro conjI impI)
  have five: "(5::nat) \<le> 5 * 2 ^ k" for k by simp
  show "secs 5 \<le> delay_after n" using five [of "unat n - 1"] by (simp add: delay_after_eq)
  show "delay_after n \<le> secs 300" by (simp add: delay_after_eq)
  assume "n \<le> m"
  show "delay_after n \<le> delay_after m"
  proof (cases "n = 0")
    case True
    then show ?thesis using five [of "unat m - 1"] by (simp add: delay_after_eq)
  next
    case False
    with \<open>n \<le> m\<close> have "m \<noteq> 0" by auto
    have "(2::nat) ^ (unat n - 1) \<le> 2 ^ (unat m - 1)"
      using \<open>n \<le> m\<close> by (intro power_increasing diff_le_mono) (simp_all add: word_le_nat_alt)
    then have "min 300 ((5::nat) * 2 ^ (unat n - 1)) \<le> min 300 (5 * 2 ^ (unat m - 1))"
      by (intro min.mono) simp_all
    with False \<open>m \<noteq> 0\<close> show ?thesis by (simp add: delay_after_eq)
  qed
next
  assume "7 \<le> n"
  then have "6 \<le> unat n - 1" by (simp add: word_le_nat_alt)
  then have "(2::nat) ^ 6 \<le> 2 ^ (unat n - 1)" by (intro power_increasing) simp_all
  then have "(300::nat) \<le> 5 * 2 ^ (unat n - 1)" by simp
  with \<open>7 \<le> n\<close> show "delay_after n = secs 300" by (auto simp: delay_after_eq)
next
  show "failures (record_failure now b) = (if failures b = - 1 then - 1 else failures b + 1)"
  proof (cases "failures b = - 1")
    case True
    then show ?thesis by (simp add: record_failure_def sat_add_def Let_def unat_minus_1)
  next
    case False
    then have "unat (failures b) \<noteq> unat (- 1 :: u32)" by (metis word_unat_eq_iff)
    then have "unat (failures b) \<noteq> 2 ^ 32 - 1" by (simp only: unat_minus_1) simp
    moreover have "unat (failures b) < 2 ^ 32" using unsigned_less [of "failures b"] by simp
    ultimately have "unat (failures b) + 1 < 2 ^ 32" by simp
    with False show ?thesis by (simp add: record_failure_def sat_add_def Let_def)
  qed
qed (simp_all add: delay_after_eq record_failure_def ready_def current_delay_def Let_def)

theorem backoff_curve_witness:
  "delay_after 3 = secs 20 \<and> delay_after 3 \<le> delay_after 4 \<and> delay_after 40 = secs 300"
  using backoff_curve [of 3 4] backoff_curve [of 40 40] by simp

section \<open>The state of a supervisor\<close>

definition sup_inv :: "'i supervisor \<Rightarrow> bool" where
  "sup_inv sv \<longleftrightarrow>
     (\<forall>sid \<in> terminal sv. backoff sv sid = None) \<and>
     (\<forall>sid b. backoff sv sid = Some b \<longrightarrow> failures b \<noteq> 0 \<and> next_attempt_at b \<noteq> None) \<and>
     (\<forall>sid n. timeouts sv sid = Some n \<longrightarrow> 0 < n \<and> n < teardown_after)"

definition concerns :: "string \<Rightarrow> supervisor_event \<Rightarrow> bool" where
  "concerns sid e = (case event_server e of None \<Rightarrow> False | Some r \<Rightarrow> ref_server_id r = sid)"

fun is_dial :: "supervisor_event \<Rightarrow> bool" where
  "is_dial (Reconnected _ _ _) = True"
| "is_dial (ReconnectFailed _ _ _ _) = True"
| "is_dial (Parked _ _) = True"
| "is_dial _ = False"

lemma judge_timeout_other:
  assumes "judge_timeout server after sv = (sv', verdict, e)"
  shows "backoff sv' = backoff sv" "terminal sv' = terminal sv"
    "sup_config sv' = sup_config sv" "sup_identity sv' = sup_identity sv"
    "sid \<noteq> server_id server \<Longrightarrow> timeouts sv' sid = timeouts sv sid"
    "event_server e = Some (server_ref_of server)" "\<not> is_dial e"
  using assms by (auto simp: judge_timeout_def Let_def split: if_splits option.splits)

lemma judge_timeout_inv:
  assumes "judge_timeout server after sv = (sv', verdict, e)" "sup_inv sv"
  shows "sup_inv sv'"
proof -
  have "0 < (case timeouts sv sid of None \<Rightarrow> 1 | Some n \<Rightarrow> sat_add n 1)" for sid
    by (simp add: sat_add_1_pos split: option.splits)
  with assms show ?thesis
    by (auto simp: judge_timeout_def sup_inv_def Let_def split: if_splits)
qed

lemma judge_probe_other:
  assumes "judge_probe p server sv w = (sv', w', verdict, e)"
  shows "terminal sv' = terminal sv"
    "backoff sv' (server_id server) \<in> {backoff sv (server_id server), None}"
    "sup_config sv' = sup_config sv" "sup_identity sv' = sup_identity sv"
    "sid \<noteq> server_id server \<Longrightarrow> backoff sv' sid = backoff sv sid \<and> timeouts sv' sid = timeouts sv sid"
    "event_server e = Some (server_ref_of server)" "\<not> is_dial e"
  using assms
  by (auto simp: judge_probe_def Let_def judge_timeout_other
      split: prod.splits probe_outcome.splits dest: judge_timeout_other)

lemma judge_probe_inv:
  assumes "judge_probe p server sv w = (sv', w', verdict, e)" "sup_inv sv"
  shows "sup_inv sv'"
proof -
  obtain w1 out where pr: "pool_probe p (server_id server) (probe_timeout (sup_config sv)) w = (w1, out)"
    by (cases "pool_probe p (server_id server) (probe_timeout (sup_config sv)) w")
  show ?thesis
  proof (cases out)
    case (TimedOut d)
    obtain sv1 v1 e1 where "judge_timeout server d sv = (sv1, v1, e1)"
      by (cases "judge_timeout server d sv") auto
    with judge_timeout_inv assms pr TimedOut show ?thesis by (auto simp: judge_probe_def Let_def)
  qed (use assms pr in \<open>auto simp: judge_probe_def sup_inv_def Let_def split: if_splits\<close>)
qed

lemma attempt_connect_other:
  assumes "attempt_connect p server now sv w = (sv', w', e)"
  shows "sid \<noteq> server_id server \<Longrightarrow> backoff sv' sid = backoff sv sid"
    "sid \<noteq> server_id server \<Longrightarrow> timeouts sv' sid = timeouts sv sid"
    "sid \<noteq> server_id server \<Longrightarrow> sid \<in> terminal sv' \<longleftrightarrow> sid \<in> terminal sv"
    "sup_config sv' = sup_config sv" "sup_identity sv' = sup_identity sv"
    "event_server e = Some (server_ref_of server)" "is_dial e"
  using assms
  by (auto simp: attempt_connect_def Let_def split: prod.splits sum.splits if_splits)

lemma attempt_connect_inv:
  assumes "attempt_connect p server now sv w = (sv', w', e)"
    and "sup_inv (sv\<lparr>backoff := (backoff sv)(server_id server := None)\<rparr>)"
    and "server_id server \<notin> terminal sv"
  shows "sup_inv sv'"
proof -
  have "sat_add n 1 \<noteq> (0 :: u32)" for n using sat_add_1_pos [of n] by auto
  then have rf: "failures (record_failure now b) \<noteq> 0" "next_attempt_at (record_failure now b) \<noteq> None" for b
    by (simp_all add: record_failure_def Let_def)
  show ?thesis
    using assms rf
    by (auto simp: attempt_connect_def sup_inv_def Let_def split: prod.splits sum.splits if_splits)
      (metis option.inject)+
qed

lemma supervise_other:
  fixes p :: "('w, 'i) pool" and sv :: "'i supervisor"
  assumes "supervise p now (sv, w, r) server = (sv', w', r')"
  shows "sid \<noteq> server_id server \<Longrightarrow> backoff sv' sid = backoff sv sid"
    "sid \<noteq> server_id server \<Longrightarrow> timeouts sv' sid = timeouts sv sid"
    "sid \<noteq> server_id server \<Longrightarrow> sid \<in> terminal sv' \<longleftrightarrow> sid \<in> terminal sv"
    "sup_config sv' = sup_config sv" "sup_identity sv' = sup_identity sv"
    "\<exists>es. events r' = events r @ es \<and> length es \<le> 2 \<and> (\<not> enabled server \<longrightarrow> es = []) \<and>
       (\<forall>e \<in> set es. event_server e = Some (server_ref_of server))"
proof -
  let ?sid = "server_id server"
  let ?st = "case backoff sv ?sid of None \<Rightarrow> backoff_default | Some s \<Rightarrow> s"
  have "(sid \<noteq> ?sid \<longrightarrow> backoff sv' sid = backoff sv sid \<and> timeouts sv' sid = timeouts sv sid \<and>
        (sid \<in> terminal sv' \<longleftrightarrow> sid \<in> terminal sv)) \<and>
      sup_config sv' = sup_config sv \<and> sup_identity sv' = sup_identity sv \<and>
      (\<exists>es. events r' = events r @ es \<and> length es \<le> 2 \<and> (\<not> enabled server \<longrightarrow> es = []) \<and>
       (\<forall>e \<in> set es. event_server e = Some (server_ref_of server)))"
  proof (cases "enabled server")
    case False
    with assms show ?thesis by (auto simp: supervise_def Let_def)
  next
    case True
    have dial: "(sid \<noteq> ?sid \<longrightarrow> backoff sv3 sid = backoff sv2 sid \<and> timeouts sv3 sid = timeouts sv2 sid \<and>
          (sid \<in> terminal sv3 \<longleftrightarrow> sid \<in> terminal sv2)) \<and> sup_config sv3 = sup_config sv2 \<and>
        sup_identity sv3 = sup_identity sv2 \<and> event_server e = Some (server_ref_of server)"
      if "attempt_connect p server now (sv2\<lparr>backoff := (backoff sv2)(?sid \<mapsto> b)\<rparr>) w2 = (sv3, w3, e)"
      for sv2 :: "'i supervisor" and w2 b sv3 w3 e
      using attempt_connect_other(1-3) [OF that, of sid] attempt_connect_other(4-6) [OF that] by auto
    show ?thesis
    proof (cases "pool_connected p ?sid w")
      case conn: True
      obtain sv1 w1 v e1 where jp: "judge_probe p server sv w = (sv1, w1, v, e1)"
        by (cases "judge_probe p server sv w") auto
      note jo = judge_probe_other [OF jp]
      show ?thesis
        using assms True conn jp jo(1,3,4,6) jo(5) [of sid] dial
        by (fastforce simp: supervise_def Let_def report_push_def split: if_splits prod.splits)
    next
      case conn: False
      show ?thesis
        using assms True conn dial
        by (fastforce simp: supervise_def Let_def report_push_def split: if_splits prod.splits)
    qed
  qed
  then show "sid \<noteq> server_id server \<Longrightarrow> backoff sv' sid = backoff sv sid"
    "sid \<noteq> server_id server \<Longrightarrow> timeouts sv' sid = timeouts sv sid"
    "sid \<noteq> server_id server \<Longrightarrow> sid \<in> terminal sv' \<longleftrightarrow> sid \<in> terminal sv"
    "sup_config sv' = sup_config sv" "sup_identity sv' = sup_identity sv"
    "\<exists>es. events r' = events r @ es \<and> length es \<le> 2 \<and> (\<not> enabled server \<longrightarrow> es = []) \<and>
       (\<forall>e \<in> set es. event_server e = Some (server_ref_of server))"
    by blast+
qed

text \<open>What follows the liveness block: parked, waiting, or dialled.\<close>

definition dial_if_due :: "('w, 'i) pool \<Rightarrow> nat \<Rightarrow> installed_server \<Rightarrow>
    'i supervisor \<times> 'w \<times> tick_report \<Rightarrow> 'i supervisor \<times> 'w \<times> tick_report" where
  "dial_if_due p now server st =
     (let (sv, w, report) = st; sid = server_id server;
          state = (case backoff sv sid of None \<Rightarrow> backoff_default | Some s \<Rightarrow> s);
          sv1 = sv\<lparr>backoff := (backoff sv)(sid \<mapsto> state)\<rparr>
      in if sid \<in> terminal sv then (sv, w, report)
         else if \<not> ready state now then (sv1, w, report)
         else let (sv, w, event) = attempt_connect p server now sv1 w
              in (sv, w, report_push event report))"

lemma supervise_unfold:
  "supervise p now (sv, w, r) server =
     (if \<not> enabled server
      then (sv\<lparr>backoff := (backoff sv)(server_id server := None),
               timeouts := (timeouts sv)(server_id server := None),
               terminal := terminal sv - {server_id server}\<rparr>, w, r)
      else if pool_connected p (server_id server) w
      then (case judge_probe p server sv w of (sv1, w1, v, e) \<Rightarrow>
              if v = Keep then (sv1, w1, report_push e r)
              else dial_if_due p now server (sv1, w1, report_push e r))
      else dial_if_due p now server (sv, w, r))"
  by (auto simp: supervise_def dial_if_due_def Let_def split: prod.splits)

lemma dial_if_due_inv:
  assumes "dial_if_due p now server (sv, w, r) = (sv', w', r')" "sup_inv sv"
  shows "sup_inv sv'"
proof -
  let ?sid = "server_id server"
  let ?state = "case backoff sv ?sid of None \<Rightarrow> backoff_default | Some s \<Rightarrow> s"
  let ?sv1 = "sv\<lparr>backoff := (backoff sv)(?sid \<mapsto> ?state)\<rparr>"
  consider (parked) "?sid \<in> terminal sv" | (wait) "?sid \<notin> terminal sv" "\<not> ready ?state now"
    | (due) "?sid \<notin> terminal sv" "ready ?state now" by blast
  then show ?thesis
  proof cases
    case wait
    then have "backoff sv ?sid = Some ?state"
      by (auto simp: ready_def backoff_default_def split: option.splits)
    then have "?sv1 = sv" by (simp only: fun_upd_idem) simp
    with assms(1) wait have "sv' = sv" by (simp add: dial_if_due_def Let_def)
    with assms(2) show ?thesis by simp
  next
    case due
    obtain sv2 w2 e where ac: "attempt_connect p server now ?sv1 w = (sv2, w2, e)"
      by (cases "attempt_connect p server now ?sv1 w") auto
    have "sup_inv (sv\<lparr>backoff := (backoff sv)(?sid := None)\<rparr>)"
      using assms(2) by (auto simp: sup_inv_def)
    then have "sup_inv sv2" by (intro attempt_connect_inv [OF ac]) (simp_all add: due(1))
    with assms(1) due ac show ?thesis by (simp add: dial_if_due_def Let_def)
  next
    case parked
    with assms(1) have "sv' = sv" by (simp add: dial_if_due_def)
    with assms(2) show ?thesis by simp
  qed
qed

lemma supervise_inv:
  assumes "supervise p now (sv, w, r) server = (sv', w', r')" "sup_inv sv"
  shows "sup_inv sv'"
proof (cases "enabled server")
  case False
  with assms show ?thesis by (auto simp: supervise_unfold sup_inv_def split: if_splits)
next
  case True
  show ?thesis
  proof (cases "pool_connected p (server_id server) w")
    case conn: True
    obtain sv1 w1 v e where jp: "judge_probe p server sv w = (sv1, w1, v, e)"
      by (cases "judge_probe p server sv w") auto
    from judge_probe_inv [OF this assms(2)] have "sup_inv sv1" .
    with assms(1) True conn jp show ?thesis
      by (auto simp: supervise_unfold split: if_splits dest: dial_if_due_inv)
  next
    case False
    with assms True show ?thesis by (auto simp: supervise_unfold dest: dial_if_due_inv)
  qed
qed

lemma supervise_all_inv:
  "foldl (supervise p now) (sv, w, r) servers = (sv', w', r') \<Longrightarrow> sup_inv sv \<Longrightarrow> sup_inv sv'"
proof (induction servers arbitrary: sv w r)
  case (Cons s ss)
  obtain sv1 w1 r1 where "supervise p now (sv, w, r) s = (sv1, w1, r1)"
    by (cases "supervise p now (sv, w, r) s") auto
  with Cons show ?case using supervise_inv by fastforce
qed simp

lemma tick_inv: "sup_inv sv \<Longrightarrow> sup_inv (fst (tick p now sv w))"
proof (cases "pool_list p w")
  case (Inr servers)
  assume "sup_inv sv"
  then show ?thesis
    using Inr supervise_all_inv [of p now sv w "\<lparr>events = []\<rparr>" servers]
    by (cases "foldl (supervise p now) (sv, w, \<lparr>events = []\<rparr>) servers") (auto simp: tick_def)
qed (simp add: tick_def)

text \<open>One cycle as an operation: at some time, on whatever the pool and its world then are.\<close>

definition tick_op :: "'i supervisor \<Rightarrow> ('w, 'i) pool \<times> nat \<times> 'w \<Rightarrow> 'i supervisor" where
  "tick_op sv c = (case c of (p, now, w) \<Rightarrow> fst (tick p now sv w))"

lemma sup_inv_new: "sup_inv (supervisor_new cfg identity)"
  by (simp add: sup_inv_def supervisor_new_def)

lemma tick_op_inv: "sup_inv sv \<Longrightarrow> sup_inv (tick_op sv c)"
  by (cases c) (simp add: tick_op_def tick_inv)

interpretation spv: op_machine tick_op sup_inv "supervisor_new cfg identity" for cfg identity
  by unfold_locales (rule sup_inv_new, rule tick_op_inv)

text \<open>
  C7. Whatever cycles a supervisor has run, against any pool, store and clock: no server is
  both parked and backed off, so the two counters count different servers; every penalty has at
  least one recorded failure behind it and a time it ends, so a wait is never endless and never
  free; and a streak of slow probes it remembers is shorter than the one that ends a session.
\<close>

theorem supervisor_state_sound:
  fixes cycles :: "(('w, 'i) pool \<times> nat \<times> 'w) list"
  shows "let sv = run_ops tick_op (supervisor_new cfg identity) cycles
   in terminal sv \<inter> dom (backoff sv) = {} \<and>
      (case backoff sv sid of None \<Rightarrow> True | Some b \<Rightarrow> failures b \<noteq> 0 \<and> next_attempt_at b \<noteq> None) \<and>
      unat (consecutive_timeouts sv sid) < 3"
proof -
  define sv where "sv = run_ops tick_op (supervisor_new cfg identity) cycles"
  have inv: "sup_inv sv" unfolding sv_def by (rule spv.inv_reachable)
  have "n < teardown_after \<Longrightarrow> unat n < 3" for n :: u32
    by (simp add: teardown_after_def word_less_nat_alt)
  with inv show ?thesis
    unfolding sv_def [symmetric] Let_def
    by (auto simp: sup_inv_def consecutive_timeouts_def split: option.splits)
qed

section \<open>Histories\<close>

definition report_of :: "'i supervisor \<Rightarrow> ('w, 'i) pool \<times> nat \<times> 'w \<Rightarrow> supervisor_event list" where
  "report_of sv c = (case c of (p, now, w) \<Rightarrow> events (snd (snd (tick p now sv w))))"

fun history :: "'i supervisor \<Rightarrow> (('w, 'i) pool \<times> nat \<times> 'w) list \<Rightarrow> supervisor_event list" where
  "history sv [] = []"
| "history sv (c # cs) = report_of sv c @ history (tick_op sv c) cs"

definition keeps_enabled :: "string \<Rightarrow> ('w, 'i) pool \<times> nat \<times> 'w \<Rightarrow> bool" where
  "keeps_enabled sid c = (case c of (p, now, w) \<Rightarrow>
     (case pool_list p w of Inl _ \<Rightarrow> True
      | Inr servers \<Rightarrow> list_all (\<lambda>s. server_id s = sid \<longrightarrow> enabled s) servers))"

definition no_dial :: "string \<Rightarrow> supervisor_event list \<Rightarrow> bool" where
  "no_dial sid es = (\<forall>e \<in> set es. is_dial e \<longrightarrow> \<not> concerns sid e)"

lemma no_dial_simps [simp]:
  "no_dial sid []" "no_dial sid (e # es) = ((is_dial e \<longrightarrow> \<not> concerns sid e) \<and> no_dial sid es)"
  "no_dial sid (es @ fs) = (no_dial sid es \<and> no_dial sid fs)"
  by (auto simp: no_dial_def)

text \<open>An invariant of the loop over the installs, carried to whole cycles and histories.\<close>

lemma foldl_supervise_no_dial:
  assumes "\<And>sv w r server sv' w' r'. P sv \<Longrightarrow> server \<in> set servers \<Longrightarrow>
      supervise p now (sv, w, r) server = (sv', w', r') \<Longrightarrow>
      P sv' \<and> (no_dial sid (events r) \<longrightarrow> no_dial sid (events r'))"
    and "foldl (supervise p now) (sv, w, r) servers = (sv', w', r')" "P sv" "no_dial sid (events r)"
  shows "P sv' \<and> no_dial sid (events r')"
  using assms
proof (induction servers arbitrary: sv w r)
  case (Cons s ss)
  obtain sv1 w1 r1 where st: "supervise p now (sv, w, r) s = (sv1, w1, r1)"
    by (cases "supervise p now (sv, w, r) s") auto
  have "P sv1" "no_dial sid (events r1)"
    using Cons.prems(1) [OF Cons.prems(3) _ st] Cons.prems(4) by auto
  moreover have "foldl (supervise p now) (sv1, w1, r1) ss = (sv', w', r')"
    using Cons.prems(2) st by simp
  ultimately show ?case using Cons.IH Cons.prems(1) by (meson list.set_intros(2))
qed simp

lemma tick_no_dial:
  assumes "\<And>servers sv w r server sv' w' r'. pool_list p w0 = Inr servers \<Longrightarrow> P sv \<Longrightarrow>
      server \<in> set servers \<Longrightarrow> supervise p now (sv, w, r) server = (sv', w', r') \<Longrightarrow>
      P sv' \<and> (no_dial sid (events r) \<longrightarrow> no_dial sid (events r'))"
    and "P sv"
  shows "P (tick_op sv (p, now, w0)) \<and> no_dial sid (report_of sv (p, now, w0))"
proof (cases "pool_list p w0")
  case (Inl e)
  with assms(2) show ?thesis by (simp add: tick_op_def report_of_def tick_def)
next
  case (Inr servers)
  obtain sv' w' r' where
    fl: "foldl (supervise p now) (sv, w0, \<lparr>events = []\<rparr>) servers = (sv', w', r')"
    by (cases "foldl (supervise p now) (sv, w0, \<lparr>events = []\<rparr>) servers") auto
  have "P sv' \<and> no_dial sid (events r')"
    by (rule foldl_supervise_no_dial [OF _ fl]) (use assms Inr in auto)
  with Inr fl show ?thesis by (simp add: tick_op_def report_of_def tick_def)
qed

lemma supervise_other_no_dial:
  assumes "supervise p now (sv, w, r) server = (sv', w', r')" "server_id server \<noteq> sid"
    "no_dial sid (events r)"
  shows "no_dial sid (events r')"
  using supervise_other(6) [OF assms(1)] assms(2,3)
  by (auto simp: no_dial_def concerns_def server_ref_of_def)

lemma dial_if_due_parked: "server_id server \<in> terminal sv \<Longrightarrow> dial_if_due p now server (sv, w, r) = (sv, w, r)"
  by (simp add: dial_if_due_def)

lemma supervise_parked:
  assumes "supervise p now (sv, w, r) server = (sv', w', r')" "sid \<in> terminal sv"
    "server_id server = sid \<longrightarrow> enabled server"
  shows "sid \<in> terminal sv' \<and> (no_dial sid (events r) \<longrightarrow> no_dial sid (events r'))"
proof (cases "server_id server = sid")
  case False
  then have "sid \<in> terminal sv'" using supervise_other(3) [OF assms(1), of sid] assms(2) by simp
  with supervise_other_no_dial [OF assms(1) False] show ?thesis by simp
next
  case True
  obtain sv1 w1 v e where jp: "judge_probe p server sv w = (sv1, w1, v, e)"
    by (cases "judge_probe p server sv w") auto
  have "sid \<in> terminal sv1" "\<not> is_dial e" using judge_probe_other(1,7) [OF jp] assms(2) by simp_all
  then have "(sv', w', r') = (sv1, w1, report_push e r) \<or> (sv', w', r') = (sv, w, r)"
    using assms(1,2,3) by (auto simp: True supervise_unfold dial_if_due_parked jp split: if_splits)
  with \<open>sid \<in> terminal sv1\<close> \<open>\<not> is_dial e\<close> assms(2) show ?thesis
    by (auto simp: report_push_def)
qed

lemma foldl_supervise_other:
  "foldl (supervise p now) (sv, w, r) ss = (sv', w', r') \<Longrightarrow> \<forall>s \<in> set ss. server_id s \<noteq> sid \<Longrightarrow>
   (sid \<in> terminal sv' \<longleftrightarrow> sid \<in> terminal sv) \<and> backoff sv' sid = backoff sv sid \<and>
   timeouts sv' sid = timeouts sv sid \<and> sup_config sv' = sup_config sv \<and>
   sup_identity sv' = sup_identity sv \<and>
   filter (concerns sid) (events r') = filter (concerns sid) (events r)"
proof (induction ss arbitrary: sv w r)
  case (Cons s ss)
  obtain sv1 w1 r1 where s: "supervise p now (sv, w, r) s = (sv1, w1, r1)"
    by (cases "supervise p now (sv, w, r) s") auto
  obtain es where "events r1 = events r @ es" "\<forall>e \<in> set es. event_server e = Some (server_ref_of s)"
    using supervise_other(6) [OF s] by blast
  then have "filter (concerns sid) (events r1) = filter (concerns sid) (events r)"
    using Cons.prems(2) by (auto simp: concerns_def server_ref_of_def filter_empty_conv)
  with supervise_other(1-3) [OF s, of sid] supervise_other(4,5) [OF s] Cons show ?case
    by (auto simp: s)
qed simp

text \<open>A cycle split at one server: before it, its own turn, after it.\<close>

lemma tick_split:
  assumes "pool_list p w = Inr (before @ server # others)"
    and "\<forall>s \<in> set before \<union> set others. server_id s \<noteq> server_id server"
  obtains sv1 w1 r1 sv2 w2 r2 where
    "foldl (supervise p now) (sv, w, \<lparr>events = []\<rparr>) before = (sv1, w1, r1)"
    "supervise p now (sv1, w1, r1) server = (sv2, w2, r2)"
    "server_id server \<in> terminal sv1 \<longleftrightarrow> server_id server \<in> terminal sv"
    "backoff sv1 (server_id server) = backoff sv (server_id server)"
    "timeouts sv1 (server_id server) = timeouts sv (server_id server)"
    "sup_config sv1 = sup_config sv" "sup_identity sv1 = sup_identity sv"
    "filter (concerns (server_id server)) (events r1) = []"
    "server_id server \<in> terminal (tick_op sv (p, now, w)) \<longleftrightarrow> server_id server \<in> terminal sv2"
    "backoff (tick_op sv (p, now, w)) (server_id server) = backoff sv2 (server_id server)"
    "timeouts (tick_op sv (p, now, w)) (server_id server) = timeouts sv2 (server_id server)"
    "filter (concerns (server_id server)) (report_of sv (p, now, w)) =
       filter (concerns (server_id server)) (events r2)"
    "foldl (supervise p now) (sv2, w2, r2) others = tick p now sv w"
proof -
  obtain sv1 w1 r1 where f1: "foldl (supervise p now) (sv, w, \<lparr>events = []\<rparr>) before = (sv1, w1, r1)"
    by (cases "foldl (supervise p now) (sv, w, \<lparr>events = []\<rparr>) before") auto
  obtain sv2 w2 r2 where s: "supervise p now (sv1, w1, r1) server = (sv2, w2, r2)"
    by (cases "supervise p now (sv1, w1, r1) server") auto
  obtain sv3 w3 r3 where f2: "foldl (supervise p now) (sv2, w2, r2) others = (sv3, w3, r3)"
    by (cases "foldl (supervise p now) (sv2, w2, r2) others") auto
  have "tick_op sv (p, now, w) = sv3" "report_of sv (p, now, w) = events r3"
    "tick p now sv w = (sv3, w3, r3)"
    using assms(1) f1 s f2 by (simp_all add: tick_op_def report_of_def tick_def)
  with foldl_supervise_other [OF f1, of "server_id server"]
    foldl_supervise_other [OF f2, of "server_id server"] assms(2) f1 s
  show ?thesis by (intro that [OF f1 s]) (simp_all add: f2)
qed

text \<open>
  C8. A parked server stays parked: as long as every cycle's listing has it enabled (or does
  not have it), no cycle dials it and it stays parked, however often it is probed, however long
  it waits and whatever becomes of its session. Disabling it is the way back: a cycle that
  lists it disabled forgets the verdict, the penalty and the streak.
\<close>

theorem parked_until_disabled:
  fixes cycles :: "(('w, 'i) pool \<times> nat \<times> 'w) list"
  assumes "sid \<in> terminal sv" "list_all (keeps_enabled sid) cycles"
    and "pool_list p w = Inr (before @ server # others)" "server_id server = sid" "\<not> enabled server"
      "\<forall>s \<in> set before \<union> set others. server_id s \<noteq> sid"
  shows "sid \<in> terminal (run_ops tick_op sv cycles) \<and> no_dial sid (history sv cycles) \<and>
    (let sv' = tick_op (run_ops tick_op sv cycles) (p, now, w)
     in sid \<notin> terminal sv' \<and> backoff sv' sid = None \<and> timeouts sv' sid = None)"
proof -
  have "sid \<in> terminal (run_ops tick_op sv cycles) \<and> no_dial sid (history sv cycles)"
    using assms(1,2)
  proof (induction cycles arbitrary: sv)
    case (Cons c cs)
    obtain q t w0 where c: "c = (q, t, w0)" by (cases c)
    have "sid \<in> terminal (tick_op sv c) \<and> no_dial sid (report_of sv c)"
      unfolding c
      by (rule tick_no_dial)
        (use Cons.prems c in \<open>auto simp: keeps_enabled_def list_all_iff dest: supervise_parked\<close>)
    with Cons show ?case by simp
  qed simp
  moreover have "sid \<notin> terminal (tick_op sv1 (p, now, w)) \<and>
    backoff (tick_op sv1 (p, now, w)) sid = None \<and> timeouts (tick_op sv1 (p, now, w)) sid = None"
    for sv1 :: "'i supervisor"
  proof (rule tick_split [OF assms(3), where sv = sv1 and now = now])
    show "\<forall>s \<in> set before \<union> set others. server_id s \<noteq> server_id server" using assms(4,6) by simp
  qed (use assms(4,5) in \<open>auto simp: supervise_unfold\<close>)
  ultimately show ?thesis by (simp add: Let_def)
qed

text \<open>Concrete servers and pools, for instances.\<close>

definition sample_server :: "string \<Rightarrow> bool \<Rightarrow> installed_server" where
  "sample_server sid on = \<lparr>server_id = sid, qualified_name = ''@q/'' @ sid, display_name = sid,
     description = None, icon_url = None, launch_kind = Node, launch_command = ''npx'',
     launch_args = [], env_keys = [], install_config = None, installed_at = 0,
     last_connected_at = None, dial = Stdio, enabled = on\<rparr>"

definition fixed_pool :: "installed_server list \<Rightarrow> bool \<Rightarrow> probe_outcome \<Rightarrow>
    error + mcp_tool list \<Rightarrow> (unit, unit) pool" where
  "fixed_pool servers up probed dialled = \<lparr>pool_list = \<lambda>w. Inr servers,
     pool_connected = \<lambda>s w. up, pool_probe = \<lambda>s d w. (w, probed),
     pool_connect = \<lambda>i s w. (w, dialled), pool_disconnect = \<lambda>s w. w\<rparr>"

theorem parked_until_disabled_witness:
  "let sv = (supervisor_new default_config ())\<lparr>terminal := {''a''}\<rparr>;
       on = (fixed_pool [sample_server ''a'' True] False Missing (Inr []), 0, ());
       off = (fixed_pool [sample_server ''a'' False] False Missing (Inr []), 0, ())
   in history sv [on, on] = [] \<and> terminal (run_ops tick_op sv [on, on]) = {''a''} \<and>
      ''a'' \<notin> terminal (tick_op (run_ops tick_op sv [on, on]) off)"
proof -
  let ?sv = "(supervisor_new default_config ())\<lparr>terminal := {''a''}\<rparr>"
  let ?on = "(fixed_pool [sample_server ''a'' True] False Missing (Inr []), 0 :: nat, ())"
  have "''a'' \<notin> terminal (tick_op (run_ops tick_op ?sv [?on, ?on])
      (fixed_pool [sample_server ''a'' False] False Missing (Inr []), 0, ()))"
    using parked_until_disabled [of "''a''" ?sv "[?on, ?on]"
        "fixed_pool [sample_server ''a'' False] False Missing (Inr [])" "()" "[]"
        "sample_server ''a'' False" "[]" 0]
    by (simp add: keeps_enabled_def fixed_pool_def sample_server_def Let_def del: run_ops_simps)
  then show ?thesis
    by (simp add: Let_def report_of_def tick_op_def tick_def fixed_pool_def supervise_unfold
        dial_if_due_def sample_server_def supervisor_new_def)
qed

section \<open>The retry schedule\<close>

lemma supervise_waiting:
  assumes "supervise p now (sv, w, r) server = (sv', w', r')"
    and "backoff sv sid = Some b" "\<not> ready b now" "sid \<notin> terminal sv"
    and "server_id server = sid \<longrightarrow> enabled server" "\<not> pool_connected p sid w"
  shows "backoff sv' sid = Some b \<and> sid \<notin> terminal sv' \<and> sup_identity sv' = sup_identity sv \<and>
    (no_dial sid (events r) \<longrightarrow> no_dial sid (events r'))"
proof (cases "server_id server = sid")
  case False
  then show ?thesis
    using supervise_other(1,3) [OF assms(1), of sid] supervise_other(5) [OF assms(1)] assms(2,4)
      supervise_other_no_dial [OF assms(1) False] by simp
next
  case True
  have "(backoff sv)(sid \<mapsto> b) = backoff sv" using assms(2) by (rule fun_upd_idem)
  with assms True have "(sv', w', r') = (sv, w, r)"
    by (simp add: supervise_unfold dial_if_due_def Let_def)
  with assms show ?thesis by simp
qed

text \<open>The event and the penalty that come of one dial.\<close>

definition dial_event :: "installed_server \<Rightarrow> nat \<Rightarrow> backoff_state \<Rightarrow> error + mcp_tool list \<Rightarrow> supervisor_event" where
  "dial_event server now b outcome = (case outcome of
     Inr tools \<Rightarrow> Reconnected (server_ref_of server) (length tools) (failures b)
   | Inl err \<Rightarrow> if is_missing_runtime err \<or> is_unauthorized err
       then Parked (server_ref_of server) (error_text err)
       else ReconnectFailed (server_ref_of server) (error_text err)
              (failures (record_failure now b)) (current_delay (record_failure now b)))"

definition penalty_after :: "nat \<Rightarrow> backoff_state \<Rightarrow> error + mcp_tool list \<Rightarrow> backoff_state option" where
  "penalty_after now b outcome = (case outcome of
     Inr _ \<Rightarrow> None
   | Inl err \<Rightarrow> if is_missing_runtime err \<or> is_unauthorized err then None else Some (record_failure now b))"

lemma supervise_due:
  assumes "supervise p now (sv, w, r) server = (sv', w', r')"
    and "b = (case backoff sv (server_id server) of None \<Rightarrow> backoff_default | Some b \<Rightarrow> b)"
    and "ready b now" "server_id server \<notin> terminal sv"
    and "enabled server" "\<not> pool_connected p (server_id server) w"
  shows "events r' = events r @ [dial_event server now b (snd (pool_connect p (sup_identity sv) server w))] \<and>
    backoff sv' (server_id server) = penalty_after now b (snd (pool_connect p (sup_identity sv) server w))"
  using assms
  by (auto simp: supervise_unfold dial_if_due_def attempt_connect_def dial_event_def penalty_after_def
      report_push_def Let_def split: prod.splits sum.splits if_splits)



section \<open>Sessions, over a pool that keeps its word\<close>

text \<open>
  What the cycle relies on of the pool: probing changes no membership, ending a session removes
  exactly that server, dialling adds at most that server, and adds it when it succeeds and not
  when it fails.
\<close>

fun up_event :: "supervisor_event \<Rightarrow> bool" where
  "up_event (ProbeAnswered _ _) = True"
| "up_event (ProbeTimedOut _ _ _ _) = True"
| "up_event (Reconnected _ _ _) = True"
| "up_event _ = False"

locale conn_pool =
  fixes p :: "('w, 'i) pool"
  assumes probe_keeps: "pool_connected p x (fst (pool_probe p s d w)) = pool_connected p x w"
    and disconnect_only: "pool_connected p x (pool_disconnect p s w) = (x \<noteq> s \<and> pool_connected p x w)"
    and connect_other: "x \<noteq> server_id srv \<Longrightarrow>
      pool_connected p x (fst (pool_connect p i srv w)) = pool_connected p x w"
    and connect_ok: "snd (pool_connect p i srv w) = Inr tools \<Longrightarrow>
      pool_connected p (server_id srv) (fst (pool_connect p i srv w))"
    and connect_err: "snd (pool_connect p i srv w) = Inl err \<Longrightarrow>
      \<not> pool_connected p (server_id srv) w \<Longrightarrow>
      \<not> pool_connected p (server_id srv) (fst (pool_connect p i srv w))"
begin

lemma supervise_connected_other:
  assumes "supervise p now (sv, w, r) server = (sv', w', r')" "x \<noteq> server_id server"
  shows "pool_connected p x w' = pool_connected p x w"
proof -
  have jp: "judge_probe p server sv w = (sv1, w1, v, e) \<Longrightarrow> pool_connected p x w1 = pool_connected p x w"
    for sv sv1 w1 v e
    using assms(2) probe_keeps [of x "server_id server" "probe_timeout (sup_config sv)" w]
    by (auto simp: judge_probe_def Let_def disconnect_only split: prod.splits if_splits)
  have ac: "attempt_connect p server now sv2 w2 = (sv1, w1, e) \<Longrightarrow>
      pool_connected p x w1 = pool_connected p x w2" for sv2 sv1 w1 w2 e
    using connect_other [OF assms(2), of "sup_identity sv2" w2]
    by (auto simp: attempt_connect_def Let_def split: prod.splits sum.splits if_splits)
  have di: "dial_if_due p now server (sv2, w2, r2) = (sv1, w1, r1) \<Longrightarrow>
      pool_connected p x w1 = pool_connected p x w2" for sv2 w2 r2 sv1 w1 r1
    by (auto simp: dial_if_due_def Let_def split: prod.splits if_splits dest: ac)
  show ?thesis
    using assms(1) by (auto simp: supervise_unfold split: if_splits prod.splits dest: jp di)
qed

lemma foldl_connected_other:
  "foldl (supervise p now) (sv, w, r) ss = (sv', w', r') \<Longrightarrow> \<forall>s \<in> set ss. server_id s \<noteq> x \<Longrightarrow>
   pool_connected p x w' = pool_connected p x w"
proof (induction ss arbitrary: sv w r)
  case (Cons s ss)
  obtain sv1 w1 r1 where s: "supervise p now (sv, w, r) s = (sv1, w1, r1)"
    by (cases "supervise p now (sv, w, r) s") auto
  with supervise_connected_other [OF s, of x] Cons show ?case by auto
qed simp

lemma timed_out_turn:
  assumes "supervise p now (sv, w, r) server = (sv', w', r')" "sup_inv sv" "enabled server"
    and "pool_connected p (server_id server) w"
    and "\<And>w. pool_connected p (server_id server) w \<Longrightarrow>
      snd (pool_probe p (server_id server) (probe_timeout (sup_config sv)) w) = TimedOut d"
    and "n = consecutive_timeouts sv (server_id server)"
  shows "if unat n < 2
    then pool_connected p (server_id server) w' \<and> timeouts sv' (server_id server) = Some (n + 1) \<and>
      events r' = events r @ [ProbeTimedOut (server_ref_of server) d (n + 1) 3]
    else timeouts sv' (server_id server) = None \<and>
      (\<exists>es. events r' = events r @ TransportDropped (server_ref_of server) (TimedOut d) 3 # es \<and>
        length es \<le> 1 \<and> (pool_connected p (server_id server) w' \<longrightarrow> es \<noteq> []))"
proof -
  let ?sid = "server_id server"
  obtain w1 where pr: "pool_probe p ?sid (probe_timeout (sup_config sv)) w = (w1, TimedOut d)"
    using assms(5) [of w] assms(4) by (cases "pool_probe p ?sid (probe_timeout (sup_config sv)) w") auto
  have up: "pool_connected p ?sid w1"
    using probe_keeps [of ?sid ?sid "probe_timeout (sup_config sv)" w] assms(4) pr by simp
  have n: "n = 0 \<or> n = 1 \<or> n = 2"
  proof -
    have "n < 3" using assms(2,6)
      by (auto simp: sup_inv_def consecutive_timeouts_def teardown_after_def split: option.splits)
    then have "unat n < 3" by (simp add: word_less_nat_alt)
    then have "unat n = unat (0::u32) \<or> unat n = unat (1::u32) \<or> unat n = unat (2::u32)" by auto
    then show ?thesis by (simp only: word_unat_eq_iff)
  qed
  have nz: "timeouts sv ?sid \<noteq> Some 0" using assms(2) by (auto simp: sup_inv_def)
  have streak: "(case timeouts sv ?sid of Some n \<Rightarrow> sat_add n 1 | None \<Rightarrow> 1) = n + 1"
    using n nz assms(6) by (auto simp: consecutive_timeouts_def sat_add_def split: option.splits)
  show ?thesis
  proof (cases "unat n < 2")
    case True
    with n have "n + 1 < teardown_after" by (auto simp: teardown_after_def)
    with True up assms(1,3,4) pr streak show ?thesis
      by (auto simp: supervise_unfold judge_probe_def judge_timeout_def report_push_def
          teardown_after_def Let_def)
  next
    case False
    with n have n2: "n = 2" by auto
    let ?sv1 = "sv\<lparr>timeouts := (timeouts sv)(?sid := None)\<rparr>"
    let ?r1 = "report_push (TransportDropped (server_ref_of server) (TimedOut d) 3) r"
    have "(sv', w', r') = dial_if_due p now server (?sv1, pool_disconnect p ?sid w1, ?r1)"
      using assms(1,3,4) pr streak n2
      by (simp add: supervise_unfold judge_probe_def judge_timeout_def teardown_after_def Let_def)
    moreover have "\<not> pool_connected p ?sid (pool_disconnect p ?sid w1)" by (simp add: disconnect_only)
    ultimately have "timeouts sv' ?sid = None \<and> (\<exists>es. events r' = events ?r1 @ es \<and> length es \<le> 1 \<and>
        (pool_connected p ?sid w' \<longrightarrow> es \<noteq> []))"
      by (auto simp: dial_if_due_def attempt_connect_def report_push_def Let_def
          split: prod.splits sum.splits if_splits)
    with False show ?thesis by (auto simp: report_push_def)
  qed
qed

text \<open>The same over a whole cycle.\<close>

lemma session_step:
  assumes "sup_inv sv" "pool_list p w = Inr (before @ server # others)"
    and "\<forall>s \<in> set before \<union> set others. server_id s \<noteq> server_id server" "enabled server"
    and "pool_connected p (server_id server) w"
    and "\<And>w. pool_connected p (server_id server) w \<Longrightarrow>
      snd (pool_probe p (server_id server) (probe_timeout (sup_config sv)) w) = TimedOut d"
    and "n = consecutive_timeouts sv (server_id server)"
  shows "let (sv', w', r') = tick p now sv w; es = filter (concerns (server_id server)) (events r') in
    if unat n < 2
    then pool_connected p (server_id server) w' \<and> consecutive_timeouts sv' (server_id server) = n + 1 \<and>
      es = [ProbeTimedOut (server_ref_of server) d (n + 1) 3]
    else consecutive_timeouts sv' (server_id server) = 0 \<and>
      (\<exists>rest. es = TransportDropped (server_ref_of server) (TimedOut d) 3 # rest \<and> length rest \<le> 1 \<and>
        (pool_connected p (server_id server) w' \<longrightarrow> rest \<noteq> []))"
proof (rule tick_split [OF assms(2,3), where sv = sv and now = now])
  fix sv1 w1 r1 sv2 w2 r2
  let ?sid = "server_id server"
  assume f1: "foldl (supervise p now) (sv, w, \<lparr>events = []\<rparr>) before = (sv1, w1, r1)"
    and st: "supervise p now (sv1, w1, r1) server = (sv2, w2, r2)"
    and t: "timeouts sv1 ?sid = timeouts sv ?sid" "sup_config sv1 = sup_config sv"
      "filter (concerns ?sid) (events r1) = []"
      "timeouts (tick_op sv (p, now, w)) ?sid = timeouts sv2 ?sid"
      "filter (concerns ?sid) (report_of sv (p, now, w)) = filter (concerns ?sid) (events r2)"
    and f2: "foldl (supervise p now) (sv2, w2, r2) others = tick p now sv w"
  obtain sv' w' r' where tk: "tick p now sv w = (sv', w', r')" by (cases "tick p now sv w") auto
  have inv1: "sup_inv sv1" by (rule supervise_all_inv [OF f1 assms(1)])
  have up1: "pool_connected p ?sid w1" using foldl_connected_other [OF f1, of ?sid] assms(3,5) by simp
  have up2: "pool_connected p ?sid w' = pool_connected p ?sid w2"
    using foldl_connected_other [OF f2 [unfolded tk], of ?sid] assms(3) by simp
  have tk': "timeouts sv' ?sid = timeouts sv2 ?sid"
    "filter (concerns ?sid) (events r') = filter (concerns ?sid) (events r2)"
    using t tk by (simp_all add: tick_op_def report_of_def)
  have n1: "n = consecutive_timeouts sv1 ?sid" using assms(7) t(1) by (simp add: consecutive_timeouts_def)
  obtain es where es: "events r2 = events r1 @ es" "\<forall>e \<in> set es. event_server e = Some (server_ref_of server)"
    using supervise_other(6) [OF st] by blast
  then have fe: "filter (concerns ?sid) (events r2) = es"
    using t(3) by (simp add: filter_id_conv concerns_def server_ref_of_def)
  from timed_out_turn [OF st inv1 assms(4) up1, of d n] assms(6) t(2) n1
  have "if unat n < 2
    then pool_connected p ?sid w2 \<and> timeouts sv2 ?sid = Some (n + 1) \<and>
      events r2 = events r1 @ [ProbeTimedOut (server_ref_of server) d (n + 1) 3]
    else timeouts sv2 ?sid = None \<and>
      (\<exists>es. events r2 = events r1 @ TransportDropped (server_ref_of server) (TimedOut d) 3 # es \<and>
        length es \<le> 1 \<and> (pool_connected p ?sid w2 \<longrightarrow> es \<noteq> []))" by simp
  then show ?thesis
    using es(1) fe tk' up2 tk by (auto simp: consecutive_timeouts_def split: if_splits)
qed

lemma turn_reports_membership:
  assumes "supervise p now (sv, w, r) server = (sv', w', r')" "enabled server"
  shows "\<exists>es. events r' = events r @ es \<and>
    (pool_connected p (server_id server) w' \<longleftrightarrow> es \<noteq> [] \<and> up_event (last es))"
proof -
  let ?sid = "server_id server"
  have dial: "\<exists>es. events r1 = events r0 @ es \<and>
      (pool_connected p ?sid w1 \<longleftrightarrow> es \<noteq> [] \<and> up_event (last es))"
    if di: "dial_if_due p now server (sv0, w0, r0) = (sv1, w1, r1)" and down: "\<not> pool_connected p ?sid w0"
    for sv0 w0 r0 sv1 w1 r1
  proof -
    have "attempt_connect p server now sv2 w0 = (sv1, w1, e) \<Longrightarrow>
        pool_connected p ?sid w1 \<longleftrightarrow> up_event e" for sv2 e
      using connect_ok [of "sup_identity sv2" server w0] connect_err [of "sup_identity sv2" server w0] down
      by (auto simp: attempt_connect_def Let_def split: prod.splits sum.splits if_splits)
    with di down show ?thesis
      by (auto simp: dial_if_due_def Let_def report_push_def split: prod.splits if_splits)
  qed
  show ?thesis
  proof (cases "pool_connected p ?sid w")
    case False
    with dial [OF _ False] assms show ?thesis by (simp add: supervise_unfold)
  next
    case True
    obtain sv1 w1 v e where jp: "judge_probe p server sv w = (sv1, w1, v, e)"
      by (cases "judge_probe p server sv w") auto
    have up: "pool_connected p ?sid w1 \<longleftrightarrow> v = Keep" and ev: "up_event e \<longleftrightarrow> v = Keep"
      using jp True probe_keeps [of ?sid ?sid "probe_timeout (sup_config sv)" w]
      by (auto simp: judge_probe_def judge_timeout_def Let_def disconnect_only
          split: prod.splits probe_outcome.splits if_splits)
    show ?thesis
    proof (cases "v = Keep")
      case keep: True
      with assms True jp up ev show ?thesis
        by (auto simp: supervise_unfold report_push_def)
    next
      case False
      with assms True jp have "dial_if_due p now server (sv1, w1, report_push e r) = (sv', w', r')"
        by (simp add: supervise_unfold)
      from dial [OF this] up False obtain es where es:
        "events r' = events (report_push e r) @ es"
        "pool_connected p ?sid w' \<longleftrightarrow> es \<noteq> [] \<and> up_event (last es)" by auto
      then show ?thesis using ev False by (auto simp: report_push_def)
    qed
  qed
qed

text \<open>What a cycle reported of a server last is whether it left the server connected.\<close>

lemma report_tells_membership:
  assumes "pool_list p w = Inr (before @ server # others)"
    and "\<forall>s \<in> set before \<union> set others. server_id s \<noteq> server_id server" "enabled server"
  shows "let (sv', w', r') = tick p now sv w; es = filter (concerns (server_id server)) (events r')
    in (pool_connected p (server_id server) w' \<longleftrightarrow> es \<noteq> [] \<and> up_event (last es)) \<and> length es \<le> 2"
proof (rule tick_split [OF assms(1,2), where sv = sv and now = now])
  fix sv1 w1 r1 sv2 w2 r2
  let ?sid = "server_id server"
  assume st: "supervise p now (sv1, w1, r1) server = (sv2, w2, r2)"
    and t: "filter (concerns ?sid) (events r1) = []"
      "filter (concerns ?sid) (report_of sv (p, now, w)) = filter (concerns ?sid) (events r2)"
    and f2: "foldl (supervise p now) (sv2, w2, r2) others = tick p now sv w"
  obtain sv' w' r' where tk: "tick p now sv w = (sv', w', r')" by (cases "tick p now sv w") auto
  have "pool_connected p ?sid w' = pool_connected p ?sid w2"
    using foldl_connected_other [OF f2 [unfolded tk], of ?sid] assms(2) by simp
  moreover obtain es where es: "events r2 = events r1 @ es" "length es \<le> 2"
      "\<forall>e \<in> set es. event_server e = Some (server_ref_of server)"
    using supervise_other(6) [OF st] by blast
  moreover from this have "filter (concerns ?sid) (events r2) = es"
    using t(1) by (simp add: filter_id_conv concerns_def server_ref_of_def)
  moreover have "pool_connected p ?sid w2 \<longleftrightarrow> es \<noteq> [] \<and> up_event (last es)"
    using turn_reports_membership [OF st assms(3)] es(1) by auto
  ultimately show ?thesis using t(2) tk by (simp add: report_of_def)
qed

end

end
