(* ===== verification/Connections.thy ===== *)
theory Connections
  imports Supervisor
begin

text \<open>
  \<open>crates/tinymcp/src/registry/connections\<close>: what is connected, why anything is not, and what
  is sent when dialling. The transports, the store and the network are reached through an
  environment (\<open>env\<close>): one function per call the code makes, on an outside world of any type.
  The pool the supervisor drives is built from these operations, and the locale \<open>conn_pool\<close>
  is interpreted on it.
\<close>

section \<open>What to dial, and with which credentials\<close>

datatype auth_config =
    NoAuth
  | BearerToken string
  | Basic string string
  | Header string string
  | Headers "(string \<times> string) list"
  | QueryParam string string

definition internal_key_prefix :: string where "internal_key_prefix = ''__''"

definition is_internal_key :: "string \<Rightarrow> bool" where
  "is_internal_key name = starts_with internal_key_prefix name"

definition build_http_auth :: "(string, string) btree \<Rightarrow> auth_config" where
  "build_http_auth stored =
     (let headers = filter (\<lambda>(name, value).
                       \<not> starts_with internal_key_prefix name \<and> trim value \<noteq> []) stored
      in case headers of
           [] \<Rightarrow> NoAuth
         | [(name, value)] \<Rightarrow> Header name value
         | _ \<Rightarrow> Headers headers)"

text \<open>What a parsed URL exposes of itself; the parser is the \<open>url\<close> crate's.\<close>

record url =
  url_scheme :: string
  url_host :: "string option"
  url_port :: "nat option"

definition credential_safe_dial_url :: "(string \<Rightarrow> url option) \<Rightarrow> string \<Rightarrow> string \<Rightarrow> string" where
  "credential_safe_dial_url parse original resolved =
     (case (parse original, parse resolved) of
        (Some from_url, Some to_url) \<Rightarrow>
          (let same_origin = url_scheme from_url = url_scheme to_url \<and>
                 url_host from_url = url_host to_url \<and> url_port from_url = url_port to_url
           in if same_origin \<or> url_scheme to_url = ''https'' then resolved else original)
      | _ \<Rightarrow> original)"

section \<open>Status\<close>

record connect_failure =
  failure_message :: string
  failure_auth :: "auth_hint option"

definition connect_failure_new :: "error \<Rightarrow> bool \<Rightarrow> connect_failure" where
  "connect_failure_new err has_credential =
     \<lparr>failure_message = error_text err,
      failure_auth = (if is_unauthorized err
        then Some (classify_hint (advertises_oauth err) has_credential) else None)\<rparr>"

definition classify_status :: "bool \<Rightarrow> u32 option \<Rightarrow> connect_failure option \<Rightarrow>
    server_status \<times> u32 \<times> string option \<times> auth_hint option" where
  "classify_status on connected_tools failure =
     (if \<not> on then (Disabled, 0, None, None)
      else case connected_tools of
        Some count \<Rightarrow> (Connected, count, None, None)
      | None \<Rightarrow> (case failure of
          None \<Rightarrow> (Disconnected, 0, None, None)
        | Some f \<Rightarrow> (case failure_auth f of
            Some hint \<Rightarrow> (StatusUnauthorized, 0, None, Some hint)
          | None \<Rightarrow> (StatusError, 0, Some (failure_message f), None))))"

section \<open>The environment\<close>

record remote_tool =
  rt_name :: string
  rt_title :: "string option"
  rt_description :: "string option"
  rt_input_schema :: json
  rt_meta :: "json option"
  rt_annotations :: "json option"

text \<open>What a liveness probe's listing came to within its window.\<close>

datatype listing = Listed duration | ListFailed error duration | ListLate

record ('c, 'n, 'i) env =
  env_list_servers :: "'n \<Rightarrow> error + installed_server list"
  env_get_server :: "string \<Rightarrow> 'n \<Rightarrow> error + installed_server"
  env_load_env :: "string \<Rightarrow> 'n \<Rightarrow> error + (string, string) btree"
  env_is_catalog :: "string \<Rightarrow> 'n \<Rightarrow> error + bool"
  env_validate :: "string \<Rightarrow> string list \<Rightarrow> error + unit"
  env_touch :: "string \<Rightarrow> 'n \<Rightarrow> 'n"
  env_put_tools :: "installed_server \<Rightarrow> mcp_tool list \<Rightarrow> 'n \<Rightarrow> 'n"
  env_refresh :: "string \<Rightarrow> 'n \<Rightarrow> 'n"
  env_parse_url :: "string \<Rightarrow> url option"
  env_guard :: "string \<Rightarrow> 'n \<Rightarrow> 'n \<times> (error + string list)"
  env_resolve :: "string \<Rightarrow> 'n \<Rightarrow> 'n \<times> string option"
  env_spawn :: "'i \<Rightarrow> string \<Rightarrow> string list \<Rightarrow> (string \<times> string) list \<Rightarrow> 'n \<Rightarrow> 'n \<times> (error + 'c)"
  env_http :: "'i \<Rightarrow> string \<Rightarrow> auth_config \<Rightarrow> string list option \<Rightarrow> 'n \<Rightarrow> 'n \<times> (error + 'c)"
  env_list_tools :: "'c \<Rightarrow> 'n \<Rightarrow> 'n \<times> (error + remote_tool list)"
  env_timed_list :: "'c \<Rightarrow> duration \<Rightarrow> 'n \<Rightarrow> 'n \<times> listing"
  env_instructions :: "'c \<Rightarrow> 'n \<Rightarrow> 'n \<times> string option"
  env_call_tool :: "'c \<Rightarrow> string \<Rightarrow> json \<Rightarrow> 'n \<Rightarrow> 'n \<times> (error + json)"
  env_close :: "'c \<Rightarrow> 'n \<Rightarrow> 'n"

section \<open>State\<close>

record 'c connection =
  conn_client :: 'c
  conn_tools :: "mcp_tool list"
  conn_tool_meta :: "string \<rightharpoonup> json"
  conn_qualified_name :: string
  conn_display_name :: string
  conn_description :: "string option"
  conn_instructions :: "string option"

record ('c, 'n) connections =
  live :: "string \<rightharpoonup> 'c connection"
  conn_failures :: "string \<rightharpoonup> connect_failure"
  outside :: 'n

definition connections_new :: "'n \<Rightarrow> ('c, 'n) connections" where
  "connections_new n = \<lparr>live = Map.empty, conn_failures = Map.empty, outside = n\<rparr>"

text \<open>A call that acts on the outside world only.\<close>

definition outer :: "('n \<Rightarrow> 'n \<times> 'a) \<Rightarrow> ('c, 'n) connections \<Rightarrow> ('c, 'n) connections \<times> 'a" where
  "outer f s = (case f (outside s) of (n, a) \<Rightarrow> (s\<lparr>outside := n\<rparr>, a))"

section \<open>Dialling\<close>

definition dial_stdio :: "('c, 'n, 'i) env \<Rightarrow> 'i \<Rightarrow> installed_server \<Rightarrow> 'n \<Rightarrow> 'n \<times> (error + 'c)" where
  "dial_stdio E identity server n =
     (case env_is_catalog E (server_id server) n of
        Inl err \<Rightarrow> (n, Inl err)
      | Inr catalog \<Rightarrow>
          (case (if catalog then env_validate E (launch_command server) (launch_args server) else Inr ()) of
             Inl err \<Rightarrow> (n, Inl err)
           | Inr _ \<Rightarrow>
               let vars = filter (\<lambda>(name, _). \<not> is_internal_key name)
                            (case env_load_env E (server_id server) n of Inl _ \<Rightarrow> [] | Inr m \<Rightarrow> m)
               in env_spawn E identity (launch_command server) (launch_args server) vars n))"

definition dial_remote :: "('c, 'n, 'i) env \<Rightarrow> 'i \<Rightarrow> installed_server \<Rightarrow> string \<Rightarrow> 'n \<Rightarrow> 'n \<times> (error + 'c)" where
  "dial_remote E identity server addr n =
     (if addr = [] then
        (n, Inl (MalformedResponse (''the http-remote install `'' @ server_id server @ ''` has no endpoint'')))
      else
        let n = env_refresh E (server_id server) n;
            auth = build_http_auth
              (case env_load_env E (server_id server) n of Inl _ \<Rightarrow> [] | Inr m \<Rightarrow> m);
            is_https = (case env_parse_url E addr of None \<Rightarrow> False | Some u \<Rightarrow> url_scheme u = ''https'')
        in if is_https then
             (case env_guard E addr n of
                (n, Inl err) \<Rightarrow> (n, Inl err)
              | (n, Inr pinned) \<Rightarrow> env_http E identity addr auth (Some pinned) n)
           else
             (case env_resolve E addr n of (n, found) \<Rightarrow>
                let resolved = (case found of None \<Rightarrow> addr | Some r \<Rightarrow> r);
                    dial_url = credential_safe_dial_url (env_parse_url E) addr resolved
                in env_http E identity dial_url auth None n))"

definition mcp_tool_of :: "remote_tool \<Rightarrow> mcp_tool" where
  "mcp_tool_of t = \<lparr>tool_name = rt_name t, tool_description = rt_description t,
     input_schema = rt_input_schema t, tool_meta = rt_meta t\<rparr>"

text \<open>\<open>collect\<close> into a \<open>HashMap\<close>: of two tools of one name the later one stays.\<close>

definition tool_metas_of :: "remote_tool list \<Rightarrow> string \<rightharpoonup> json" where
  "tool_metas_of ts =
     map_of (rev (List.map_filter (\<lambda>t. map_option (Pair (rt_name t)) (rt_meta t)) ts))"

definition connect_inner :: "('c, 'n, 'i) env \<Rightarrow> 'i \<Rightarrow> installed_server \<Rightarrow> ('c, 'n) connections \<Rightarrow>
    ('c, 'n) connections \<times> (error + mcp_tool list)" where
  "connect_inner E identity server s =
     (case outer (case dial server of
                    Stdio \<Rightarrow> dial_stdio E identity server
                  | HttpRemote addr \<Rightarrow> dial_remote E identity server addr) s of
        (s, Inl err) \<Rightarrow> (s, Inl err)
      | (s, Inr client) \<Rightarrow>
          (case outer (env_list_tools E client) s of
             (s, Inl err) \<Rightarrow> (s, Inl err)
           | (s, Inr remote) \<Rightarrow>
               let tools = map mcp_tool_of remote;
                   (s, instructions) = outer (env_instructions E client) s;
                   connection = \<lparr>conn_client = client, conn_tools = tools,
                     conn_tool_meta = tool_metas_of remote,
                     conn_qualified_name = qualified_name server,
                     conn_display_name = display_name server,
                     conn_description = description server,
                     conn_instructions = instructions\<rparr>;
                   s = s\<lparr>live := (live s)(server_id server \<mapsto> connection)\<rparr>;
                   s = s\<lparr>outside := env_touch E (server_id server) (outside s)\<rparr>;
                   s = s\<lparr>outside := env_put_tools E server tools (outside s)\<rparr>
               in (s, Inr tools)))"

definition disconnect :: "('c, 'n, 'i) env \<Rightarrow> string \<Rightarrow> ('c, 'n) connections \<Rightarrow> ('c, 'n) connections \<times> bool" where
  "disconnect E sid s =
     (let connection = live s sid;
          s = s\<lparr>live := (live s)(sid := None), conn_failures := (conn_failures s)(sid := None)\<rparr>
      in case connection of
           None \<Rightarrow> (s, False)
         | Some c \<Rightarrow> (s\<lparr>outside := env_close E (conn_client c) (outside s)\<rparr>, True))"

definition connect :: "('c, 'n, 'i) env \<Rightarrow> 'i \<Rightarrow> installed_server \<Rightarrow> ('c, 'n) connections \<Rightarrow>
    ('c, 'n) connections \<times> (error + mcp_tool list)" where
  "connect E identity server s =
     (let sid = server_id server;
          (s, outcome) = connect_inner E identity server s;
          (s, outcome) =
            (case outcome of
               Inl err \<Rightarrow> (s, Inl err)
             | Inr tools \<Rightarrow> (case env_get_server E sid (outside s) of
                 Inr current \<Rightarrow>
                   if enabled current then (s, Inr tools)
                   else (fst (disconnect E sid s), Inl (ServerDisabled sid))
               | Inl err \<Rightarrow> (fst (disconnect E sid s), Inl err)))
      in case outcome of
           Inr _ \<Rightarrow> (s\<lparr>conn_failures := (conn_failures s)(sid := None)\<rparr>, outcome)
         | Inl err \<Rightarrow>
             let has_credential = (case env_load_env E sid (outside s) of
                   Inl _ \<Rightarrow> False | Inr m \<Rightarrow> build_http_auth m \<noteq> NoAuth)
             in (s\<lparr>conn_failures := (conn_failures s)(sid \<mapsto> connect_failure_new err has_credential)\<rparr>,
                 outcome))"

section \<open>Asking\<close>

definition is_connected :: "('c, 'n) connections \<Rightarrow> string \<Rightarrow> bool" where
  "is_connected s sid = (live s sid \<noteq> None)"

definition probe_alive :: "('c, 'n, 'i) env \<Rightarrow> string \<Rightarrow> duration \<Rightarrow> ('c, 'n) connections \<Rightarrow>
    ('c, 'n) connections \<times> probe_outcome" where
  "probe_alive E sid timeout s =
     (case live s sid of
        None \<Rightarrow> (s, Missing)
      | Some c \<Rightarrow>
          (case outer (env_timed_list E (conn_client c) timeout) s of
             (s, Listed elapsed) \<Rightarrow> (s, Alive elapsed)
           | (s, ListFailed err elapsed) \<Rightarrow> (s, Broken (error_text err) elapsed)
           | (s, ListLate) \<Rightarrow> (s, TimedOut timeout)))"

text \<open>The map is drained in its own order, an argument here.\<close>

definition disconnect_all :: "('c, 'n, 'i) env \<Rightarrow> string list \<Rightarrow> ('c, 'n) connections \<Rightarrow> ('c, 'n) connections" where
  "disconnect_all E order s =
     (let drained = List.map_filter (live s) order
      in s\<lparr>live := Map.empty,
           outside := foldl (\<lambda>n c. env_close E (conn_client c) n) (outside s) drained\<rparr>)"

definition require :: "('c, 'n) connections \<Rightarrow> string \<Rightarrow> error + 'c connection" where
  "require s sid = ok_or (NotConnected sid) (live s sid)"

definition call_tool :: "('c, 'n, 'i) env \<Rightarrow> string \<Rightarrow> string \<Rightarrow> json \<Rightarrow> ('c, 'n) connections \<Rightarrow>
    ('c, 'n) connections \<times> (error + json)" where
  "call_tool E sid tool arguments s =
     (case live s sid of
        None \<Rightarrow> (s, Inl (NotConnected sid))
      | Some c \<Rightarrow> outer (env_call_tool E (conn_client c) tool arguments) s)"

definition tool_count32 :: "nat \<Rightarrow> u32" where
  "tool_count32 n = (if n < 2 ^ 32 then word_of_nat n else - 1)"

definition all_status :: "('c, 'n, 'i) env \<Rightarrow> ('c, 'n) connections \<Rightarrow> error + conn_status list" where
  "all_status E s = rbind (env_list_servers E (outside s)) (\<lambda>installed.
     Inr (map (\<lambda>server.
       let (status, count, last, hint) =
             classify_status (enabled server)
               (map_option (\<lambda>c. tool_count32 (length (conn_tools c))) (live s (server_id server)))
               (conn_failures s (server_id server))
       in \<lparr>st_server_id = server_id server, st_qualified_name = qualified_name server,
           st_display_name = display_name server, st_status = status, st_tool_count = count,
           st_last_error = last, st_auth_hint = hint\<rparr>) installed))"

definition tools_for :: "('c, 'n) connections \<Rightarrow> string \<Rightarrow> mcp_tool list option" where
  "tools_for s sid = map_option conn_tools (live s sid)"

definition tool_meta_of :: "('c, 'n) connections \<Rightarrow> string \<Rightarrow> string \<Rightarrow> json option" where
  "tool_meta_of s sid tool = Option.bind (live s sid) (\<lambda>c. conn_tool_meta c tool)"

text \<open>The snapshot of the map comes in its own order (\<open>order\<close>); the sort is stable.\<close>

definition connected_overview :: "string list \<Rightarrow> ('c, 'n) connections \<Rightarrow> connected_overview list" where
  "connected_overview order s = sort_key ov_qualified_name
     (List.map_filter (\<lambda>sid. map_option (\<lambda>c.
        \<lparr>ov_server_id = sid, ov_qualified_name = conn_qualified_name c,
         ov_display_name = conn_display_name c, ov_description = conn_description c,
         ov_instructions = conn_instructions c, ov_tools = conn_tools c\<rparr>) (live s sid)) order)"

definition all_connected_tools :: "string list \<Rightarrow> ('c, 'n) connections \<Rightarrow> (string \<times> string \<times> mcp_tool) list" where
  "all_connected_tools order s = concat (map (\<lambda>overview.
     map (\<lambda>tool. (ov_server_id overview, ov_qualified_name overview, tool)) (ov_tools overview))
     (connected_overview order s))"

definition last_error :: "('c, 'n) connections \<Rightarrow> string \<Rightarrow> string option" where
  "last_error s sid = map_option failure_message (conn_failures s sid)"

definition auth_hint_of :: "('c, 'n) connections \<Rightarrow> string \<Rightarrow> auth_hint option" where
  "auth_hint_of s sid = Option.bind (conn_failures s sid) failure_auth"

definition needs_auth :: "('c, 'n) connections \<Rightarrow> string \<Rightarrow> bool" where
  "needs_auth s sid = (auth_hint_of s sid \<noteq> None)"

definition clear_last_error :: "string \<Rightarrow> ('c, 'n) connections \<Rightarrow> ('c, 'n) connections" where
  "clear_last_error sid s = s\<lparr>conn_failures := (conn_failures s)(sid := None)\<rparr>"

definition connected_count :: "('c, 'n) connections \<Rightarrow> nat" where
  "connected_count s = card (dom (live s))"

section \<open>Credentials\<close>

lemma outer_live [simp]:
  "live (fst (outer f s)) = live s" "conn_failures (fst (outer f s)) = conn_failures s"
  by (simp_all add: outer_def split: prod.split)

text \<open>The environment with the internal keys taken out of every stored credential.\<close>

definition without_internal :: "('c, 'n, 'i) env \<Rightarrow> ('c, 'n, 'i) env" where
  "without_internal E = E\<lparr>env_load_env := \<lambda>sid n. map_sum id
     (filter (\<lambda>(name, _). \<not> is_internal_key name)) (env_load_env E sid n)\<rparr>"

lemma build_http_auth_internal:
  "build_http_auth (filter (\<lambda>(name, _). \<not> is_internal_key name) m) = build_http_auth m"
proof -
  have "filter (\<lambda>(name, value). \<not> starts_with internal_key_prefix name \<and> trim value \<noteq> [])
      (filter (\<lambda>(name, _). \<not> is_internal_key name) m) =
    filter (\<lambda>(name, value). \<not> starts_with internal_key_prefix name \<and> trim value \<noteq> []) m"
    by (auto simp: is_internal_key_def intro!: filter_cong)
  then show ?thesis by (simp add: build_http_auth_def)
qed

lemma without_internal_simps [simp]:
  "env_list_servers (without_internal E) = env_list_servers E"
  "env_get_server (without_internal E) = env_get_server E"
  "env_is_catalog (without_internal E) = env_is_catalog E"
  "env_validate (without_internal E) = env_validate E"
  "env_touch (without_internal E) = env_touch E"
  "env_put_tools (without_internal E) = env_put_tools E"
  "env_refresh (without_internal E) = env_refresh E"
  "env_parse_url (without_internal E) = env_parse_url E"
  "env_guard (without_internal E) = env_guard E"
  "env_resolve (without_internal E) = env_resolve E"
  "env_spawn (without_internal E) = env_spawn E"
  "env_http (without_internal E) = env_http E"
  "env_list_tools (without_internal E) = env_list_tools E"
  "env_timed_list (without_internal E) = env_timed_list E"
  "env_instructions (without_internal E) = env_instructions E"
  "env_close (without_internal E) = env_close E"
  by (simp_all add: without_internal_def)

lemma load_env_internal:
  "build_http_auth (case env_load_env (without_internal E) sid n of Inl _ \<Rightarrow> [] | Inr m \<Rightarrow> m) =
   build_http_auth (case env_load_env E sid n of Inl _ \<Rightarrow> [] | Inr m \<Rightarrow> m)"
  "(case env_load_env (without_internal E) sid n of Inl _ \<Rightarrow> False | Inr m \<Rightarrow> build_http_auth m \<noteq> NoAuth) =
   (case env_load_env E sid n of Inl _ \<Rightarrow> False | Inr m \<Rightarrow> build_http_auth m \<noteq> NoAuth)"
  "filter (\<lambda>(name, _). \<not> is_internal_key name)
     (case env_load_env (without_internal E) sid n of Inl _ \<Rightarrow> [] | Inr m \<Rightarrow> m) =
   filter (\<lambda>(name, _). \<not> is_internal_key name)
     (case env_load_env E sid n of Inl _ \<Rightarrow> [] | Inr m \<Rightarrow> m)"
  by (simp_all add: without_internal_def build_http_auth_internal split: sum.splits)

lemma dial_internal:
  "dial_stdio (without_internal E) i server n = dial_stdio E i server n"
  "dial_remote (without_internal E) i server addr n = dial_remote E i server addr n"
  by (simp_all only: dial_stdio_def dial_remote_def without_internal_simps load_env_internal Let_def)

lemma disconnect_internal: "disconnect (without_internal E) sid s = disconnect E sid s"
  by (simp add: disconnect_def Let_def split: option.split)



text \<open>
  What is sent as credentials over HTTP: every stored value that is neither internal nor
  blank, in key order, and nothing else.
\<close>

fun headers_of :: "auth_config \<Rightarrow> (string \<times> string) list" where
  "headers_of (Header name value) = [(name, value)]"
| "headers_of (Headers hs) = hs"
| "headers_of _ = []"

lemma headers_of_build:
  "headers_of (build_http_auth m) =
     filter (\<lambda>(name, value). \<not> is_internal_key name \<and> trim value \<noteq> []) m"
  by (auto simp: build_http_auth_def is_internal_key_def Let_def split: list.splits)

section \<open>Connecting\<close>

lemma connect_inner_props:
  assumes "connect_inner E identity server s = (s', outcome)"
  shows "sid \<noteq> server_id server \<Longrightarrow> live s' sid = live s sid"
    "conn_failures s' = conn_failures s"
    "outcome = Inr tools \<Longrightarrow> \<exists>c. live s' (server_id server) = Some c \<and> conn_tools c = tools"
    "outcome = Inl err \<Longrightarrow> live s' = live s"
proof -
  have *: "outer f s1 = (s2, x) \<Longrightarrow> live s2 = live s1 \<and> conn_failures s2 = conn_failures s1"
    for f :: "'b \<Rightarrow> 'b \<times> 'x" and s1 :: "('a, 'b) connections" and s2 x
    using outer_live [of f s1] by simp
  show "sid \<noteq> server_id server \<Longrightarrow> live s' sid = live s sid"
    "conn_failures s' = conn_failures s"
    "outcome = Inr tools \<Longrightarrow> \<exists>c. live s' (server_id server) = Some c \<and> conn_tools c = tools"
    "outcome = Inl err \<Longrightarrow> live s' = live s"
    using assms
    by (auto simp: connect_inner_def Let_def split: prod.splits sum.splits dest!: *)
qed

lemma disconnect_props [simp]:
  "live (fst (disconnect E sid s)) = (live s)(sid := None)"
  "conn_failures (fst (disconnect E sid s)) = (conn_failures s)(sid := None)"
  "snd (disconnect E sid s) = (live s sid \<noteq> None)"
  by (simp_all add: disconnect_def Let_def split: option.split)

lemma connect_effects:
  assumes "connect E identity server s = (s', outcome)"
  shows "(case outcome of
      Inr tools \<Rightarrow> is_connected s' (server_id server) \<and> tools_for s' (server_id server) = Some tools \<and>
        last_error s' (server_id server) = None \<and>
        (\<exists>current. env_get_server E (server_id server) (outside s') = Inr current \<and> enabled current)
    | Inl err \<Rightarrow> last_error s' (server_id server) = Some (error_text err) \<and>
        (needs_auth s' (server_id server) \<longleftrightarrow> is_unauthorized err) \<and>
        (auth_hint_of s' (server_id server) = Some OauthRequired \<longleftrightarrow> advertises_oauth err) \<and>
        (is_connected s' (server_id server) \<longrightarrow> live s' (server_id server) = live s (server_id server))) \<and>
    (\<forall>other. other \<noteq> server_id server \<longrightarrow>
       live s' other = live s other \<and> conn_failures s' other = conn_failures s other)"
proof -
  let ?sid = "server_id server"
  obtain s1 o1 where inner: "connect_inner E identity server s = (s1, o1)"
    by (cases "connect_inner E identity server s") auto
  note ip = connect_inner_props [OF inner]
  have oauth: "is_unauthorized err \<and> classify_hint (advertises_oauth err) c = OauthRequired \<longleftrightarrow>
      advertises_oauth err" for err c
    by (cases err) (auto simp: classify_hint_def advertises_oauth_def is_unauthorized_def split: option.splits)
  have fail: "last_error s' ?sid = Some (error_text err) \<and> (needs_auth s' ?sid \<longleftrightarrow> is_unauthorized err) \<and>
      (auth_hint_of s' ?sid = Some OauthRequired \<longleftrightarrow> advertises_oauth err)"
    if "conn_failures s' ?sid = Some (connect_failure_new err c)" for err c
    using that oauth [of err c]
    by (auto simp: last_error_def needs_auth_def auth_hint_of_def connect_failure_new_def)
  show ?thesis
  proof (cases o1)
    case (Inl err)
    then have s': "outcome = Inl err" "live s' = live s1"
      "\<exists>c. conn_failures s' = (conn_failures s1)(?sid \<mapsto> connect_failure_new err c)"
      using assms inner by (auto simp: connect_def Let_def)
    then show ?thesis using ip(2) ip(4) [OF Inl] fail by (auto simp: is_connected_def)
  next
    case (Inr tools)
    note up = ip(3) [OF Inr]
    show ?thesis
    proof (cases "env_get_server E ?sid (outside s1)")
      case geterr: (Inl err)
      then have s': "outcome = Inl err" "live s' = (live s1)(?sid := None)"
        "\<exists>c. conn_failures s' = ((conn_failures s1)(?sid := None))(?sid \<mapsto> connect_failure_new err c)"
        using assms inner Inr by (auto simp: connect_def Let_def)
      then show ?thesis using ip(1,2) fail by (auto simp: is_connected_def)
    next
      case cur: (Inr current)
      show ?thesis
      proof (cases "enabled current")
        case True
        then have s': "outcome = Inr tools" "s' = s1\<lparr>conn_failures := (conn_failures s1)(?sid := None)\<rparr>"
          using assms inner Inr cur by (auto simp: connect_def Let_def)
        then show ?thesis using up ip(1,2) cur True
          by (auto simp: is_connected_def tools_for_def last_error_def)
      next
        case False
        let ?err = "ServerDisabled ?sid"
        have s': "outcome = Inl ?err" "live s' = (live s1)(?sid := None)"
          "\<exists>c. conn_failures s' = ((conn_failures s1)(?sid := None))(?sid \<mapsto> connect_failure_new ?err c)"
          using False assms inner Inr cur by (auto simp: connect_def Let_def)
        then show ?thesis using ip(1,2) fail by (auto simp: is_connected_def)
      qed
    qed
  qed
qed

text \<open>
  What an attempt leaves behind. A success is a live session with the tools it returned, no
  recorded failure, and a server the store still has enabled: one disabled while it was being
  dialled is disconnected again. A failure is recorded with its rendered text and, exactly for
  a 401, the hint that tells a sign-in from a rejected or a missing credential; it opens no
  session. Every other server is untouched.
\<close>

theorem connect_outcome:
  assumes "connect E identity server s = (s', outcome)"
  shows "(case outcome of
      Inr tools \<Rightarrow> is_connected s' (server_id server) \<and> tools_for s' (server_id server) = Some tools \<and>
        last_error s' (server_id server) = None \<and>
        (\<exists>current. env_get_server E (server_id server) (outside s') = Inr current \<and> enabled current)
    | Inl err \<Rightarrow> last_error s' (server_id server) = Some (error_text err) \<and>
        (needs_auth s' (server_id server) \<longleftrightarrow> is_unauthorized err) \<and>
        (auth_hint_of s' (server_id server) = Some OauthRequired \<longleftrightarrow> advertises_oauth err) \<and>
        (is_connected s' (server_id server) \<longrightarrow> live s' (server_id server) = live s (server_id server))) \<and>
    (\<forall>other. other \<noteq> server_id server \<longrightarrow>
       live s' other = live s other \<and> conn_failures s' other = conn_failures s other)"
  using connect_effects [OF assms] .

text \<open>
  A status read: one row per installed server, in the store's order, and exactly one reason
  each. Disabled wins over connected, connected over a recorded failure; a message is shown
  only for a plain error and a hint only for a 401, so the text of a 401 is never surfaced.
\<close>

theorem all_status_rows:
  assumes "env_list_servers E (outside s) = Inr installed"
  shows "\<exists>rows. all_status E s = Inr rows \<and> list_all2 (\<lambda>server row.
      st_server_id row = server_id server \<and>
      st_status row = (if \<not> enabled server then Disabled
        else if is_connected s (server_id server) then Connected
        else if needs_auth s (server_id server) then StatusUnauthorized
        else if last_error s (server_id server) \<noteq> None then StatusError else Disconnected) \<and>
      st_last_error row = (if st_status row = StatusError then last_error s (server_id server) else None) \<and>
      st_auth_hint row =
        (if st_status row = StatusUnauthorized then auth_hint_of s (server_id server) else None) \<and>
      (st_tool_count row \<noteq> 0 \<longrightarrow> st_status row = Connected)) installed rows"
  using assms
  by (auto simp: all_status_def list_all2_map2 list_all2_same Let_def classify_status_def is_connected_def
      needs_auth_def last_error_def auth_hint_of_def split: option.splits prod.splits)

section \<open>The pool of the supervisor\<close>

definition connection_pool :: "('c, 'n, 'i) env \<Rightarrow> (('c, 'n) connections, 'i) pool" where
  "connection_pool E = \<lparr>pool_list = \<lambda>s. env_list_servers E (outside s),
     pool_connected = \<lambda>sid s. is_connected s sid,
     pool_probe = probe_alive E,
     pool_connect = connect E,
     pool_disconnect = \<lambda>sid s. fst (disconnect E sid s)\<rparr>"

lemma probe_alive_live: "live (fst (probe_alive E sid d s)) = live s"
  by (auto simp: probe_alive_def outer_def split: option.splits prod.splits listing.splits)

interpretation registry_pool: conn_pool "connection_pool E" for E :: "('c, 'n, 'i) env"
proof
  fix x sid :: string and d and s :: "('c, 'n) connections" and server i tools err
  show "pool_connected (connection_pool E) x (fst (pool_probe (connection_pool E) sid d s)) =
      pool_connected (connection_pool E) x s"
    by (simp add: connection_pool_def is_connected_def probe_alive_live)
  show "pool_connected (connection_pool E) x (pool_disconnect (connection_pool E) sid s) =
      (x \<noteq> sid \<and> pool_connected (connection_pool E) x s)"
    by (simp add: connection_pool_def is_connected_def)
  obtain s' out where c: "connect E i server s = (s', out)" by (cases "connect E i server s")
  show "pool_connected (connection_pool E) x (fst (pool_connect (connection_pool E) i server s)) =
      pool_connected (connection_pool E) x s" if "x \<noteq> server_id server"
    using connect_effects [OF c] that by (simp add: connection_pool_def is_connected_def c)
  show "pool_connected (connection_pool E) (server_id server)
      (fst (pool_connect (connection_pool E) i server s))"
    if "snd (pool_connect (connection_pool E) i server s) = Inr tools"
    using connect_effects [OF c] that by (simp add: connection_pool_def is_connected_def c)
  show "\<not> pool_connected (connection_pool E) (server_id server)
      (fst (pool_connect (connection_pool E) i server s))"
    if "snd (pool_connect (connection_pool E) i server s) = Inl err"
      "\<not> pool_connected (connection_pool E) (server_id server) s"
    using connect_effects [OF c] that by (auto simp: connection_pool_def is_connected_def c)
qed

lemma connection_pool_simps [simp]:
  "pool_list (connection_pool E) s = env_list_servers E (outside s)"
  "pool_connected (connection_pool E) sid s = is_connected s sid"
  "pool_probe (connection_pool E) = probe_alive E"
  "pool_connect (connection_pool E) = connect E"
  "pool_disconnect (connection_pool E) sid s = fst (disconnect E sid s)"
  by (simp_all add: connection_pool_def)

text \<open>
  C11. Slow is not gone. While every liveness listing outlasts the probe's window, a connected
  server keeps its session through the first and the second cycle, the streak growing by one
  each time and each cycle reporting just that; the third cycle ends the session, forgets the
  streak and reports the drop with its length, at most one event of a dial follows it, and the
  server is connected afterwards only if that dial was made.
\<close>

theorem slow_probes_end_session_at_three:
  assumes "sup_inv sv" "env_list_servers E (outside s) = Inr (before @ server # others)"
    and "\<forall>x \<in> set before \<union> set others. server_id x \<noteq> server_id server" "enabled server"
    and "is_connected s (server_id server)"
    and "\<forall>c n. snd (env_timed_list E c (probe_timeout (sup_config sv)) n) = ListLate"
    and "n = consecutive_timeouts sv (server_id server)"
  shows "let (sv', s', r') = tick (connection_pool E) now sv s;
      es = filter (concerns (server_id server)) (events r') in
    if unat n < 2
    then is_connected s' (server_id server) \<and> consecutive_timeouts sv' (server_id server) = n + 1 \<and>
      es = [ProbeTimedOut (server_ref_of server) (probe_timeout (sup_config sv)) (n + 1) 3]
    else consecutive_timeouts sv' (server_id server) = 0 \<and>
      (\<exists>rest. es = TransportDropped (server_ref_of server) (TimedOut (probe_timeout (sup_config sv))) 3 # rest \<and>
        length rest \<le> 1 \<and> (is_connected s' (server_id server) \<longrightarrow> rest \<noteq> []))"
proof -
  have "snd (probe_alive E (server_id server) (probe_timeout (sup_config sv)) w) =
      TimedOut (probe_timeout (sup_config sv))" if up: "is_connected w (server_id server)" for w
  proof -
    obtain c where c: "live w (server_id server) = Some c" using up by (auto simp: is_connected_def)
    obtain n' l where "env_timed_list E (conn_client c) (probe_timeout (sup_config sv)) (outside w) = (n', l)"
      by (cases "env_timed_list E (conn_client c) (probe_timeout (sup_config sv)) (outside w)")
    moreover from this have "l = ListLate" using assms(6) by (metis snd_conv)
    ultimately show ?thesis using c by (simp add: probe_alive_def outer_def)
  qed
  then have "let (sv', s', r') = tick (connection_pool E) now sv s;
      es = filter (concerns (server_id server)) (events r') in
    if unat n < 2
    then pool_connected (connection_pool E) (server_id server) s' \<and>
      consecutive_timeouts sv' (server_id server) = n + 1 \<and>
      es = [ProbeTimedOut (server_ref_of server) (probe_timeout (sup_config sv)) (n + 1) 3]
    else consecutive_timeouts sv' (server_id server) = 0 \<and>
      (\<exists>rest. es = TransportDropped (server_ref_of server) (TimedOut (probe_timeout (sup_config sv))) 3 # rest \<and>
        length rest \<le> 1 \<and>
        (pool_connected (connection_pool E) (server_id server) s' \<longrightarrow> rest \<noteq> []))"
    using assms by (intro registry_pool.session_step) simp_all
  then show ?thesis by (simp only: case_prod_beta Let_def connection_pool_simps)
qed

text \<open>
  The report tells the truth about the pool: for every enabled install a cycle listed, the
  server is connected when the cycle ends exactly when the last thing reported of it was an
  answered probe, a tolerated timeout or a reconnect; and at most two things are reported of it.
\<close>

theorem report_matches_connections:
  assumes "env_list_servers E (outside s) = Inr (before @ server # others)"
    and "\<forall>x \<in> set before \<union> set others. server_id x \<noteq> server_id server" "enabled server"
  shows "let (sv', s', r') = tick (connection_pool E) now sv s;
      es = filter (concerns (server_id server)) (events r')
    in (is_connected s' (server_id server) \<longleftrightarrow> es \<noteq> [] \<and> up_event (last es)) \<and> length es \<le> 2"
  using registry_pool.report_tells_membership [of E s before server others now sv] assms by simp

section \<open>Instances\<close>

text \<open>A network whose every call succeeds, except that a listing under a deadline is late when
  \<open>late\<close>; the outside world counts the sessions closed.\<close>

definition sample_env :: "installed_server list \<Rightarrow> (string, string) btree \<Rightarrow> bool \<Rightarrow> error + nat \<Rightarrow> (nat, nat, unit) env" where
  "sample_env servers stored late dialled = \<lparr>
     env_list_servers = \<lambda>n. Inr servers,
     env_get_server = \<lambda>sid n. ok_or (UnknownServer sid) (List.find (\<lambda>s. server_id s = sid) servers),
     env_load_env = \<lambda>sid n. Inr stored,
     env_is_catalog = \<lambda>sid n. Inr False,
     env_validate = \<lambda>c a. Inr (),
     env_touch = \<lambda>sid n. n,
     env_put_tools = \<lambda>s ts n. n,
     env_refresh = \<lambda>sid n. n,
     env_parse_url = \<lambda>u. (case split_once CHR '':'' u of None \<Rightarrow> None
        | Some (sch, rest) \<Rightarrow> Some \<lparr>url_scheme = sch, url_host = Some rest, url_port = None\<rparr>),
     env_guard = \<lambda>u n. (n, Inr [''93.184.216.34'']),
     env_resolve = \<lambda>u n. (n, Some ''http://evil''),
     env_spawn = \<lambda>i c a v n. (n, dialled),
     env_http = \<lambda>i u a p n. (n, dialled),
     env_list_tools = \<lambda>c n. (n, Inr []),
     env_timed_list = \<lambda>c d n. (n, if late then ListLate else Listed 1),
     env_instructions = \<lambda>c n. (n, None),
     env_call_tool = \<lambda>c t a n. (n, Inr JNull),
     env_close = \<lambda>c n. n + 1\<rparr>"

lemmas sample_defs = sample_env_def sample_server_def connections_new_def connect_def connect_inner_def
  dial_stdio_def dial_remote_def outer_def Let_def is_internal_key_def internal_key_prefix_def


theorem connect_outcome_witness:
  "let srv = sample_server ''a'' True;
       E = sample_env [srv\<lparr>enabled := False\<rparr>] [] False (Inr 7);
       (s', outcome) = connect E () srv (connections_new 0)
   in outcome = Inl (ServerDisabled ''a'') \<and> \<not> is_connected s' ''a'' \<and>
      last_error s' ''a'' = Some (error_text (ServerDisabled ''a'')) \<and> outside s' = 1"
proof -
  let ?srv = "sample_server ''a'' True"
  let ?E = "sample_env [?srv\<lparr>enabled := False\<rparr>] [] False (Inr 7)"
  obtain s' out where c: "connect ?E () ?srv (connections_new 0) = (s', out)"
    by (cases "connect ?E () ?srv (connections_new 0 :: (nat, nat) connections)")
  have o: "out = Inl (ServerDisabled ''a'')" "outside s' = 1"
    using c by (auto simp: sample_defs disconnect_def build_http_auth_def)
  from connect_outcome [OF c] o c show ?thesis
    by (cases "live s' ''a''")
      (simp_all add: sample_server_def is_connected_def connections_new_def Let_def del: error_text.simps)
qed

theorem all_status_rows_witness:
  "let srv = sample_server ''a'' True; E = sample_env [srv] [] False (Inr 7)
   in \<exists>row. all_status E (connections_new 0 :: (nat, nat) connections) = Inr [row] \<and>
      st_status row = Disconnected"
  using all_status_rows [of "sample_env [sample_server ''a'' True] [] False (Inr 7)"
      "connections_new 0" "[sample_server ''a'' True]"]
  by (auto simp: list_all2_Cons1 sample_env_def sample_server_def connections_new_def is_connected_def
      needs_auth_def auth_hint_of_def last_error_def Let_def)

definition sample_connected :: "(nat, nat) connections" where
  "sample_connected = (connections_new 0)\<lparr>live := [''a'' \<mapsto> \<lparr>conn_client = 7, conn_tools = [],
     conn_tool_meta = Map.empty, conn_qualified_name = ''@q/a'', conn_display_name = ''a'',
     conn_description = None, conn_instructions = None\<rparr>]\<rparr>"

theorem slow_probes_end_session_at_three_witness:
  "let E = sample_env [sample_server ''a'' True] [] True (Inr 7);
       (sv', s', r') = tick (connection_pool E) 0 (supervisor_new default_config ()) sample_connected
   in is_connected s' ''a'' \<and> consecutive_timeouts sv' ''a'' = 1"
proof -
  let ?E = "sample_env [sample_server ''a'' True] [] True (Inr 7)"
  have "sup_inv (supervisor_new default_config ())" by (rule sup_inv_new)
  from slow_probes_end_session_at_three [of "supervisor_new default_config ()" ?E sample_connected "[]"
      "sample_server ''a'' True" "[]" 0 0, OF this]
  show ?thesis
    by (simp add: sample_env_def sample_server_def sample_connected_def is_connected_def
        consecutive_timeouts_def supervisor_new_def Let_def case_prod_beta)
qed

theorem report_matches_connections_witness:
  "let E = sample_env [sample_server ''a'' True] [] False (Inr 7);
       (sv', s', r') = tick (connection_pool E) 0 (supervisor_new default_config ()) sample_connected
   in is_connected s' ''a'' \<longleftrightarrow> filter (concerns ''a'') (events r') \<noteq> [] \<and>
        up_event (last (filter (concerns ''a'') (events r')))"
  using report_matches_connections [of "sample_env [sample_server ''a'' True] [] False (Inr 7)"
      sample_connected "[]" "sample_server ''a'' True" "[]" 0 "supervisor_new default_config ()"]
  by (simp add: sample_env_def sample_server_def Let_def case_prod_beta)

end
