(* ===== verification/Endpoints.thy ===== *)
theory Endpoints
  imports Connections
begin

text \<open>
  Which endpoints the host may be aimed at, and what is said of one:
  \<open>registry/oauth/endpoint_guard.rs\<close> and \<open>redact_endpoint\<close> of \<open>transport/render.rs\<close>.
  The URL parser, the address parser and the resolver are arguments.
\<close>

unbundle bit_operations_syntax

section \<open>Addresses\<close>

datatype ip = V4 u8 u8 u8 u8 | V6 u16 u16 u16 u16 u16 u16 u16 u16

text \<open>The predicates of \<open>std::net::Ipv4Addr\<close> and \<open>Ipv6Addr\<close> the code uses, as documented.\<close>

definition v4_loopback :: "u8 \<Rightarrow> bool" where "v4_loopback a = (a = 127)"

definition v4_private :: "u8 \<Rightarrow> u8 \<Rightarrow> bool" where
  "v4_private a b = (a = 10 \<or> a = 172 \<and> 16 \<le> b \<and> b \<le> 31 \<or> a = 192 \<and> b = 168)"

definition v4_link_local :: "u8 \<Rightarrow> u8 \<Rightarrow> bool" where "v4_link_local a b = (a = 169 \<and> b = 254)"

definition v4_documentation :: "u8 \<Rightarrow> u8 \<Rightarrow> u8 \<Rightarrow> bool" where
  "v4_documentation a b c =
     (a = 192 \<and> b = 0 \<and> c = 2 \<or> a = 198 \<and> b = 51 \<and> c = 100 \<or> a = 203 \<and> b = 0 \<and> c = 113)"

definition v4_multicast :: "u8 \<Rightarrow> bool" where "v4_multicast a = (224 \<le> a \<and> a \<le> 239)"

definition v4_blocked :: "u8 \<Rightarrow> u8 \<Rightarrow> u8 \<Rightarrow> u8 \<Rightarrow> bool" where
  "v4_blocked a b c d \<longleftrightarrow>
     v4_loopback a \<or> v4_private a b \<or> v4_link_local a b \<or>
     (a = 0 \<and> b = 0 \<and> c = 0 \<and> d = 0) \<or> (a = 255 \<and> b = 255 \<and> c = 255 \<and> d = 255) \<or>
     v4_documentation a b c \<or> v4_multicast a \<or> a = 0 \<or>
     (a = 100 \<and> b AND 0xc0 = 64) \<or> (a = 198 \<and> b AND 0xfe = 18) \<or> 240 \<le> a"

text \<open>\<open>to_ipv4\<close> reads both the IPv4-mapped and the deprecated IPv4-compatible form.\<close>

definition v6_to_v4 :: "u16 \<Rightarrow> u16 \<Rightarrow> u16 \<Rightarrow> u16 \<Rightarrow> u16 \<Rightarrow> u16 \<Rightarrow> u16 \<Rightarrow> u16 \<Rightarrow> (u8 \<times> u8 \<times> u8 \<times> u8) option" where
  "v6_to_v4 a b c d e f g h =
     (if a = 0 \<and> b = 0 \<and> c = 0 \<and> d = 0 \<and> e = 0 \<and> (f = 0 \<or> f = 0xffff)
      then Some (ucast (drop_bit 8 g), ucast g, ucast (drop_bit 8 h), ucast h) else None)"

fun is_blocked_ip :: "ip \<Rightarrow> bool" where
  "is_blocked_ip (V4 a b c d) = v4_blocked a b c d"
| "is_blocked_ip (V6 a b c d e f g h) =
     (case v6_to_v4 a b c d e f g h of
        Some (p, q, r, s) \<Rightarrow> v4_blocked p q r s
      | None \<Rightarrow>
          (a = 0 \<and> b = 0 \<and> c = 0 \<and> d = 0 \<and> e = 0 \<and> f = 0 \<and> g = 0 \<and> h = 1) \<or>
          (a = 0 \<and> b = 0 \<and> c = 0 \<and> d = 0 \<and> e = 0 \<and> f = 0 \<and> g = 0 \<and> h = 0) \<or>
          a AND 0xff00 = 0xff00 \<or> a AND 0xfe00 = 0xfc00 \<or> a AND 0xffc0 = 0xfe80 \<or>
          (a = 0x0064 \<and> b = 0xff9b) \<or> a AND 0xffc0 = 0xfec0)"

section \<open>The guard\<close>

definition refuse :: "string \<Rightarrow> string \<Rightarrow> error" where
  "refuse what why = MalformedResponse (what @ '' endpoint refused: '' @ why)"

definition strip_brackets :: "string \<Rightarrow> string" where
  "strip_brackets host =
     rev (dropWhile (\<lambda>c. c = CHR '']'') (rev (dropWhile (\<lambda>c. c = CHR ''['') host)))"

definition checked_addresses :: "string \<Rightarrow> string + (ip \<times> nat) list \<Rightarrow> error + (ip \<times> nat) list" where
  "checked_addresses what found = (case found of
     Inl err \<Rightarrow> Inl (EndpointResolution what err)
   | Inr addresses \<Rightarrow>
       if addresses = [] then Inl (EndpointResolution what ''the host has no addresses'')
       else Inr addresses)"

record guard_env =
  g_parse_url :: "string \<Rightarrow> string + url"
  g_parse_ip :: "string \<Rightarrow> ip option"
  g_resolve :: "string \<Rightarrow> nat \<Rightarrow> string + (ip \<times> nat) list"

definition guard_endpoint :: "guard_env \<Rightarrow> string \<Rightarrow> string \<Rightarrow> error + (ip \<times> nat) list" where
  "guard_endpoint G raw what =
     (case g_parse_url G raw of
        Inl err \<Rightarrow> Inl (refuse what (''not a valid url: '' @ err))
      | Inr u \<Rightarrow>
          if url_scheme u \<noteq> ''https''
          then Inl (refuse what (''must use https, not `'' @ url_scheme u @ ''`''))
          else
            (case url_host u of
               None \<Rightarrow> Inl (refuse what ''it has no host'')
             | Some bracketed \<Rightarrow>
                 let host = strip_brackets bracketed;
                     port = (case url_port u of None \<Rightarrow> 443 | Some p \<Rightarrow> p)
                 in rbind (case g_parse_ip G host of
                       Some ip \<Rightarrow> Inr [(ip, port)]
                     | None \<Rightarrow> checked_addresses what (g_resolve G host port))
                    (\<lambda>addresses.
                      if list_ex (\<lambda>(ip, _). is_blocked_ip ip) addresses
                      then Inl (refuse what ''it resolves to a disallowed address'')
                      else Inr addresses)))"

section \<open>Redaction\<close>

definition redacted :: string where "redacted = ''<redacted>''"

definition redact_endpoint :: "string \<Rightarrow> string" where
  "redact_endpoint raw =
     (let trimmed = trim raw in
      case (case strip_prefix ''https://'' trimmed of
              Some rest \<Rightarrow> Some (''https'', rest)
            | None \<Rightarrow> (case strip_prefix ''http://'' trimmed of
                Some rest \<Rightarrow> Some (''http'', rest) | None \<Rightarrow> None)) of
        None \<Rightarrow> redacted
      | Some (sch, rest) \<Rightarrow>
          let authority = hd (split_on (\<lambda>c. c \<in> set ''/?#'') rest)
          in if authority = [] \<or> CHR ''@'' \<in> set authority then redacted
             else sch @ ''://'' @ authority)"

section \<open>What the guard lets through\<close>

definition dotted :: "nat \<Rightarrow> nat \<Rightarrow> nat \<Rightarrow> nat \<Rightarrow> nat" where
  "dotted a b c d = a * 16777216 + b * 65536 + c * 256 + d"

text \<open>The blocked IPv4 addresses, as closed ranges of 32-bit numbers.\<close>

definition blocked_ranges :: "(nat \<times> nat) list" where
  "blocked_ranges =
     [(dotted 0 0 0 0, dotted 0 255 255 255),
      (dotted 10 0 0 0, dotted 10 255 255 255),
      (dotted 100 64 0 0, dotted 100 127 255 255),
      (dotted 127 0 0 0, dotted 127 255 255 255),
      (dotted 169 254 0 0, dotted 169 254 255 255),
      (dotted 172 16 0 0, dotted 172 31 255 255),
      (dotted 192 0 2 0, dotted 192 0 2 255),
      (dotted 192 168 0 0, dotted 192 168 255 255),
      (dotted 198 18 0 0, dotted 198 19 255 255),
      (dotted 198 51 100 0, dotted 198 51 100 255),
      (dotted 203 0 113 0, dotted 203 0 113 255),
      (dotted 224 0 0 0, dotted 255 255 255 255)]"

definition in_ranges :: "nat \<Rightarrow> (nat \<times> nat) list \<Rightarrow> bool" where
  "in_ranges n rs = list_ex (\<lambda>(lo, hi). lo \<le> n \<and> n \<le> hi) rs"

lemma range_octets:
  fixes a b c d :: nat
  assumes "a < 256" "b < 256" "c < 256" "d < 256"
  shows range_octet1: "dotted p 0 0 0 \<le> dotted a b c d \<and> dotted a b c d \<le> dotted q 255 255 255 \<longleftrightarrow>
      p \<le> a \<and> a \<le> q"
    and range_octet2: "l < 256 \<Longrightarrow> m < 256 \<Longrightarrow>
      dotted p l 0 0 \<le> dotted a b c d \<and> dotted a b c d \<le> dotted p m 255 255 \<longleftrightarrow> a = p \<and> l \<le> b \<and> b \<le> m"
    and range_octet3: "l < 256 \<Longrightarrow> m < 256 \<Longrightarrow>
      dotted p l m 0 \<le> dotted a b c d \<and> dotted a b c d \<le> dotted p l m 255 \<longleftrightarrow> a = p \<and> b = l \<and> c = m"
proof -
  show "dotted p 0 0 0 \<le> dotted a b c d \<and> dotted a b c d \<le> dotted q 255 255 255 \<longleftrightarrow> p \<le> a \<and> a \<le> q"
    by (insert assms, unfold dotted_def, intro iffI conjI; elim conjE; linarith)
  show "dotted p l 0 0 \<le> dotted a b c d \<and> dotted a b c d \<le> dotted p m 255 255 \<longleftrightarrow> a = p \<and> l \<le> b \<and> b \<le> m"
    if lm: "l < 256" "m < 256"
  proof
    assume n: "dotted p l 0 0 \<le> dotted a b c d \<and> dotted a b c d \<le> dotted p m 255 255"
    then have "a = p" using assms lm unfolding dotted_def by (elim conjE) linarith
    with n show "a = p \<and> l \<le> b \<and> b \<le> m" using assms lm unfolding dotted_def by auto
  qed (insert assms lm, unfold dotted_def, intro conjI; elim conjE; linarith)
  show "dotted p l m 0 \<le> dotted a b c d \<and> dotted a b c d \<le> dotted p l m 255 \<longleftrightarrow> a = p \<and> b = l \<and> c = m"
    if lm: "l < 256" "m < 256"
  proof
    assume n: "dotted p l m 0 \<le> dotted a b c d \<and> dotted a b c d \<le> dotted p l m 255"
    then have ap: "a = p" using assms lm unfolding dotted_def by (elim conjE) linarith
    with n have "b = l" using assms lm unfolding dotted_def by (elim conjE) linarith
    with n ap show "a = p \<and> b = l \<and> c = m" using assms lm unfolding dotted_def by auto
  qed (insert assms lm, unfold dotted_def, intro conjI; elim conjE; linarith)
qed

lemma nat_and_high: "n AND push_bit k (mask j) = push_bit k (take_bit j (drop_bit k n))" for n :: nat
  by (rule bit_eqI) (auto simp: bit_and_iff bit_push_bit_iff bit_mask_iff bit_take_bit_iff bit_drop_bit_eq)

lemma mask_octet:
  fixes b :: u8
  shows "b AND 0xc0 = 64 \<longleftrightarrow> 64 \<le> unat b \<and> unat b \<le> 127"
    and "b AND 0xfe = 18 \<longleftrightarrow> 18 \<le> unat b \<and> unat b \<le> 19"
proof -
  have lt: "unat b < 256" using unsigned_less [of b] by simp
  have "unat b AND 192 = 64 * (unat b div 64 mod 4)"
    using nat_and_high [of "unat b" 6 2]
    by (simp add: push_bit_eq_mult take_bit_eq_mod drop_bit_eq_div mask_eq_exp_minus_1)
  moreover have "unat b AND 254 = 2 * (unat b div 2 mod 128)"
    using nat_and_high [of "unat b" 1 7]
    by (simp add: push_bit_eq_mult take_bit_eq_mod drop_bit_eq_div mask_eq_exp_minus_1)
  moreover have "unat b div 64 < 4" "unat b div 2 < 128" using lt by linarith+
  ultimately have n: "unat b AND 192 = 64 * (unat b div 64)" "unat b AND 254 = 2 * (unat b div 2)"
    by simp_all
  have "b AND 0xc0 = 64 \<longleftrightarrow> unat (b AND 0xc0) = unat (64 :: u8)" by (rule word_unat_eq_iff)
  moreover have "b AND 0xfe = 18 \<longleftrightarrow> unat (b AND 0xfe) = unat (18 :: u8)" by (rule word_unat_eq_iff)
  ultimately have "b AND 0xc0 = 64 \<longleftrightarrow> unat b div 64 = 1" "b AND 0xfe = 18 \<longleftrightarrow> unat b div 2 = 9"
    by (simp_all add: unsigned_and_eq n)
  then show "b AND 0xc0 = 64 \<longleftrightarrow> 64 \<le> unat b \<and> unat b \<le> 127"
    "b AND 0xfe = 18 \<longleftrightarrow> 18 \<le> unat b \<and> unat b \<le> 19"
    by linarith+
qed

definition octet_ranges :: "nat \<Rightarrow> nat \<Rightarrow> nat \<Rightarrow> bool" where
  "octet_ranges A B C \<longleftrightarrow>
     (0 \<le> A \<and> A \<le> 0) \<or> (10 \<le> A \<and> A \<le> 10) \<or> (A = 100 \<and> 64 \<le> B \<and> B \<le> 127) \<or>
     (127 \<le> A \<and> A \<le> 127) \<or> (A = 169 \<and> 254 \<le> B \<and> B \<le> 254) \<or> (A = 172 \<and> 16 \<le> B \<and> B \<le> 31) \<or>
     (A = 192 \<and> B = 0 \<and> C = 2) \<or> (A = 192 \<and> 168 \<le> B \<and> B \<le> 168) \<or>
     (A = 198 \<and> 18 \<le> B \<and> B \<le> 19) \<or> (A = 198 \<and> B = 51 \<and> C = 100) \<or>
     (A = 203 \<and> B = 0 \<and> C = 113) \<or> (224 \<le> A \<and> A \<le> 255)"

lemma in_ranges_simps: "in_ranges n [] = False" "in_ranges n ((lo, hi) # rs) = (lo \<le> n \<and> n \<le> hi \<or> in_ranges n rs)"
  by (simp_all add: in_ranges_def)

lemma in_ranges_octets:
  assumes "a < 256" "b < 256" "c < 256" "d < 256"
  shows "in_ranges (dotted a b c d) blocked_ranges \<longleftrightarrow> octet_ranges a b c"
  by (simp add: in_ranges_simps blocked_ranges_def octet_ranges_def range_octet1 [OF assms]
      range_octet2 [OF assms] range_octet3 [OF assms])

lemma octet_cases:
  fixes A B C D :: nat
  assumes "A < 256"
  shows "A = 127 \<or> (A = 10 \<or> A = 172 \<and> 16 \<le> B \<and> B \<le> 31 \<or> A = 192 \<and> B = 168) \<or>
      (A = 169 \<and> B = 254) \<or>
      (A = 0 \<and> B = 0 \<and> C = 0 \<and> D = 0) \<or>
      (A = 255 \<and> B = 255 \<and> C = 255 \<and> D = 255) \<or>
      (A = 192 \<and> B = 0 \<and> C = 2 \<or> A = 198 \<and> B = 51 \<and> C = 100 \<or>
       A = 203 \<and> B = 0 \<and> C = 113) \<or>
      (224 \<le> A \<and> A \<le> 239) \<or> A = 0 \<or>
      (A = 100 \<and> 64 \<le> B \<and> B \<le> 127) \<or> (A = 198 \<and> 18 \<le> B \<and> B \<le> 19) \<or>
      240 \<le> A \<longleftrightarrow> octet_ranges A B C" (is "?blocked \<longleftrightarrow> _")
proof
  assume ?blocked
  with assms show "octet_ranges A B C" unfolding octet_ranges_def by (elim disjE conjE; simp)
next
  assume "octet_ranges A B C"
  then show ?blocked unfolding octet_ranges_def
    by (cases "240 \<le> A", simp) (elim disjE conjE; simp)
qed

lemma v4_blocked_octets: "v4_blocked a b c d \<longleftrightarrow> octet_ranges (unat a) (unat b) (unat c)"
proof -
  have lt: "unat x < 256" for x :: u8 using unsigned_less [of x] by simp
  have "v4_blocked a b c d \<longleftrightarrow>
      unat a = 127 \<or> (unat a = 10 \<or> unat a = 172 \<and> 16 \<le> unat b \<and> unat b \<le> 31 \<or> unat a = 192 \<and> unat b = 168) \<or>
      (unat a = 169 \<and> unat b = 254) \<or>
      (unat a = 0 \<and> unat b = 0 \<and> unat c = 0 \<and> unat d = 0) \<or>
      (unat a = 255 \<and> unat b = 255 \<and> unat c = 255 \<and> unat d = 255) \<or>
      (unat a = 192 \<and> unat b = 0 \<and> unat c = 2 \<or> unat a = 198 \<and> unat b = 51 \<and> unat c = 100 \<or>
       unat a = 203 \<and> unat b = 0 \<and> unat c = 113) \<or>
      (224 \<le> unat a \<and> unat a \<le> 239) \<or> unat a = 0 \<or>
      (unat a = 100 \<and> 64 \<le> unat b \<and> unat b \<le> 127) \<or> (unat a = 198 \<and> 18 \<le> unat b \<and> unat b \<le> 19) \<or>
      240 \<le> unat a"
    unfolding v4_blocked_def v4_loopback_def v4_private_def v4_link_local_def v4_documentation_def
      v4_multicast_def mask_octet
    by (simp add: word_unat_eq_iff word_le_nat_alt)
  also have "\<dots> \<longleftrightarrow> octet_ranges (unat a) (unat b) (unat c)"
    by (rule octet_cases) (rule lt)
  finally show ?thesis .
qed

lemma v4_blocked_ranges:
  "v4_blocked a b c d \<longleftrightarrow> in_ranges (dotted (unat a) (unat b) (unat c) (unat d)) blocked_ranges"
proof -
  have lt: "unat x < 256" for x :: u8 using unsigned_less [of x] by simp
  show ?thesis by (simp only: v4_blocked_octets in_ranges_octets [OF lt lt lt lt])
qed

text \<open>
  The guard's test of an IPv4 address, written as octet comparisons and bit masks, is
  membership in twelve closed ranges of the 32-bit address space: this network, the private
  ranges, carrier-grade NAT, loopback, link-local with the metadata address, the documentation
  and benchmarking ranges, and everything from multicast up. An IPv6 address that embeds an
  IPv4 one, mapped or compatible, is judged by the address it embeds.
\<close>

theorem blocked_ipv4_ranges:
  "is_blocked_ip (V4 a b c d) =
     in_ranges (dotted (unat a) (unat b) (unat c) (unat d)) blocked_ranges \<and>
   is_blocked_ip (V6 0 0 0 0 0 f g h) =
     (if f = 0 \<or> f = 0xffff
      then is_blocked_ip (V4 (ucast (drop_bit 8 g)) (ucast g) (ucast (drop_bit 8 h)) (ucast h))
      else False)"
  by (simp add: v4_blocked_ranges v6_to_v4_def)

lemma ipv6_documentation_allowed: "\<not> is_blocked_ip (V6 0x2001 0xdb8 0 0 0 0 0 1)"
  by (simp add: v6_to_v4_def)


section \<open>What redaction keeps\<close>

lemma hd_split_on: "hd (split_on p s) = takeWhile (\<lambda>c. \<not> p c) s"
proof (induction s)
  case (Cons x xs)
  obtain y ys where "split_on p xs = y # ys" using split_on_nonempty by (metis list.exhaust)
  with Cons show ?case by auto
qed simp

lemma authority_split:
  obtains tail where "rest = hd (split_on (\<lambda>c. c \<in> S) rest) @ tail"
    "set (hd (split_on (\<lambda>c. c \<in> S) rest)) \<inter> S = {}" "tail = [] \<or> hd tail \<in> S"
proof
  show "rest = hd (split_on (\<lambda>c. c \<in> S) rest) @ dropWhile (\<lambda>c. c \<notin> S) rest"
    by (simp add: hd_split_on)
  show "set (hd (split_on (\<lambda>c. c \<in> S) rest)) \<inter> S = {}"
    by (auto simp: hd_split_on dest: set_takeWhileD)
  show "dropWhile (\<lambda>c. c \<notin> S) rest = [] \<or> hd (dropWhile (\<lambda>c. c \<notin> S) rest) \<in> S"
    using hd_dropWhile [of "\<lambda>c. c \<notin> S" rest] by auto
qed

text \<open>
  A redacted endpoint is a fixed word or a scheme and an authority without user
  information; whatever followed the authority, where servers carry their keys, is gone, so two
  URLs that differ only there, or in the credentials of their authority, read the same.
\<close>

theorem redact_keeps_only_authority:
  "redact_endpoint raw = redacted \<or>
   (\<exists>sch authority rest. sch \<in> {''http'', ''https''} \<and> trim raw = sch @ ''://'' @ authority @ rest \<and>
      redact_endpoint raw = sch @ ''://'' @ authority \<and> authority \<noteq> [] \<and> CHR ''@'' \<notin> set authority \<and>
      set authority \<inter> set ''/?#'' = {} \<and> (rest = [] \<or> hd rest \<in> set ''/?#''))"
proof -
  let ?A = "\<lambda>rest. hd (split_on (\<lambda>c. c \<in> set ''/?#'') rest)"
  have step: ?thesis
    if t: "trim raw = sch @ ''://'' @ rest" and sch: "sch \<in> {''http'', ''https''}"
      and r: "redact_endpoint raw =
        (if ?A rest = [] \<or> CHR ''@'' \<in> set (?A rest) then redacted else sch @ ''://'' @ ?A rest)" for sch rest
  proof (cases "?A rest = [] \<or> CHR ''@'' \<in> set (?A rest)")
    case False
    obtain tail where tail: "rest = ?A rest @ tail" "set (?A rest) \<inter> set ''/?#'' = {}"
        "tail = [] \<or> hd tail \<in> set ''/?#''" by (rule authority_split)
    have "trim raw = sch @ ''://'' @ ?A rest @ tail" using t tail(1) by simp
    moreover have "redact_endpoint raw = sch @ ''://'' @ ?A rest" using False r by simp
    moreover have "?A rest \<noteq> []" "CHR ''@'' \<notin> set (?A rest)" using False by simp_all
    ultimately show ?thesis using sch tail(2,3) by blast
  qed (use r in simp)
  show ?thesis
  proof (cases "strip_prefix ''https://'' (trim raw)")
    case (Some rest)
    then have "trim raw = ''https'' @ ''://'' @ rest" by simp
    moreover have "redact_endpoint raw =
        (if ?A rest = [] \<or> CHR ''@'' \<in> set (?A rest) then redacted else ''https'' @ ''://'' @ ?A rest)"
      by (simp only: redact_endpoint_def Let_def Some option.case prod.case)
    ultimately show ?thesis using step [of "''https''" rest] by simp
  next
    case None
    show ?thesis
    proof (cases "strip_prefix ''http://'' (trim raw)")
      case (Some rest)
      then have "trim raw = ''http'' @ ''://'' @ rest" by simp
      moreover have "redact_endpoint raw =
          (if ?A rest = [] \<or> CHR ''@'' \<in> set (?A rest) then redacted else ''http'' @ ''://'' @ ?A rest)"
        by (simp only: redact_endpoint_def Let_def Some None option.case prod.case)
      ultimately show ?thesis using step [of "''http''" rest] by simp
    qed (simp add: redact_endpoint_def None)
  qed
qed

end
