(* ===== verification/Protocol.thy ===== *)
theory Protocol
  imports Connections
begin

text \<open>
  What both transports share: the protocol versions of \<open>transport/mod.rs\<close>, the payloads of
  \<open>tinymcp-bus/src/transport/types.rs\<close> as they are read off the wire, the resource pages of
  \<open>transport/resources.rs\<close> and the rendering of tool results of \<open>transport/render.rs\<close>. Text that
  serde makes of a value that does not fit is a parameter.
\<close>

section \<open>Versions\<close>

definition latest_protocol_version :: string where "latest_protocol_version = ''2025-11-25''"

definition supported_protocol_versions :: "string list" where
  "supported_protocol_versions = [''2024-11-05'', ''2025-03-26'', ''2025-06-18'', latest_protocol_version]"

definition validate_protocol_version :: "string \<Rightarrow> error + unit" where
  "validate_protocol_version version =
     (if version \<in> set supported_protocol_versions then Inr () else Inl (UnsupportedProtocolVersion version))"

section \<open>Payloads\<close>

definition dec_remote_tool :: "json \<Rightarrow> remote_tool option" where
  "dec_remote_tool j =
     Option.bind (required ''name'' as_str j) (\<lambda>name.
     Option.bind (optional ''title'' as_str j) (\<lambda>title.
     Option.bind (optional ''description'' as_str j) (\<lambda>description.
     Option.bind (defaulted ''inputSchema'' JNull Some j) (\<lambda>schema.
     Option.bind (optional ''_meta'' Some j) (\<lambda>meta.
     Option.bind (optional ''annotations'' Some j) (\<lambda>annotations.
       Some \<lparr>rt_name = name, rt_title = title, rt_description = description, rt_input_schema = schema,
         rt_meta = meta, rt_annotations = annotations\<rparr>))))))"

definition dec_list :: "(json \<Rightarrow> 'a option) \<Rightarrow> json \<Rightarrow> 'a list option" where
  "dec_list dec j = (case as_array j of None \<Rightarrow> None | Some xs \<Rightarrow> all_some (map dec xs))"

definition tool_is_read_only :: "remote_tool \<Rightarrow> bool" where
  "tool_is_read_only t =
     (Option.bind (rt_annotations t) (\<lambda>a. Option.bind (jget ''readOnlyHint'' a) as_bool) = Some True)"

record client_info =
  ci_name :: string
  ci_title :: "string option"
  ci_version :: string

definition enc_client_info :: "client_info \<Rightarrow> json" where
  "enc_client_info i = jobject
     [(''name'', JStr (ci_name i)), (''title'', enc_opt JStr (ci_title i)), (''version'', JStr (ci_version i))]"

record initialize_result =
  ir_protocol_version :: string
  ir_capabilities :: json
  ir_server_info :: json
  ir_instructions :: "string option"

definition dec_initialize_result :: "json \<Rightarrow> initialize_result option" where
  "dec_initialize_result j =
     Option.bind (required ''protocolVersion'' as_str j) (\<lambda>version.
     Option.bind (defaulted ''capabilities'' JNull Some j) (\<lambda>capabilities.
     Option.bind (defaulted ''serverInfo'' JNull Some j) (\<lambda>server_info.
     Option.bind (optional ''instructions'' as_str j) (\<lambda>instructions.
       Some \<lparr>ir_protocol_version = version, ir_capabilities = capabilities,
         ir_server_info = server_info, ir_instructions = instructions\<rparr>))))"

section \<open>Resources\<close>

record mcp_resource =
  re_uri :: string
  re_name :: string
  re_title :: "string option"
  re_description :: "string option"
  re_mime_type :: "string option"
  re_meta :: "json option"

definition dec_resource :: "json \<Rightarrow> mcp_resource option" where
  "dec_resource j =
     Option.bind (required ''uri'' as_str j) (\<lambda>uri.
     Option.bind (defaulted ''name'' [] as_str j) (\<lambda>name.
     Option.bind (optional ''title'' as_str j) (\<lambda>title.
     Option.bind (optional ''description'' as_str j) (\<lambda>description.
     Option.bind (optional ''mimeType'' as_str j) (\<lambda>mime.
     Option.bind (optional ''_meta'' Some j) (\<lambda>meta.
       Some \<lparr>re_uri = uri, re_name = name, re_title = title, re_description = description,
         re_mime_type = mime, re_meta = meta\<rparr>))))))"

record resource_contents =
  rc_uri :: string
  rc_mime_type :: "string option"
  rc_text :: "string option"
  rc_blob :: "string option"
  rc_meta :: "json option"

definition dec_resource_contents :: "json \<Rightarrow> resource_contents option" where
  "dec_resource_contents j =
     Option.bind (required ''uri'' as_str j) (\<lambda>uri.
     Option.bind (optional ''mimeType'' as_str j) (\<lambda>mime.
     Option.bind (optional ''text'' as_str j) (\<lambda>text.
     Option.bind (optional ''blob'' as_str j) (\<lambda>blob.
     Option.bind (optional ''_meta'' Some j) (\<lambda>meta.
       Some \<lparr>rc_uri = uri, rc_mime_type = mime, rc_text = text, rc_blob = blob, rc_meta = meta\<rparr>)))))"

definition opt_len :: "string option \<Rightarrow> nat" where
  "opt_len x = (case x of None \<Rightarrow> 0 | Some s \<Rightarrow> length s)"

definition byte_len :: "resource_contents \<Rightarrow> nat" where
  "byte_len c = opt_len (rc_text c) + opt_len (rc_blob c)"

definition max_resource_bytes :: nat where "max_resource_bytes = 2 * 1024 * 1024"
definition max_resource_pages :: nat where "max_resource_pages = 32"

definition enforce_resource_cap :: "string \<Rightarrow> resource_contents list \<Rightarrow> error + unit" where
  "enforce_resource_cap uri contents =
     (let bytes = sum_list (map byte_len contents)
      in if bytes > max_resource_bytes then Inl (ResourceTooLarge uri bytes max_resource_bytes) else Inr ())"

definition read_list :: "(json \<Rightarrow> string) \<Rightarrow> string \<Rightarrow> (json \<Rightarrow> 'a option) \<Rightarrow> json \<Rightarrow> error + 'a list" where
  "read_list shape what dec j = (case dec_list dec j of
     None \<Rightarrow> Inl (MalformedResponse (what @ '': '' @ shape j)) | Some xs \<Rightarrow> Inr xs)"

definition parse_resource_page :: "(json \<Rightarrow> string) \<Rightarrow> json \<Rightarrow> error + mcp_resource list \<times> string option" where
  "parse_resource_page shape result =
     rbind (ok_or (MalformedResponse ''resources/list reply has no `resources` member'') (jget ''resources'' result))
       (\<lambda>j. rbind (read_list shape ''resources/list entries'' dec_resource j) (\<lambda>resources.
         Inr (resources, Option.bind (jget ''nextCursor'' result) (\<lambda>c.
           Option.bind (as_str c) (\<lambda>cursor. if cursor = [] then None else Some cursor)))))"

definition parse_read_result :: "(json \<Rightarrow> string) \<Rightarrow> string \<Rightarrow> json \<Rightarrow> error + resource_contents list" where
  "parse_read_result shape uri result =
     rbind (ok_or (MalformedResponse ''resources/read reply has no `contents` member'') (jget ''contents'' result))
       (\<lambda>j. rbind (read_list shape ''resources/read contents'' dec_resource_contents j) (\<lambda>contents.
         rbind (enforce_resource_cap uri contents) (\<lambda>_. Inr contents)))"

definition list_params :: "string option \<Rightarrow> json" where
  "list_params cursor = (case cursor of None \<Rightarrow> jobject [] | Some c \<Rightarrow> jobject [(''cursor'', JStr c)])"

section \<open>Tool results\<close>

datatype tool_content = TextContent string | JsonContent json

record tool_result =
  tr_content :: "tool_content list"
  tr_is_error :: bool
  tr_markdown :: "string option"
  tr_structured :: "json option"
  tr_meta :: "json option"
  tr_resources :: "resource_contents list"

definition tool_result_of :: "bool \<Rightarrow> string \<Rightarrow> tool_result" where
  "tool_result_of failed text = \<lparr>tr_content = [TextContent text], tr_is_error = failed,
     tr_markdown = None, tr_structured = None, tr_meta = None, tr_resources = []\<rparr>"

definition not_null :: "json option \<Rightarrow> json option" where
  "not_null x = (if x = Some JNull then None else x)"

definition text_blocks :: "json \<Rightarrow> string list" where
  "text_blocks result = (case Option.bind (jget ''content'' result) as_array of
     None \<Rightarrow> [] | Some blocks \<Rightarrow> List.map_filter (\<lambda>b. Option.bind (jget ''text'' b) as_str) blocks)"

definition push_block :: "string \<Rightarrow> string \<Rightarrow> string" where
  "push_block text block = (if text = [] then block else text @ [CHR 0x0A, CHR 0x0A] @ block)"

definition embedded_resources :: "json \<Rightarrow> resource_contents list" where
  "embedded_resources result = (case Option.bind (jget ''content'' result) as_array of
     None \<Rightarrow> []
   | Some blocks \<Rightarrow>
       filter (\<lambda>r. byte_len r \<le> max_resource_bytes)
         (List.map_filter dec_resource_contents
           (List.map_filter (\<lambda>b. jget ''resource'' b)
             (filter (\<lambda>b. Option.bind (jget ''type'' b) as_str = Some ''resource'') blocks))))"

definition render_tool_result :: "(json \<Rightarrow> string) \<Rightarrow> json \<Rightarrow> tool_result" where
  "render_tool_result print result =
     (let failed = (Option.bind (jget ''isError'' result) as_bool = Some True);
          text = foldl push_block [] (text_blocks result);
          text = (if text = [] then print result else text)
      in (tool_result_of failed text)\<lparr>tr_structured := not_null (jget ''structuredContent'' result),
           tr_meta := not_null (jget ''_meta'' result), tr_resources := embedded_resources result\<rparr>)"

definition result_text :: "tool_result \<Rightarrow> string" where
  "result_text r = join [CHR 0x0A]
     (List.map_filter (\<lambda>b. case b of TextContent t \<Rightarrow> Some t | JsonContent _ \<Rightarrow> None) (tr_content r))"

definition result_output :: "(json \<Rightarrow> string) \<Rightarrow> tool_result \<Rightarrow> string" where
  "result_output pretty r = join [CHR 0x0A]
     (map (\<lambda>b. case b of TextContent t \<Rightarrow> t | JsonContent j \<Rightarrow> pretty j) (tr_content r))"

definition output_for_llm :: "(json \<Rightarrow> string) \<Rightarrow> bool \<Rightarrow> tool_result \<Rightarrow> string" where
  "output_for_llm pretty prefer_markdown r = (case tr_markdown r of
     Some markdown \<Rightarrow> if prefer_markdown \<and> trim markdown \<noteq> [] then markdown else result_output pretty r
   | None \<Rightarrow> result_output pretty r)"

lemma push_block_simps [simp]:
  "push_block [] b = b" "a \<noteq> [] \<Longrightarrow> push_block a b = a @ CHR 0x0A # CHR 0x0A # b"
  by (simp_all add: push_block_def)

lemma foldl_push_block:
  "foldl push_block acc bs = (if acc = [] then foldl push_block [] bs
     else acc @ concat (map (\<lambda>b. [CHR 0x0A, CHR 0x0A] @ b) bs))"
proof (induction bs arbitrary: acc)
  case (Cons b bs)
  show ?case
  proof (cases "acc = []")
    case False
    then show ?thesis using Cons [of "acc @ [CHR 0x0A, CHR 0x0A] @ b"] by simp
  qed simp
qed simp

text \<open>The text of a result is its text blocks with a blank line between them.\<close>

lemma render_joins_text:
  assumes "list_all (\<lambda>b. b \<noteq> []) (text_blocks result)" "text_blocks result \<noteq> []"
  shows "result_text (render_tool_result print result) = join [CHR 0x0A, CHR 0x0A] (text_blocks result)"
proof -
  have join: "foldl push_block [] bs = join [CHR 0x0A, CHR 0x0A] bs" if "list_all (\<lambda>b. b \<noteq> []) bs" for bs
    using that
  proof (induction bs rule: induct_list012)
    case (3 x y zs)
    then show ?case using foldl_push_block [of x "y # zs"] foldl_push_block [of y zs] by simp
  qed simp_all
  obtain b bs where bs: "text_blocks result = b # bs" using assms(2) by (cases "text_blocks result") auto
  have "foldl push_block [] (text_blocks result) \<noteq> []"
    using assms(1) foldl_push_block [of b bs] by (simp add: bs)
  then show ?thesis
    by (simp add: render_tool_result_def Let_def result_text_def tool_result_of_def join [OF assms(1)] map_filter_def)
qed

lemma embedded_within_cap: "r \<in> set (tr_resources (render_tool_result print result)) \<Longrightarrow> byte_len r \<le> max_resource_bytes"
  by (auto simp: render_tool_result_def Let_def embedded_resources_def split: option.splits)

end
