(* ===== verification/Http_Build.thy ===== *)
theory Http_Build
  imports Endpoints Protocol
begin

text \<open>
  How an HTTP client is put together (\<open>McpHttpClientBuilder\<close> and the redirect policy of
  \<open>transport/http/mod.rs\<close>): which redirects it follows, which proxies it takes, and when it
  accepts being held to the addresses of a checked endpoint. What the HTTP library is told is
  the result; URL and address parsing are parameters.
\<close>

section \<open>Redirects\<close>

datatype target_host = DomainHost string | AddressHost ip

record target =
  tg_scheme :: string
  tg_host :: "target_host option"
  tg_origin :: "string option"

definition max_redirects :: nat where "max_redirects = 5"

datatype redirect_verdict = FollowHop | RefuseHop string

definition redirect_decision :: "string option \<Rightarrow> string \<Rightarrow> nat \<Rightarrow> redirect_verdict" where
  "redirect_decision origin_scheme target_scheme hops =
     (if origin_scheme = Some ''https'' \<and> target_scheme = ''http''
      then RefuseHop ''refusing an https to http redirect that would expose credentials in cleartext''
      else if hops > max_redirects then RefuseHop ''too many redirects'' else FollowHop)"

definition trim_end_dots :: "string \<Rightarrow> string" where
  "trim_end_dots s = rev (dropWhile (\<lambda>c. c = CHR ''.'') (rev s))"

definition local_target :: "target \<Rightarrow> bool" where
  "local_target t = (case tg_host t of
     Some (DomainHost domain) \<Rightarrow>
       (let d = lowercase (trim_end_dots domain) in d = ''localhost'' \<or> ends_with ''.localhost'' d)
   | Some (AddressHost addr) \<Rightarrow> is_blocked_ip addr
   | None \<Rightarrow> True)"

text \<open>Two opaque origins are never the same.\<close>

definition same_target_origin :: "target \<Rightarrow> target \<Rightarrow> bool" where
  "same_target_origin a b = (tg_origin a \<noteq> None \<and> tg_origin a = tg_origin b)"

definition cross_origin_refusal :: "target \<Rightarrow> target \<Rightarrow> bool \<Rightarrow> string option" where
  "cross_origin_refusal origin t custom_credential =
     (if same_target_origin origin t then None
      else if custom_credential
      then Some ''refusing a cross-origin redirect that would carry a custom credential''
      else if local_target t then Some ''refusing a cross-origin redirect to a local address'' else None)"

definition redirect_policy :: "bool \<Rightarrow> target list \<Rightarrow> target \<Rightarrow> redirect_verdict" where
  "redirect_policy custom_credential previous t =
     (case (case previous of [] \<Rightarrow> None | origin # _ \<Rightarrow> cross_origin_refusal origin t custom_credential) of
        Some msg \<Rightarrow> RefuseHop msg
      | None \<Rightarrow> redirect_decision (case previous of [] \<Rightarrow> None | origin # _ \<Rightarrow> Some (tg_scheme origin))
                  (tg_scheme t) (length previous))"

text \<open>The hops of a request, each put to the policy with those before it.\<close>

fun hops_followed :: "bool \<Rightarrow> target list \<Rightarrow> target list \<Rightarrow> bool" where
  "hops_followed custom_credential previous [] = True"
| "hops_followed custom_credential previous (t # ts) =
     (redirect_policy custom_credential previous t = FollowHop \<and>
      hops_followed custom_credential (previous @ [t]) ts)"

section \<open>Building a client\<close>

type_synonym socket_addrs = "(ip \<times> nat) list"

record proxy_config =
  px_all :: "string option"
  px_http :: "string option"
  px_https :: "string option"
  px_no_proxy :: "string list"

record http_builder =
  hb_endpoint :: string
  hb_timeout :: nat
  hb_auth :: auth_config
  hb_info :: client_info
  hb_capabilities :: json
  hb_proxy :: "proxy_config option"
  hb_pinned :: "socket_addrs option"

definition builder_new :: "client_info \<Rightarrow> json \<Rightarrow> string \<Rightarrow> http_builder" where
  "builder_new info capabilities endpoint = \<lparr>hb_endpoint = endpoint, hb_timeout = 30, hb_auth = NoAuth,
     hb_info = info, hb_capabilities = capabilities, hb_proxy = None, hb_pinned = None\<rparr>"

definition pinned_public_endpoint :: "socket_addrs \<Rightarrow> http_builder \<Rightarrow> http_builder" where
  "pinned_public_endpoint addresses b = b\<lparr>hb_pinned := Some addresses\<rparr>"

definition custom_credential :: "auth_config \<Rightarrow> bool" where
  "custom_credential auth = (case auth of Header _ _ \<Rightarrow> True | Headers _ \<Rightarrow> True | QueryParam _ _ \<Rightarrow> True | _ \<Rightarrow> False)"

text \<open>What the library is told of one client: whether redirects are put to the policy (with the
  credential flag) or not followed at all, which proxies it uses, and which host is resolved to
  which addresses.\<close>

record client_plan =
  cp_redirects :: "bool option"
  cp_proxies :: "(string \<times> string) list"
  cp_no_proxy :: "string list option"
  cp_system_proxy :: bool
  cp_resolve :: "(string \<times> socket_addrs) option"

definition apply_proxy :: "(string \<Rightarrow> bool) \<Rightarrow> proxy_config \<Rightarrow> client_plan \<Rightarrow> client_plan" where
  "apply_proxy usable proxy plan =
     (let candidates = List.map_filter (\<lambda>(kind, url). map_option (Pair kind) url)
            [(''all'', px_all proxy), (''http'', px_http proxy), (''https'', px_https proxy)]
      in plan\<lparr>cp_proxies := cp_proxies plan @ filter (\<lambda>(_, url). usable url) candidates,
              cp_no_proxy := (if px_no_proxy proxy = [] then None else Some (px_no_proxy proxy))\<rparr>)"

definition known_port :: "url \<Rightarrow> nat option" where
  "known_port u = (case url_port u of Some p \<Rightarrow> Some p
     | None \<Rightarrow> if url_scheme u = ''https'' then Some 443 else if url_scheme u = ''http'' then Some 80 else None)"

definition pin_target :: "(string \<Rightarrow> url option) \<Rightarrow> (string \<Rightarrow> ip option) \<Rightarrow> http_builder \<Rightarrow> socket_addrs \<Rightarrow>
    error + (string \<times> socket_addrs) option" where
  "pin_target parse_url parse_ip b addresses =
     (if hb_proxy b \<noteq> None then Inl (MalformedResponse ''a public MCP endpoint cannot use an unchecked proxy'')
      else rbind (ok_or (MalformedResponse ''invalid pinned MCP endpoint'') (parse_url (hb_endpoint b))) (\<lambda>u.
           rbind (ok_or (MalformedResponse ''pinned MCP endpoint has no host'') (url_host u)) (\<lambda>bracketed.
           let host = strip_brackets bracketed in
           rbind (ok_or (MalformedResponse ''pinned MCP endpoint has no port'') (known_port u)) (\<lambda>port.
             if url_scheme u \<noteq> ''https'' \<or> addresses = [] \<or>
                list_ex (\<lambda>(addr, p). p \<noteq> port \<or> is_blocked_ip addr) addresses
             then Inl (MalformedResponse ''pinned MCP endpoint has no approved addresses'')
             else (case parse_ip host of
                     Some literal \<Rightarrow>
                       if list_ex (\<lambda>(addr, _). addr \<noteq> literal) addresses
                       then Inl (MalformedResponse ''pinned MCP address does not match endpoint'') else Inr None
                   | None \<Rightarrow> Inr (Some (host, addresses)))))))"

definition build :: "(string \<Rightarrow> url option) \<Rightarrow> (string \<Rightarrow> ip option) \<Rightarrow> (string \<Rightarrow> bool) \<Rightarrow>
    (client_plan \<Rightarrow> source_error option) \<Rightarrow> http_builder \<Rightarrow> error + client_plan \<times> client_plan" where
  "build parse_url parse_ip usable build_error b =
     (let plan = \<lparr>cp_redirects = Some (custom_credential (hb_auth b)), cp_proxies = [], cp_no_proxy = None,
            cp_system_proxy = True, cp_resolve = None\<rparr>;
          discovery = plan\<lparr>cp_redirects := None\<rparr>
      in rbind (case hb_pinned b of
                  None \<Rightarrow> Inr (plan, discovery)
                | Some addresses \<Rightarrow> rbind (pin_target parse_url parse_ip b addresses) (\<lambda>resolve.
                    Inr (plan\<lparr>cp_system_proxy := False, cp_redirects := None, cp_resolve := resolve\<rparr>,
                         discovery\<lparr>cp_system_proxy := False, cp_resolve := resolve\<rparr>))) (\<lambda>(plan, discovery).
           let (plan, discovery) = (case hb_proxy b of None \<Rightarrow> (plan, discovery)
                 | Some proxy \<Rightarrow> (apply_proxy usable proxy plan, apply_proxy usable proxy discovery))
           in case build_error plan of
                Some src \<Rightarrow> Inl (ClientBuild src)
              | None \<Rightarrow> (case build_error discovery of Some src \<Rightarrow> Inl (ClientBuild src) | None \<Rightarrow> Inr (plan, discovery))))"

section \<open>What a redirect can reach\<close>

lemma hops_step:
  "hops_followed cred (origin # previous) ts \<Longrightarrow> length previous \<le> 5 \<Longrightarrow>
     length previous + length ts \<le> 5 \<and>
     (\<forall>t \<in> set ts. (tg_scheme origin = ''https'' \<longrightarrow> tg_scheme t \<noteq> ''http'') \<and>
        (same_target_origin origin t \<or> \<not> cred \<and> \<not> local_target t))"
proof (induction ts arbitrary: previous)
  case (Cons t ts)
  from Cons.prems(1) have hop: "cross_origin_refusal origin t cred = None"
    "redirect_decision (Some (tg_scheme origin)) (tg_scheme t) (Suc (length previous)) = FollowHop"
    and rest: "hops_followed cred (origin # (previous @ [t])) ts"
    by (auto simp: redirect_policy_def split: option.splits)
  from hop(2) have d: "tg_scheme origin = ''https'' \<longrightarrow> tg_scheme t \<noteq> ''http''" "length (previous @ [t]) \<le> 5"
    by (auto simp: redirect_decision_def max_redirects_def split: if_splits)
  from hop(1) have "same_target_origin origin t \<or> \<not> cred \<and> \<not> local_target t"
    by (auto simp: cross_origin_refusal_def split: if_splits)
  with d Cons.IH [OF rest d(2)] show ?case by auto
qed simp



section \<open>Pinned clients\<close>

lemma pin_target_Inr:
  assumes "pin_target parse_url parse_ip b addresses = Inr resolve"
  shows "hb_proxy b = None \<and> (\<exists>u host port. parse_url (hb_endpoint b) = Some u \<and> url_scheme u = ''https'' \<and>
    url_host u = Some host \<and> known_port u = Some port \<and> addresses \<noteq> [] \<and>
    list_all (\<lambda>(addr, p). p = port \<and> \<not> is_blocked_ip addr) addresses \<and>
    (\<forall>literal. parse_ip (strip_brackets host) = Some literal \<longrightarrow> list_all (\<lambda>(addr, _). addr = literal) addresses) \<and>
    resolve = (if parse_ip (strip_brackets host) = None then Some (strip_brackets host, addresses) else None))"
proof -
  obtain u host port where u: "parse_url (hb_endpoint b) = Some u" "url_host u = Some host" "known_port u = Some port"
    and proxy: "hb_proxy b = None"
    using assms by (auto simp: pin_target_def rbind_eq_Inr Let_def split: if_splits)
  have bad: "\<not> list_ex (\<lambda>(addr, p). p \<noteq> port \<or> is_blocked_ip addr) xs \<Longrightarrow>
      list_all (\<lambda>(addr, p). p = port \<and> \<not> is_blocked_ip addr) xs"
    "\<not> list_ex (\<lambda>(addr, _). addr \<noteq> literal) xs \<Longrightarrow> list_all (\<lambda>(addr, _). addr = literal) xs"
    for xs :: socket_addrs and literal by (induction xs) auto
  let ?bad = "list_ex (\<lambda>(addr, p). p \<noteq> port \<or> is_blocked_ip addr) addresses"
  have run: "(if url_scheme u \<noteq> ''https'' \<or> addresses = [] \<or> ?bad
      then Inl (MalformedResponse ''pinned MCP endpoint has no approved addresses'')
      else (case parse_ip (strip_brackets host) of
              Some literal \<Rightarrow> if list_ex (\<lambda>(addr, _). addr \<noteq> literal) addresses
                then Inl (MalformedResponse ''pinned MCP address does not match endpoint'') else Inr None
            | None \<Rightarrow> Inr (Some (strip_brackets host, addresses)))) = Inr resolve"
    using assms by (simp only: pin_target_def u proxy ok_or_def rbind_simps Let_def option.case) simp
  have ok: "url_scheme u = ''https''" "addresses \<noteq> []" "\<not> ?bad"
    using run by (simp_all only: split: if_split_asm) simp_all
  from run ok have "(case parse_ip (strip_brackets host) of
              Some literal \<Rightarrow> if list_ex (\<lambda>(addr, _). addr \<noteq> literal) addresses
                then Inl (MalformedResponse ''pinned MCP address does not match endpoint'') else Inr None
            | None \<Rightarrow> Inr (Some (strip_brackets host, addresses))) = Inr resolve" by simp
  then have "(\<forall>literal. parse_ip (strip_brackets host) = Some literal \<longrightarrow> list_all (\<lambda>(addr, _). addr = literal) addresses) \<and>
    resolve = (if parse_ip (strip_brackets host) = None then Some (strip_brackets host, addresses) else None)"
    using bad(2) [of _ addresses] by (cases "parse_ip (strip_brackets host)") (auto simp only: option.case option.distinct option.inject Inr_Inl_False simp_thms if_True if_False split: if_split_asm)
  with u ok bad(1) [OF ok(3)] proxy show ?thesis by metis
qed

lemma build_plans:
  assumes "hb_pinned b = Some addresses" "hb_proxy b = None" "pin_target parse_url parse_ip b addresses = Inr resolve"
    and "build parse_url parse_ip usable build_error b = Inr (plan, discovery)" "p \<in> {plan, discovery}"
  shows "cp_redirects p = None \<and> cp_proxies p = [] \<and> \<not> cp_system_proxy p \<and> cp_resolve p = resolve"
  using assms by (auto simp: build_def Let_def split: option.splits)

text \<open>
  C25. A client pinned to a checked endpoint is told to follow no redirect and to use no proxy,
  its endpoint is HTTPS, and every address it may connect to is public and on the endpoint's
  port; a host name resolves to those addresses alone and a literal host is the one address.
\<close>

theorem pinned_client_confined:
  assumes "hb_pinned b = Some addresses" "build parse_url parse_ip usable build_error b = Inr (plan, discovery)"
  shows "\<exists>u host port. parse_url (hb_endpoint b) = Some u \<and> url_scheme u = ''https'' \<and>
    url_host u = Some host \<and> known_port u = Some port \<and>
    (\<forall>p \<in> {plan, discovery}. cp_redirects p = None \<and> cp_proxies p = [] \<and> \<not> cp_system_proxy p \<and>
       cp_resolve p = (if parse_ip (strip_brackets host) = None then Some (strip_brackets host, addresses) else None)) \<and>
    addresses \<noteq> [] \<and> list_all (\<lambda>(addr, p). p = port \<and> \<not> is_blocked_ip addr) addresses \<and>
    (\<forall>literal. parse_ip (strip_brackets host) = Some literal \<longrightarrow> list_all (\<lambda>(addr, _). addr = literal) addresses)"
proof -
  obtain resolve where pin: "pin_target parse_url parse_ip b addresses = Inr resolve"
    using assms by (cases "pin_target parse_url parse_ip b addresses") (auto simp: build_def Let_def)
  from pin_target_Inr [OF pin] obtain u host port where u: "parse_url (hb_endpoint b) = Some u"
      "url_scheme u = ''https''" "url_host u = Some host" "known_port u = Some port" "addresses \<noteq> []"
      "list_all (\<lambda>(addr, p). p = port \<and> \<not> is_blocked_ip addr) addresses"
      "\<forall>literal. parse_ip (strip_brackets host) = Some literal \<longrightarrow> list_all (\<lambda>(addr, _). addr = literal) addresses"
      "resolve = (if parse_ip (strip_brackets host) = None then Some (strip_brackets host, addresses) else None)"
    and proxy: "hb_proxy b = None" by blast
  have "\<forall>p \<in> {plan, discovery}. cp_redirects p = None \<and> cp_proxies p = [] \<and> \<not> cp_system_proxy p \<and> cp_resolve p = resolve"
    using build_plans [OF assms(1) proxy pin assms(2)] by (intro ballI)
  then show ?thesis unfolding u(8) by (intro exI [of _ u] exI [of _ host] exI [of _ port] conjI u(1-7))
qed

definition sample_builder :: http_builder where
  "sample_builder = pinned_public_endpoint [(V4 8 8 8 8, 443)]
     (builder_new \<lparr>ci_name = ''c'', ci_title = None, ci_version = ''1''\<rparr> JNull ''https://h/'')"

theorem pinned_client_confined_witness:
  "\<exists>plan discovery. build (\<lambda>_. Some \<lparr>url_scheme = ''https'', url_host = Some ''h'', url_port = None\<rparr>)
      (\<lambda>_. None) (\<lambda>_. True) (\<lambda>_. None) sample_builder = Inr (plan, discovery) \<and>
    cp_redirects plan = None \<and> cp_resolve discovery = Some (''h'', [(V4 8 8 8 8, 443)])"
proof -
  let ?parse = "\<lambda>_::string. Some \<lparr>url_scheme = ''https'', url_host = Some ''h'', url_port = None\<rparr>"
  have strip: "strip_brackets ''h'' = ''h''" by code_simp
  have "\<exists>plan discovery. build ?parse (\<lambda>_. None) (\<lambda>_. True) (\<lambda>_. None) sample_builder = Inr (plan, discovery)"
    by (simp add: build_def sample_builder_def pinned_public_endpoint_def builder_new_def pin_target_def known_port_def
        strip v4_blocked_def v4_loopback_def v4_private_def v4_link_local_def v4_documentation_def v4_multicast_def)
  then obtain plan discovery where run: "build ?parse (\<lambda>_. None) (\<lambda>_. True) (\<lambda>_. None) sample_builder = Inr (plan, discovery)"
    by blast
  have "hb_pinned sample_builder = Some [(V4 8 8 8 8, 443)]" by (simp add: sample_builder_def pinned_public_endpoint_def)
  from pinned_client_confined [OF this run] run show ?thesis by (auto simp: strip)
qed

end
