(* ===== verification/OAuth_Pending.thy ===== *)
theory OAuth_Pending
  imports Errors
begin

text \<open>
  \<open>registry/oauth/pending.rs\<close>: where a sign-in waits between the redirect out and back. The
  trait is the locale \<open>pending_store\<close>, whose laws are what the flow needs of a store; the
  memory store is the instance the code ships. A store takes its own clock reading, \<open>now\<close>,
  under its lock.
\<close>

section \<open>Parked authorizations\<close>

definition pending_ttl_secs :: u64 where "pending_ttl_secs = 10 * 60"

record pending_authorization =
  pa_server_id :: string
  pa_code_verifier :: string
  pa_client_id :: string
  pa_client_secret :: "string option"
  pa_token_endpoint :: string
  pa_redirect_uri :: string
  pa_started_at :: u64

definition expired_at :: "pending_authorization \<Rightarrow> u64 \<Rightarrow> bool" where
  "expired_at p now = (pa_started_at p < sat_sub now pending_ttl_secs)"

lemma expired_at_iff: "expired_at p now \<longleftrightarrow> unat (pa_started_at p) + 600 < unat now"
proof -
  have "unat pending_ttl_secs = 600" by (simp add: pending_ttl_secs_def)
  then show ?thesis by (simp add: expired_at_def word_less_nat_alt unat_sat_sub less_diff_conv)
qed

section \<open>The memory store\<close>

text \<open>The entries of the \<open>HashMap\<close>, in no order the code relies on.\<close>

type_synonym memory_store = "(string \<times> pending_authorization) list"

definition memory_new :: memory_store where "memory_new = []"

definition pruned :: "u64 \<Rightarrow> memory_store \<Rightarrow> memory_store" where
  "pruned now m = filter (\<lambda>(_, p). \<not> expired_at p now) m"

definition mem_park :: "u64 \<Rightarrow> string \<Rightarrow> pending_authorization \<Rightarrow> memory_store \<Rightarrow>
    memory_store \<times> (error + unit)" where
  "mem_park now st p m = (AList.update st p (pruned now m), Inr ())"

definition mem_take :: "u64 \<Rightarrow> string \<Rightarrow> memory_store \<Rightarrow>
    memory_store \<times> (error + pending_authorization option)" where
  "mem_take now st m =
     (let entries = pruned now m in (AList.delete st entries, Inr (map_of entries st)))"

definition mem_peek :: "u64 \<Rightarrow> string \<Rightarrow> memory_store \<Rightarrow>
    memory_store \<times> (error + pending_authorization option)" where
  "mem_peek now st m = (let entries = pruned now m in (entries, Inr (map_of entries st)))"

definition mem_count :: "u64 \<Rightarrow> memory_store \<Rightarrow> memory_store \<times> (error + nat)" where
  "mem_count now m = (let entries = pruned now m in (entries, Inr (length entries)))"

section \<open>What the flow needs of a store\<close>

datatype store_op =
    Park u64 string pending_authorization
  | Take u64 string
  | Peek u64 string
  | Count u64

text \<open>The trait: a store is a record of its operations.\<close>

record 's pending_authorization_store =
  store_park :: "u64 \<Rightarrow> string \<Rightarrow> pending_authorization \<Rightarrow> 's \<Rightarrow> 's \<times> (error + unit)"
  store_take :: "u64 \<Rightarrow> string \<Rightarrow> 's \<Rightarrow> 's \<times> (error + pending_authorization option)"
  store_peek :: "u64 \<Rightarrow> string \<Rightarrow> 's \<Rightarrow> 's \<times> (error + pending_authorization option)"
  store_count :: "u64 \<Rightarrow> 's \<Rightarrow> 's \<times> (error + nat)"

definition memory_pending_store :: "memory_store pending_authorization_store" where
  "memory_pending_store = \<lparr>store_park = mem_park, store_take = mem_take,
     store_peek = mem_peek, store_count = mem_count\<rparr>"

text \<open>One operation, and the entry it handed out for good, if it did; then a sequence of them,
  by whichever instances share the store.\<close>

definition perform :: "'s pending_authorization_store \<Rightarrow> 's \<Rightarrow> store_op \<Rightarrow>
    's \<times> (string \<times> pending_authorization) list" where
  "perform P s x = (case x of
     Park now st p \<Rightarrow> (fst (store_park P now st p s), [])
   | Take now st \<Rightarrow> (case store_take P now st s of
        (s', Inr (Some p)) \<Rightarrow> (s', [(st, p)]) | (s', _) \<Rightarrow> (s', []))
   | Peek now st \<Rightarrow> (fst (store_peek P now st s), [])
   | Count now \<Rightarrow> (fst (store_count P now s), []))"

fun handed_out :: "'s pending_authorization_store \<Rightarrow> 's \<Rightarrow> store_op list \<Rightarrow>
    (string \<times> pending_authorization) list" where
  "handed_out P s [] = []"
| "handed_out P s (x # xs) = snd (perform P s x) @ handed_out P (fst (perform P s x)) xs"

definition parks :: "string \<Rightarrow> store_op list \<Rightarrow> nat" where
  "parks st xs = length (filter (\<lambda>x. case x of Park _ st' _ \<Rightarrow> st' = st | _ \<Rightarrow> False) xs)"

lemma parks_simps [simp]:
  "parks st [] = 0"
  "parks st (Park n st' p # xs) = (if st' = st then 1 else 0) + parks st xs"
  "parks st (Take n st' # xs) = parks st xs"
  "parks st (Peek n st' # xs) = parks st xs"
  "parks st (Count n # xs) = parks st xs"
  by (simp_all add: parks_def)

lemma parks_Cons: "parks st (x # xs) = parks st [x] + parks st xs"
  by (cases x) simp_all

locale pending_store =
  fixes P :: "'s pending_authorization_store"
    and entries :: "'s \<Rightarrow> (string \<times> pending_authorization) set"
  assumes park_adds: "store_park P now st p s = (s', r) \<Longrightarrow> entries s' \<subseteq> insert (st, p) (entries s)"
    and take_from: "store_take P now st s = (s', Inr (Some p)) \<Longrightarrow> (st, p) \<in> entries s"
    and take_removes: "store_take P now st s = (s', Inr (Some p)) \<Longrightarrow> (st, q) \<notin> entries s'"
    and take_keeps: "store_take P now st s = (s', t) \<Longrightarrow> entries s' \<subseteq> entries s"
    and peek_keeps: "store_peek P now st s = (s', t) \<Longrightarrow> entries s' \<subseteq> entries s"
    and count_keeps: "store_count P now s = (s', c) \<Longrightarrow> entries s' \<subseteq> entries s"
begin

definition held :: "string \<Rightarrow> 's \<Rightarrow> nat" where
  "held st s = (if st \<in> fst ` entries s then 1 else 0)"

lemma held_mono: "entries s' \<subseteq> entries s \<Longrightarrow> held st s' \<le> held st s"
  by (auto simp: held_def)

lemma perform_budget:
  "length (filter (\<lambda>(st', _). st' = st) (snd (perform P s x))) + held st (fst (perform P s x))
    \<le> held st s + parks st [x]"
proof (cases x)
  case (Park now st' p)
  obtain s' r where p: "store_park P now st' p s = (s', r)" by (cases "store_park P now st' p s")
  have "held st s' \<le> held st s + (if st' = st then 1 else 0)"
    using park_adds [OF p] by (auto simp: held_def)
  then show ?thesis by (simp add: Park perform_def p)
next
  case (Take now st')
  obtain s' r where t: "store_take P now st' s = (s', r)" by (cases "store_take P now st' s")
  have mono: "held st s' \<le> held st s" by (rule held_mono [OF take_keeps [OF t]])
  show ?thesis
  proof (cases "\<exists>p. r = Inr (Some p)")
    case True
    then obtain p where r: "r = Inr (Some p)" by blast
    have "held st' s = 1" using take_from [OF t [unfolded r]] by (force simp: held_def)
    moreover have "held st' s' = 0" using take_removes [OF t [unfolded r]] by (force simp: held_def)
    moreover have "perform P s x = (s', [(st', p)])" by (simp add: Take perform_def t r)
    ultimately show ?thesis using mono by (cases "st' = st") (simp_all add: Take)
  next
    case False
    then have "perform P s x = (s', [])" by (auto simp: Take perform_def t split: sum.split option.split)
    with mono show ?thesis by (simp add: Take)
  qed
next
  case (Peek now st')
  obtain s' r where p: "store_peek P now st' s = (s', r)" by (cases "store_peek P now st' s")
  show ?thesis using held_mono [OF peek_keeps [OF p]] by (simp add: Peek perform_def p)
next
  case (Count now)
  obtain s' r where c: "store_count P now s = (s', r)" by (cases "store_count P now s")
  show ?thesis using held_mono [OF count_keeps [OF c]] by (simp add: Count perform_def c)
qed

lemma handed_out_budget:
  "length (filter (\<lambda>(st', _). st' = st) (handed_out P s xs)) \<le> held st s + parks st xs"
proof (induction xs arbitrary: s)
  case (Cons x xs)
  show ?case using perform_budget [of st s x] Cons [of "fst (perform P s x)"] parks_Cons [of st x xs]
    by simp
qed simp

lemma perform_entries:
  "entries (fst (perform P s x)) \<subseteq> entries s \<union> (case x of Park _ st p \<Rightarrow> {(st, p)} | _ \<Rightarrow> {})"
  "set (snd (perform P s x)) \<subseteq> entries s"
proof -
  show "entries (fst (perform P s x)) \<subseteq> entries s \<union> (case x of Park _ st p \<Rightarrow> {(st, p)} | _ \<Rightarrow> {})"
  proof (cases x)
    case (Park now st p)
    then show ?thesis using park_adds [of now st p s] by (cases "store_park P now st p s") (auto simp: perform_def)
  next
    case (Take now st)
    obtain s' r where t: "store_take P now st s = (s', r)" by (cases "store_take P now st s")
    have "fst (perform P s x) = s'" by (simp add: Take perform_def t split: sum.split option.split)
    then show ?thesis using take_keeps [OF t] by (simp add: Take)
  next
    case (Peek now st)
    then show ?thesis using peek_keeps [of now st s] by (cases "store_peek P now st s") (auto simp: perform_def)
  next
    case (Count now)
    then show ?thesis using count_keeps [of now s] by (cases "store_count P now s") (auto simp: perform_def)
  qed
  show "set (snd (perform P s x)) \<subseteq> entries s"
  proof (cases x)
    case (Take now st)
    obtain s' r where t: "store_take P now st s = (s', r)" by (cases "store_take P now st s")
    show ?thesis
      using take_from [of now st s s'] by (simp add: Take perform_def t split: sum.split option.split)
  qed (simp_all add: perform_def)
qed

lemma handed_out_parked:
  "set (handed_out P s xs) \<subseteq> entries s \<union> {(st, p). \<exists>now. Park now st p \<in> set xs}"
proof (induction xs arbitrary: s)
  case (Cons x xs)
  have "entries (fst (perform P s x)) \<subseteq> entries s \<union> {(st, p). \<exists>now. Park now st p \<in> set (x # xs)}"
    using perform_entries(1) [of s x] by (auto split: store_op.splits)
  with Cons [of "fst (perform P s x)"] perform_entries(2) [of s x] show ?case
    by (simp add: subset_iff) blast
qed simp

end

section \<open>The memory store keeps the contract\<close>

lemma set_pruned: "set (pruned now m) \<subseteq> set m"
  by (auto simp: pruned_def)

lemma set_update: "set (AList.update k v m) \<subseteq> insert (k, v) (set m)"
  by (induction m) auto

interpretation memory: pending_store memory_pending_store set
  by unfold_locales
    (use set_pruned set_update in \<open>force simp: memory_pending_store_def mem_park_def mem_take_def
       mem_peek_def mem_count_def Let_def AList.delete_eq dest: map_of_SomeD\<close>)+

definition store_step :: "memory_store \<Rightarrow> store_op \<Rightarrow> memory_store" where
  "store_step m x = fst (perform memory_pending_store m x)"

lemmas memory_ops = memory_pending_store_def mem_park_def mem_take_def mem_peek_def mem_count_def

lemma store_step_simps [simp]:
  "store_step m (Park now st p) = AList.update st p (pruned now m)"
  "store_step m (Take now st) = AList.delete st (pruned now m)"
  "store_step m (Peek now st) = pruned now m"
  "store_step m (Count now) = pruned now m"
  by (simp_all add: store_step_def perform_def memory_ops Let_def split: option.split)

lemma distinct_pruned: "distinct (map fst m) \<Longrightarrow> distinct (map fst (pruned now m))"
  by (auto simp: pruned_def distinct_map inj_on_def)

interpretation memory_machine: op_machine store_step "\<lambda>m. distinct (map fst m)" memory_new
proof unfold_locales
  show "distinct (map fst memory_new)" by (simp add: memory_new_def)
  show "distinct (map fst (store_step m x))" if "distinct (map fst m)" for m x
    by (cases x) (simp_all add: that distinct_pruned distinct_update distinct_delete)
qed

lemma map_of_pruned: "distinct (map fst m) \<Longrightarrow> map_of (pruned now m) st =
    (case map_of m st of None \<Rightarrow> None | Some p \<Rightarrow> if expired_at p now then None else Some p)"
  by (induction m) (auto simp: pruned_def map_of_eq_None_iff split: option.splits if_splits
      dest: map_of_SomeD)

section \<open>Handed out once, and only while it is fresh\<close>

definition parked_in :: "store_op list \<Rightarrow> string \<times> pending_authorization \<Rightarrow> bool" where
  "parked_in ops e = list_ex (\<lambda>x. case x of Park _ st p \<Rightarrow> (st, p) = e | _ \<Rightarrow> False) ops"

text \<open>
  Whatever parks, takes, peeks and counts reach the memory store, in whatever order and at
  whatever clock readings, a state's entry is handed out at most as often as one was parked
  under it, so a state of which there is one sign-in is exchanged at most once, and nothing is
  handed out under a state that was not parked under exactly that state.
\<close>

theorem authorization_handed_out_once:
  "length (filter (\<lambda>(st', _). st' = st) (handed_out memory_pending_store memory_new ops))
     \<le> parks st ops \<and>
   list_all (parked_in ops) (handed_out memory_pending_store memory_new ops)"
proof
  show "length (filter (\<lambda>(st', _). st' = st) (handed_out memory_pending_store memory_new ops)) \<le> parks st ops"
    using memory.handed_out_budget [of st memory_new ops] by (simp add: memory.held_def memory_new_def)
  show "list_all (parked_in ops) (handed_out memory_pending_store memory_new ops)"
    using memory.handed_out_parked [of memory_new ops]
    by (force simp: memory_new_def list_all_iff parked_in_def list_ex_iff)
qed

fun op_clock :: "store_op \<Rightarrow> u64" where
  "op_clock (Park now st p) = now"
| "op_clock (Take now st) = now"
| "op_clock (Peek now st) = now"
| "op_clock (Count now) = now"

definition leaves_alone :: "string \<Rightarrow> u64 \<Rightarrow> store_op \<Rightarrow> bool" where
  "leaves_alone st now x = (op_clock x \<le> now \<and>
     (case x of Park _ st' _ \<Rightarrow> st' \<noteq> st | Take _ st' \<Rightarrow> st' \<noteq> st | _ \<Rightarrow> True))"

lemma expired_mono: "expired_at p t \<Longrightarrow> t \<le> now \<Longrightarrow> expired_at p now"
  by (simp add: expired_at_iff word_le_nat_alt)

lemma store_step_keeps:
  assumes "distinct (map fst m)" "leaves_alone st now x"
  shows "map_of (store_step m x) st =
    (case map_of m st of None \<Rightarrow> None | Some p \<Rightarrow> if expired_at p (op_clock x) then None else Some p)"
  using assms(2)
  by (cases x) (auto simp: leaves_alone_def update_conv' delete_conv' map_of_pruned [OF assms(1)] cong: option.case_cong)

lemma kept_until_expired:
  assumes "distinct (map fst m)" "list_all (leaves_alone st now) later"
    and "map_of m st = Some p \<or> map_of m st = None \<and> expired_at p now"
  shows "let m' = run_ops store_step m later in distinct (map fst m') \<and>
    (map_of m' st = Some p \<or> map_of m' st = None \<and> expired_at p now)"
  using assms
proof (induction later arbitrary: m)
  case (Cons x xs)
  have "distinct (map fst (store_step m x))" by (rule memory_machine.inv_step [OF Cons.prems(1)])
  moreover have "map_of (store_step m x) st = Some p \<or>
      map_of (store_step m x) st = None \<and> expired_at p now"
    using Cons.prems(2,3) store_step_keeps [OF Cons.prems(1), of st now x]
      expired_mono [of p "op_clock x" now]
    by (cases "expired_at p (op_clock x)") (auto simp: leaves_alone_def simp del: map_of_eq_Some_iff)
  ultimately show ?case using Cons by simp
qed simp

text \<open>
  The window of a sign-in: an entry parked in the memory store is there to be taken, and
  to be peeked at, whatever has happened to other states in between, until its start lies more
  than 600 seconds back, and from then on it is gone.
\<close>

theorem parked_for_ten_minutes:
  assumes "list_all (leaves_alone st now) later"
  shows "let m = run_ops store_step memory_new (before @ Park t st p # later);
      found = (if unat (pa_started_at p) + 600 < unat now then None else Some p)
    in snd (mem_take now st m) = Inr found \<and> snd (mem_peek now st m) = Inr found"
proof -
  let ?m = "store_step (run_ops store_step memory_new before) (Park t st p)"
  have "distinct (map fst (run_ops store_step memory_new before))" by (rule memory_machine.inv_reachable)
  then have "distinct (map fst ?m)" by (rule memory_machine.inv_step)
  moreover have "map_of ?m st = Some p" by (simp add: update_conv')
  ultimately have "let m' = run_ops store_step ?m later in distinct (map fst m') \<and>
      (map_of m' st = Some p \<or> map_of m' st = None \<and> expired_at p now)"
    using assms by (intro kept_until_expired) simp_all
  then show ?thesis
    by (auto simp: Let_def mem_take_def mem_peek_def map_of_pruned expired_at_iff [symmetric])
qed

theorem parked_for_ten_minutes_witness:
  "let p = \<lparr>pa_server_id = ''s'', pa_code_verifier = ''v'', pa_client_id = ''c'', pa_client_secret = None,
             pa_token_endpoint = ''https://t'', pa_redirect_uri = ''http://r'', pa_started_at = 1000\<rparr>;
       m = run_ops store_step memory_new [Park 1000 ''x'' p, Take 1500 ''y'']
   in snd (mem_take 1600 ''x'' m) = Inr (Some p) \<and> snd (mem_take 1601 ''x'' m) = Inr None"
  using parked_for_ten_minutes [of "''x''" 1600 "[Take 1500 ''y'']" "[]" 1000
      "\<lparr>pa_server_id = ''s'', pa_code_verifier = ''v'', pa_client_id = ''c'', pa_client_secret = None,
         pa_token_endpoint = ''https://t'', pa_redirect_uri = ''http://r'', pa_started_at = 1000\<rparr>"]
    parked_for_ten_minutes [of "''x''" 1601 "[Take 1500 ''y'']" "[]" 1000
      "\<lparr>pa_server_id = ''s'', pa_code_verifier = ''v'', pa_client_id = ''c'', pa_client_secret = None,
         pa_token_endpoint = ''https://t'', pa_redirect_uri = ''http://r'', pa_started_at = 1000\<rparr>"]
  by (simp add: leaves_alone_def Let_def)

end
