(* ===== verification/OAuth.thy ===== *)
theory OAuth
  imports OAuth_Pending Endpoints
begin

text \<open>
  Browser sign-in: \<open>registry/oauth/flow.rs\<close>, \<open>tokens.rs\<close> and \<open>types.rs\<close>. The credential
  store, the pending store, the clock, HTTP, name resolution, identifiers and the JSON text
  form are an environment of functions on an outside world; what the flow does between those
  calls is modelled whole. Logging is left out.
\<close>

section \<open>Values\<close>

record oauth_bundle =
  ob_refresh_token :: "string option"
  ob_client_id :: string
  ob_client_secret :: "string option"
  ob_token_endpoint :: string
  ob_expires_at :: u64

record token_response =
  tr_access_token :: string
  tr_refresh_token :: "string option"
  tr_expires_in :: "u64 option"

definition parse_tokens :: "json \<Rightarrow> error + token_response" where
  "parse_tokens body =
     rbind (ok_or (MalformedResponse ''token response has no access_token'')
              (Option.bind (jget ''access_token'' body) as_str))
       (\<lambda>token. Inr \<lparr>tr_access_token = token,
          tr_refresh_token = Option.bind (jget ''refresh_token'' body) as_str,
          tr_expires_in = Option.bind (jget ''expires_in'' body) as_u64\<rparr>)"

text \<open>The codec serde derives for the bundle.\<close>

definition enc_bundle :: "oauth_bundle \<Rightarrow> json" where
  "enc_bundle b = jobject
     [(''refresh_token'', enc_opt JStr (ob_refresh_token b)),
      (''client_id'', JStr (ob_client_id b)),
      (''client_secret'', enc_opt JStr (ob_client_secret b)),
      (''token_endpoint'', JStr (ob_token_endpoint b)),
      (''expires_at'', JInt (uint (ob_expires_at b)))]"

definition dec_bundle :: "json \<Rightarrow> oauth_bundle option" where
  "dec_bundle j =
     Option.bind (optional ''refresh_token'' as_str j) (\<lambda>rt.
     Option.bind (required ''client_id'' as_str j) (\<lambda>ci.
     Option.bind (optional ''client_secret'' as_str j) (\<lambda>cs.
     Option.bind (required ''token_endpoint'' as_str j) (\<lambda>te.
     Option.bind (required ''expires_at'' as_u64 j) (\<lambda>ea.
       Some \<lparr>ob_refresh_token = rt, ob_client_id = ci, ob_client_secret = cs,
         ob_token_endpoint = te, ob_expires_at = ea\<rparr>)))))"

datatype auth_kind = AuthNone | AuthToken | AuthOauth

fun auth_kind_str :: "auth_kind \<Rightarrow> string" where
  "auth_kind_str AuthNone = ''none''"
| "auth_kind_str AuthToken = ''token''"
| "auth_kind_str AuthOauth = ''oauth''"

record auth_detection =
  ad_kind :: auth_kind
  ad_authorization_endpoint :: "string option"
  ad_grant_types :: "string list"

definition detection_open :: auth_detection where
  "detection_open = \<lparr>ad_kind = AuthNone, ad_authorization_endpoint = None, ad_grant_types = []\<rparr>"

definition detection_static_token :: auth_detection where
  "detection_static_token =
     \<lparr>ad_kind = AuthToken, ad_authorization_endpoint = None, ad_grant_types = []\<rparr>"

definition detection_oauth :: "string \<Rightarrow> string list \<Rightarrow> auth_detection" where
  "detection_oauth endpoint grants =
     \<lparr>ad_kind = AuthOauth, ad_authorization_endpoint = Some endpoint, ad_grant_types = grants\<rparr>"

record authorization_server =
  as_issuer :: string
  as_authorization_endpoint :: "string option"
  as_token_endpoint :: "string option"
  as_registration_endpoint :: "string option"
  as_grant_types_supported :: "string list"

record authorization_context =
  ac_challenge :: auth_challenge
  ac_servers :: "authorization_server list"

definition supports_authorization_code :: "authorization_server \<Rightarrow> bool" where
  "supports_authorization_code m = (as_grant_types_supported m = [] \<or>
     list_ex (\<lambda>grant. grant = ''authorization_code'') (as_grant_types_supported m))"

definition can_drive_sign_in :: "authorization_server \<Rightarrow> bool" where
  "can_drive_sign_in m = (as_authorization_endpoint m \<noteq> None \<and> as_token_endpoint m \<noteq> None \<and>
     as_registration_endpoint m \<noteq> None \<and> supports_authorization_code m)"

section \<open>The environment\<close>

text \<open>
  Which client a request leaves through: the flow's own, its own without redirects, or one
  built for an endpoint that was checked, which follows no redirect and, when the host is a
  name, connects to no address but those the check returned.
\<close>

datatype http_client =
    FlowClient
  | NoRedirectClient
  | PinnedClient "(string \<times> (ip \<times> nat) list) option"

datatype post_body = Form "(string \<times> string) list" | JsonBody json

type_synonym addresses = "(ip \<times> nat) list"

record 'n oauth_env =
  oe_remote_url :: "string \<Rightarrow> 'n \<Rightarrow> 'n \<times> (error + string option)"
  oe_load :: "string \<Rightarrow> 'n \<Rightarrow> 'n \<times> (error + (string, string) btree)"
  oe_save :: "string \<Rightarrow> (string, string) btree \<Rightarrow> 'n \<Rightarrow> 'n \<times> (error + unit)"
  oe_park :: "string \<Rightarrow> pending_authorization \<Rightarrow> 'n \<Rightarrow> 'n \<times> (error + unit)"
  oe_take :: "string \<Rightarrow> 'n \<Rightarrow> 'n \<times> (error + pending_authorization option)"
  oe_peek :: "string \<Rightarrow> 'n \<Rightarrow> 'n \<times> (error + pending_authorization option)"
  oe_count :: "'n \<Rightarrow> 'n \<times> (error + nat)"
  oe_now :: "'n \<Rightarrow> 'n \<times> u64"
  oe_uuid :: "'n \<Rightarrow> 'n \<times> string"
  oe_uuid_text :: "string \<Rightarrow> string"
  oe_base64 :: "string \<Rightarrow> string"
  oe_sha256 :: "string \<Rightarrow> string"
  oe_parse_url :: "string \<Rightarrow> string + url"
  oe_parse_ip :: "string \<Rightarrow> ip option"
  oe_resolve :: "string \<Rightarrow> nat \<Rightarrow> 'n \<Rightarrow> string + addresses"
  oe_client_build :: "http_client \<Rightarrow> source_error option"
  oe_probe_build :: "string \<Rightarrow> addresses option \<Rightarrow> error option"
  oe_discover :: "string \<Rightarrow> addresses option \<Rightarrow> 'n \<Rightarrow> 'n \<times> (error + authorization_context option)"
  oe_post :: "http_client \<Rightarrow> string \<Rightarrow> post_body \<Rightarrow> 'n \<Rightarrow> 'n \<times> (source_error + u16 \<times> string)"
  oe_parse_json :: "string \<Rightarrow> string + json"
  oe_print_json :: "json \<Rightarrow> string"
  oe_shape_error :: "json \<Rightarrow> string"
  oe_with_params :: "string \<Rightarrow> (string \<times> string) list \<Rightarrow> string + string"

definition guard_at :: "'n oauth_env \<Rightarrow> 'n \<Rightarrow> guard_env" where
  "guard_at E n = \<lparr>g_parse_url = oe_parse_url E, g_parse_ip = oe_parse_ip E,
     g_resolve = \<lambda>host port. oe_resolve E host port n\<rparr>"

definition client_pinned_to :: "'n oauth_env \<Rightarrow> string \<Rightarrow> addresses \<Rightarrow> error + http_client" where
  "client_pinned_to E host addresses =
     (let client = PinnedClient (if oe_parse_ip E host = None then Some (host, addresses) else None)
      in case oe_client_build E client of Some src \<Rightarrow> Inl (ClientBuild src) | None \<Rightarrow> Inr client)"

definition guarded_client :: "'n oauth_env \<Rightarrow> string \<Rightarrow> string \<Rightarrow> 'n \<Rightarrow> error + http_client" where
  "guarded_client E raw what n =
     rbind (guard_endpoint (guard_at E n) raw what) (\<lambda>addresses.
       case oe_parse_url E raw of
         Inl err \<Rightarrow> Inl (MalformedResponse (''invalid '' @ what @ '' url: '' @ err))
       | Inr u \<Rightarrow> (case url_host u of
           None \<Rightarrow> Inl (MalformedResponse (what @ '' endpoint has no host''))
         | Some host \<Rightarrow> client_pinned_to E (strip_brackets host) addresses))"

section \<open>Talking to a token endpoint\<close>

definition oauth_failure_reason :: "'n oauth_env \<Rightarrow> string \<Rightarrow> string" where
  "oauth_failure_reason E body =
     (case oe_parse_json E body of
        Inr (JObj members) \<Rightarrow>
          (let reason = List.map_filter (\<lambda>key. Option.bind (bt_get members key) (\<lambda>v.
                 map_option (\<lambda>value. (key, JStr value)) (as_str v)))
                 [''error'', ''error_description'']
           in if reason = [] then [] else oe_print_json E (jobject reason))
      | _ \<Rightarrow> [])"

definition is_success :: "u16 \<Rightarrow> bool" where
  "is_success status = (200 \<le> status \<and> status \<le> 299)"

definition read_reply :: "'n oauth_env \<Rightarrow> string \<Rightarrow> string \<Rightarrow>
    'n \<times> (source_error + u16 \<times> string) \<Rightarrow> 'n \<times> (error + json)" where
  "read_reply E endpoint what reply =
     (case reply of
        (n, Inl src) \<Rightarrow> (n, Inl (Transport_Failure (redact_endpoint endpoint) src))
      | (n, Inr (status, text)) \<Rightarrow>
          if \<not> is_success status
          then (n, Inl (Http (redact_endpoint endpoint) status (oauth_failure_reason E text)))
          else (case oe_parse_json E text of
                  Inl err \<Rightarrow> (n, Inl (MalformedResponse (what @ '' replied with non-json: '' @ err)))
                | Inr v \<Rightarrow> (n, Inr v)))"

definition post_form :: "'n oauth_env \<Rightarrow> http_client \<Rightarrow> string \<Rightarrow> (string \<times> string) list \<Rightarrow> 'n \<Rightarrow>
    'n \<times> (error + json)" where
  "post_form E client endpoint form n =
     read_reply E endpoint ''token endpoint'' (oe_post E client endpoint (Form form) n)"

section \<open>Stored tokens\<close>

definition oauth_bundle_key :: string where "oauth_bundle_key = ''__oauth__''"
definition access_token_key :: string where "access_token_key = ''Authorization''"
definition refresh_skew_secs :: u64 where "refresh_skew_secs = 60"
definition default_token_lifetime_secs :: u64 where "default_token_lifetime_secs = 3600"

definition blank :: "string \<Rightarrow> bool" where "blank s = (trim s = [])"

definition read_bundle :: "'n oauth_env \<Rightarrow> string \<Rightarrow> string + oauth_bundle" where
  "read_bundle E raw = rbind (oe_parse_json E raw) (\<lambda>j. ok_or (oe_shape_error E j) (dec_bundle j))"

definition has_refresh_token :: "oauth_bundle \<Rightarrow> bool" where
  "has_refresh_token b = (case ob_refresh_token b of None \<Rightarrow> False | Some token \<Rightarrow> \<not> blank token)"

definition due_refresh :: "'n oauth_env \<Rightarrow> string \<Rightarrow> 'n \<Rightarrow> 'n \<times> (error + oauth_bundle option)" where
  "due_refresh E sid n =
     sbind (oe_load E sid n) (\<lambda>stored n.
       case bt_get stored oauth_bundle_key of
         None \<Rightarrow> (n, Inr None)
       | Some raw \<Rightarrow> (case read_bundle E raw of
           Inl err \<Rightarrow> (n, Inl (MalformedResponse (''stored oauth bundle is unreadable: '' @ err)))
         | Inr bundle \<Rightarrow>
             (let (n, now) = oe_now E n
              in if now + refresh_skew_secs < ob_expires_at bundle then (n, Inr None)
                 else (n, Inr (if has_refresh_token bundle then Some bundle else None)))))"

definition superseded :: "'n oauth_env \<Rightarrow> string \<Rightarrow> oauth_bundle \<Rightarrow> 'n \<Rightarrow> 'n \<times> (error + bool)" where
  "superseded E sid bundle n =
     sbind (oe_load E sid n) (\<lambda>stored n.
       let current = Option.bind (bt_get stored oauth_bundle_key) (\<lambda>raw. ok (read_bundle E raw))
       in (n, Inr (current \<noteq> Some bundle)))"

definition bundle_of :: "string \<Rightarrow> string option \<Rightarrow> string \<Rightarrow> token_response \<Rightarrow> u64 \<Rightarrow> oauth_bundle" where
  "bundle_of client_id client_secret token_endpoint tokens now =
     \<lparr>ob_refresh_token = tr_refresh_token tokens, ob_client_id = client_id,
      ob_client_secret = client_secret, ob_token_endpoint = token_endpoint,
      ob_expires_at = sat_add now (case tr_expires_in tokens of
        None \<Rightarrow> default_token_lifetime_secs | Some lifetime \<Rightarrow> lifetime)\<rparr>"

definition merge_tokens :: "'n oauth_env \<Rightarrow> token_response \<Rightarrow> oauth_bundle \<Rightarrow>
    (string, string) btree \<Rightarrow> (string, string) btree" where
  "merge_tokens E tokens bundle stored =
     bt_insert oauth_bundle_key (oe_print_json E (enc_bundle bundle))
       (bt_insert access_token_key (''Bearer '' @ tr_access_token tokens) stored)"

definition persist :: "'n oauth_env \<Rightarrow> string \<Rightarrow> string \<Rightarrow> string option \<Rightarrow> string \<Rightarrow> token_response \<Rightarrow>
    'n \<Rightarrow> 'n \<times> (error + unit)" where
  "persist E sid client_id client_secret token_endpoint tokens n =
     (let (n, now) = oe_now E n;
          bundle = bundle_of client_id client_secret token_endpoint tokens now
      in sbind (oe_load E sid n) (\<lambda>stored n. oe_save E sid (merge_tokens E tokens bundle stored) n))"

definition secret_field :: "string option \<Rightarrow> (string \<times> string) list" where
  "secret_field secret = (case secret of None \<Rightarrow> [] | Some s \<Rightarrow> [(''client_secret'', s)])"

definition exchange_refresh :: "'n oauth_env \<Rightarrow> http_client \<Rightarrow> string \<Rightarrow> oauth_bundle \<Rightarrow> 'n \<Rightarrow>
    'n \<times> (error + bool)" where
  "exchange_refresh E client sid bundle n =
     (case ob_refresh_token bundle of
        None \<Rightarrow> (n, Inr False)
      | Some refresh_token \<Rightarrow>
          if blank refresh_token then (n, Inr False)
          else
            sbind (post_form E client (ob_token_endpoint bundle)
                ([(''grant_type'', ''refresh_token''), (''refresh_token'', refresh_token),
                  (''client_id'', ob_client_id bundle)] @ secret_field (ob_client_secret bundle)) n)
            (\<lambda>body n. sbind (n, parse_tokens body) (\<lambda>tokens n.
              let tokens = (if tr_refresh_token tokens = None
                            then tokens\<lparr>tr_refresh_token := ob_refresh_token bundle\<rparr> else tokens)
              in sbind (superseded E sid bundle n) (\<lambda>newer n.
                   if newer then (n, Inr False)
                   else sbind (persist E sid (ob_client_id bundle) (ob_client_secret bundle)
                                 (ob_token_endpoint bundle) tokens n) (\<lambda>_ n. (n, Inr True))))))"

definition refresh_if_expired :: "'n oauth_env \<Rightarrow> http_client \<Rightarrow> string \<Rightarrow> 'n \<Rightarrow> 'n \<times> (error + bool)" where
  "refresh_if_expired E client sid n =
     sbind (due_refresh E sid n) (\<lambda>due n. case due of
         None \<Rightarrow> (n, Inr False) | Some bundle \<Rightarrow> exchange_refresh E client sid bundle n)"

section \<open>The flow\<close>

record oauth_flow =
  public_endpoints_only :: bool
  client_name :: string

definition default_client_name :: string where "default_client_name = ''TinyMCP''"

definition oauth_flow_new :: oauth_flow where
  "oauth_flow_new = \<lparr>public_endpoints_only = False, client_name = default_client_name\<rparr>"

definition with_client_name :: "string \<Rightarrow> oauth_flow \<Rightarrow> oauth_flow" where
  "with_client_name name F =
     (let name = trim name in if name \<noteq> [] then F\<lparr>client_name := name\<rparr> else F)"

definition require_public_endpoints :: "oauth_flow \<Rightarrow> oauth_flow" where
  "require_public_endpoints F = F\<lparr>public_endpoints_only := True\<rparr>"

definition flow_http :: "oauth_flow \<Rightarrow> http_client" where
  "flow_http F = (if public_endpoints_only F then NoRedirectClient else FlowClient)"

definition probe_client :: "oauth_flow \<Rightarrow> 'n oauth_env \<Rightarrow> string \<Rightarrow> 'n \<Rightarrow> error + addresses option" where
  "probe_client F E url n =
     rbind (if public_endpoints_only F
            then rbind (guard_endpoint (guard_at E n) url ''MCP'') (\<lambda>addresses. Inr (Some addresses))
            else Inr None)
       (\<lambda>pin. case oe_probe_build E url pin of Some err \<Rightarrow> Inl err | None \<Rightarrow> Inr pin)"

definition registration_client :: "oauth_flow \<Rightarrow> 'n oauth_env \<Rightarrow> string \<Rightarrow> string \<Rightarrow> string \<Rightarrow> 'n \<Rightarrow>
    error + http_client option" where
  "registration_client F E authorization_endpoint token_endpoint registration_endpoint n =
     (if public_endpoints_only F then
        rbind (guard_endpoint (guard_at E n) authorization_endpoint ''authorization'') (\<lambda>_.
        rbind (guard_endpoint (guard_at E n) token_endpoint ''token'') (\<lambda>_.
        rbind (guarded_client E registration_endpoint ''registration'' n) (\<lambda>client. Inr (Some client))))
      else Inr None)"

definition token_client :: "oauth_flow \<Rightarrow> 'n oauth_env \<Rightarrow> string \<Rightarrow> 'n \<Rightarrow> error + http_client option" where
  "token_client F E token_endpoint n =
     (if public_endpoints_only F
      then rbind (guarded_client E token_endpoint ''token'' n) (\<lambda>client. Inr (Some client))
      else Inr None)"

definition or_flow :: "http_client option \<Rightarrow> http_client" where
  "or_flow client = (case client of Some c \<Rightarrow> c | None \<Rightarrow> FlowClient)"

definition register_client :: "oauth_flow \<Rightarrow> 'n oauth_env \<Rightarrow> http_client \<Rightarrow> string \<Rightarrow> string \<Rightarrow> 'n \<Rightarrow>
    'n \<times> (error + string \<times> string option)" where
  "register_client F E client registration_endpoint redirect_uri n =
     (let body = jobject
            [(''client_name'', JStr (client_name F)),
             (''redirect_uris'', JArr [JStr redirect_uri]),
             (''grant_types'', JArr [JStr ''authorization_code'', JStr ''refresh_token'']),
             (''response_types'', JArr [JStr ''code'']),
             (''token_endpoint_auth_method'', JStr ''client_secret_post'')]
      in sbind (read_reply E registration_endpoint ''client registration''
                 (oe_post E client registration_endpoint (JsonBody body) n))
         (\<lambda>registered n.
            case Option.bind (jget ''client_id'' registered) as_str of
              None \<Rightarrow> (n, Inl (MalformedResponse ''client registration returned no client_id''))
            | Some cid \<Rightarrow>
                (n, Inr (cid, Option.bind (jget ''client_secret'' registered) as_str))))"

definition generate_pkce :: "'n oauth_env \<Rightarrow> 'n \<Rightarrow> 'n \<times> string \<times> string" where
  "generate_pkce E n =
     (let (n, a) = oe_uuid E n; (n, b) = oe_uuid E n; (n, c) = oe_uuid E n;
          verifier = oe_base64 E (a @ b @ c);
          challenge = oe_base64 E (oe_sha256 E verifier)
      in (n, verifier, challenge))"

definition detect :: "oauth_flow \<Rightarrow> 'n oauth_env \<Rightarrow> string \<Rightarrow> 'n \<Rightarrow> 'n \<times> (error + auth_detection)" where
  "detect F E sid n =
     sbind (oe_remote_url E sid n) (\<lambda>found n. case found of
         None \<Rightarrow> (n, Inr detection_open)
       | Some url \<Rightarrow>
           sbind (n, probe_client F E url n) (\<lambda>pin n.
             case oe_discover E url pin n of
               (n, Inr None) \<Rightarrow> (n, Inr detection_open)
             | (n, Inr (Some context)) \<Rightarrow>
                 (n, Inr (case Option.bind (find can_drive_sign_in (ac_servers context)) (\<lambda>m.
                            map_option (\<lambda>endpoint. detection_oauth endpoint (as_grant_types_supported m))
                              (as_authorization_endpoint m)) of
                          Some d \<Rightarrow> d | None \<Rightarrow> detection_static_token))
             | (n, Inl _) \<Rightarrow> (n, Inr detection_static_token)))"

text \<open>The choice of an authorization server in \<open>begin\<close>, with its three endpoints.\<close>

definition choose_server :: "authorization_context \<Rightarrow> error + string \<times> string \<times> string" where
  "choose_server context =
     rbind (ok_or
         (AuthDiscovery
            (if ac_servers context = [] then ''the server advertises no authorization server''
             else ''no authorization server offers an authorize endpoint, a token endpoint, and dynamic client registration together'')
            (ac_challenge context))
         (find can_drive_sign_in (ac_servers context)))
       (\<lambda>m. case (as_authorization_endpoint m, as_token_endpoint m, as_registration_endpoint m) of
          (Some a, Some t, Some r) \<Rightarrow> Inr (a, t, r)
        | _ \<Rightarrow> Inl (MalformedResponse ''the chosen authorization server lost an endpoint between checks''))"

text \<open>The end of \<open>begin\<close>: park what the redirect will need, and name it in the URL.\<close>

definition issue_url :: "'n oauth_env \<Rightarrow> string \<Rightarrow> string \<Rightarrow> string \<Rightarrow> string \<Rightarrow> string \<Rightarrow>
    string \<times> string option \<Rightarrow> 'n \<Rightarrow> 'n \<times> (error + string)" where
  "issue_url E sid redirect_uri url authorization_endpoint token_endpoint client n =
     (let (client_id, client_secret) = client;
          (n, code_verifier, code_challenge) = generate_pkce E n;
          (n, state_id) = oe_uuid E n;
          state = oe_uuid_text E state_id;
          (n, now) = oe_now E n
      in sbind (oe_park E state \<lparr>pa_server_id = sid, pa_code_verifier = code_verifier,
                  pa_client_id = client_id, pa_client_secret = client_secret,
                  pa_token_endpoint = token_endpoint, pa_redirect_uri = redirect_uri,
                  pa_started_at = now\<rparr> n) (\<lambda>_ n.
         case oe_with_params E authorization_endpoint
                [(''response_type'', ''code''), (''client_id'', client_id),
                 (''redirect_uri'', redirect_uri), (''code_challenge'', code_challenge),
                 (''code_challenge_method'', ''S256''), (''state'', state), (''resource'', url)] of
           Inl err \<Rightarrow> (n, Inl (MalformedResponse (''could not build an authorize url: '' @ err)))
         | Inr authorize_url \<Rightarrow> (n, Inr authorize_url)))"

text \<open>\<open>begin\<close> is a keyword of the prover.\<close>

definition begin_flow :: "oauth_flow \<Rightarrow> 'n oauth_env \<Rightarrow> string \<Rightarrow> string \<Rightarrow> 'n \<Rightarrow> 'n \<times> (error + string)" where
  "begin_flow F E sid redirect_uri n =
     sbind (oe_remote_url E sid n) (\<lambda>found n.
     sbind (n, ok_or (MalformedResponse ''oauth applies only to http-remote servers'') found) (\<lambda>url n.
     sbind (n, probe_client F E url n) (\<lambda>pin n.
     sbind (oe_discover E url pin n) (\<lambda>context n.
     sbind (n, ok_or (MalformedResponse ''the server does not require authorization'') context) (\<lambda>context n.
     sbind (n, choose_server context) (\<lambda>(authorization_endpoint, token_endpoint, registration_endpoint) n.
     sbind (n, registration_client F E authorization_endpoint token_endpoint registration_endpoint n)
       (\<lambda>guarded n.
     sbind (register_client F E (or_flow guarded) registration_endpoint redirect_uri n)
       (issue_url E sid redirect_uri url authorization_endpoint token_endpoint))))))))"

text \<open>\<open>complete\<close>, in the two stages the store's atomic \<open>take\<close> separates.\<close>

definition fresh :: "u64 \<Rightarrow> pending_authorization option \<Rightarrow> pending_authorization option" where
  "fresh now found =
     (case found of None \<Rightarrow> None | Some p \<Rightarrow> if expired_at p now then None else Some p)"

definition claim_pending :: "'n oauth_env \<Rightarrow> string \<Rightarrow> 'n \<Rightarrow> 'n \<times> (error + pending_authorization)" where
  "claim_pending E state n =
     (let (n, now) = oe_now E n
      in sbind (oe_take E state n) (\<lambda>found n.
           (n, ok_or (MalformedResponse ''unknown or expired oauth state'') (fresh now found))))"

definition exchange_code :: "oauth_flow \<Rightarrow> 'n oauth_env \<Rightarrow> string \<Rightarrow> pending_authorization \<Rightarrow> 'n \<Rightarrow>
    'n \<times> (error + string)" where
  "exchange_code F E code pending n =
     sbind (n, token_client F E (pa_token_endpoint pending) n) (\<lambda>guarded n.
     sbind (post_form E (or_flow guarded) (pa_token_endpoint pending)
         ([(''grant_type'', ''authorization_code''), (''code'', code),
           (''redirect_uri'', pa_redirect_uri pending), (''client_id'', pa_client_id pending),
           (''code_verifier'', pa_code_verifier pending)] @ secret_field (pa_client_secret pending)) n)
       (\<lambda>body n. sbind (n, parse_tokens body) (\<lambda>tokens n.
     sbind (persist E (pa_server_id pending) (pa_client_id pending) (pa_client_secret pending)
         (pa_token_endpoint pending) tokens n) (\<lambda>_ n. (n, Inr (pa_server_id pending))))))"

definition complete :: "oauth_flow \<Rightarrow> 'n oauth_env \<Rightarrow> string \<Rightarrow> string \<Rightarrow> 'n \<Rightarrow> 'n \<times> (error + string)" where
  "complete F E state code n = sbind (claim_pending E state n) (exchange_code F E code)"

definition refresh :: "oauth_flow \<Rightarrow> 'n oauth_env \<Rightarrow> string \<Rightarrow> 'n \<Rightarrow> 'n \<times> (error + bool)" where
  "refresh F E sid n =
     sbind (due_refresh E sid n) (\<lambda>due n. case due of
         None \<Rightarrow> (n, Inr False)
       | Some bundle \<Rightarrow>
           sbind (n, token_client F E (ob_token_endpoint bundle) n) (\<lambda>guarded n.
             exchange_refresh E (or_flow guarded) sid bundle n))"

definition pending_server :: "'n oauth_env \<Rightarrow> string \<Rightarrow> 'n \<Rightarrow> 'n \<times> (error + string option)" where
  "pending_server E state n =
     (let (n, now) = oe_now E n
      in sbind (oe_peek E state n) (\<lambda>found n. (n, Inr (map_option pa_server_id (fresh now found)))))"

definition pending_count :: "'n oauth_env \<Rightarrow> 'n \<Rightarrow> 'n \<times> (error + nat)" where
  "pending_count E n = oe_count E n"

section \<open>Requests leave only for checked endpoints\<close>

text \<open>
  A request is vetted when its endpoint is \<open>https\<close> and its client can reach nothing but public
  addresses: the literal address of the host, or the addresses the client is pinned to.
\<close>

definition vetted :: "'n oauth_env \<Rightarrow> http_client \<Rightarrow> string \<Rightarrow> bool" where
  "vetted E client raw =
     (case oe_parse_url E raw of
        Inl _ \<Rightarrow> False
      | Inr u \<Rightarrow> url_scheme u = ''https'' \<and>
          (case url_host u of
             None \<Rightarrow> False
           | Some host \<Rightarrow> (case oe_parse_ip E (strip_brackets host) of
               Some ip \<Rightarrow> client = PinnedClient None \<and> \<not> is_blocked_ip ip
             | None \<Rightarrow> (case client of
                 PinnedClient (Some (name, addresses)) \<Rightarrow> name = strip_brackets host \<and>
                   addresses \<noteq> [] \<and> list_all (\<lambda>(ip, _). \<not> is_blocked_ip ip) addresses
               | _ \<Rightarrow> False))))"

definition vetted_probe :: "'n oauth_env \<Rightarrow> string \<Rightarrow> addresses option \<Rightarrow> bool" where
  "vetted_probe E raw pin =
     (case (oe_parse_url E raw, pin) of
        (Inr u, Some addresses) \<Rightarrow> url_scheme u = ''https'' \<and> addresses \<noteq> [] \<and>
          list_all (\<lambda>(ip, _). \<not> is_blocked_ip ip) addresses
      | _ \<Rightarrow> False)"

definition divert :: "'n oauth_env \<Rightarrow>
    (http_client \<Rightarrow> string \<Rightarrow> post_body \<Rightarrow> 'n \<Rightarrow> 'n \<times> (source_error + u16 \<times> string)) \<Rightarrow>
    (string \<Rightarrow> addresses option \<Rightarrow> 'n \<Rightarrow> 'n \<times> (error + authorization_context option)) \<Rightarrow>
    'n oauth_env" where
  "divert E post discover = E\<lparr>
     oe_post := \<lambda>client raw body n.
       if vetted E client raw then oe_post E client raw body n else post client raw body n,
     oe_discover := \<lambda>raw pin n.
       if vetted_probe E raw pin then oe_discover E raw pin n else discover raw pin n\<rparr>"

lemma divert_simps [simp]:
  "oe_remote_url (divert E pst dsc) = oe_remote_url E" "oe_load (divert E pst dsc) = oe_load E"
  "oe_save (divert E pst dsc) = oe_save E" "oe_park (divert E pst dsc) = oe_park E"
  "oe_take (divert E pst dsc) = oe_take E" "oe_peek (divert E pst dsc) = oe_peek E"
  "oe_now (divert E pst dsc) = oe_now E" "oe_uuid (divert E pst dsc) = oe_uuid E"
  "oe_uuid_text (divert E pst dsc) = oe_uuid_text E" "oe_base64 (divert E pst dsc) = oe_base64 E"
  "oe_sha256 (divert E pst dsc) = oe_sha256 E" "oe_parse_url (divert E pst dsc) = oe_parse_url E"
  "oe_parse_ip (divert E pst dsc) = oe_parse_ip E" "oe_resolve (divert E pst dsc) = oe_resolve E"
  "oe_client_build (divert E pst dsc) = oe_client_build E"
  "oe_probe_build (divert E pst dsc) = oe_probe_build E"
  "oe_parse_json (divert E pst dsc) = oe_parse_json E" "oe_print_json (divert E pst dsc) = oe_print_json E"
  "oe_shape_error (divert E pst dsc) = oe_shape_error E"
  "oe_with_params (divert E pst dsc) = oe_with_params E"
  by (simp_all add: divert_def)

lemmas case_congs = sum.case_cong option.case_cong prod.case_cong json.case_cong if_cong

lemma divert_text [simp]:
  "oauth_failure_reason (divert E pst dsc) = oauth_failure_reason E"
  "read_bundle (divert E pst dsc) = read_bundle E"
  "merge_tokens (divert E pst dsc) = merge_tokens E"
  "client_pinned_to (divert E pst dsc) = client_pinned_to E"
  "guard_at (divert E pst dsc) = guard_at E"
  by (simp_all add: fun_eq_iff oauth_failure_reason_def read_bundle_def merge_tokens_def
      client_pinned_to_def guard_at_def cong: case_congs)

lemma divert_calls [simp]:
  "guarded_client (divert E pst dsc) = guarded_client E"
  "read_reply (divert E pst dsc) = read_reply E"
  "due_refresh (divert E pst dsc) = due_refresh E"
  "superseded (divert E pst dsc) = superseded E"
  "persist (divert E pst dsc) = persist E"
  "probe_client F (divert E pst dsc) = probe_client F E"
  "claim_pending (divert E pst dsc) = claim_pending E"
  "generate_pkce (divert E pst dsc) = generate_pkce E"
  by (simp_all add: fun_eq_iff guarded_client_def read_reply_def due_refresh_def superseded_def persist_def
      probe_client_def claim_pending_def generate_pkce_def case_prod_beta Let_def cong: case_congs)

lemma divert_clients [simp]:
  "token_client F (divert E pst dsc) = token_client F E"
  "registration_client F (divert E pst dsc) = registration_client F E"
  "issue_url (divert E pst dsc) = issue_url E"
  by (simp_all add: fun_eq_iff token_client_def registration_client_def issue_url_def case_prod_beta Let_def
      cong: case_congs)

lemma guard_admits:
  assumes "guard_endpoint (guard_at E n) raw what = Inr addresses"
  obtains u host where "oe_parse_url E raw = Inr u" "url_scheme u = ''https''" "url_host u = Some host"
    "addresses \<noteq> []" "list_all (\<lambda>(ip, _). \<not> is_blocked_ip ip) addresses"
    "\<forall>ip. oe_parse_ip E (strip_brackets host) = Some ip \<longrightarrow> \<not> is_blocked_ip ip"
proof -
  have "\<exists>u host. oe_parse_url E raw = Inr u \<and> url_scheme u = ''https'' \<and> url_host u = Some host \<and>
    addresses \<noteq> [] \<and> list_all (\<lambda>(ip, _). \<not> is_blocked_ip ip) addresses \<and>
    (\<forall>ip. oe_parse_ip E (strip_brackets host) = Some ip \<longrightarrow> \<not> is_blocked_ip ip)"
    using assms
    by (auto simp: guard_endpoint_def guard_at_def checked_addresses_def Let_def rbind_eq_Inr
        list_ex_iff list_all_iff split: sum.splits option.splits if_splits)
  then obtain u host where "oe_parse_url E raw = Inr u" "url_scheme u = ''https''" "url_host u = Some host"
    "addresses \<noteq> []" "list_all (\<lambda>(ip, _). \<not> is_blocked_ip ip) addresses"
    "\<forall>ip. oe_parse_ip E (strip_brackets host) = Some ip \<longrightarrow> \<not> is_blocked_ip ip" by (elim exE conjE)
  then show thesis by (intro that) simp_all
qed

lemma guarded_client_vetted:
  assumes "guarded_client E raw what n = Inr client"
  shows "vetted E client raw"
proof -
  obtain addresses where g: "guard_endpoint (guard_at E n) raw what = Inr addresses"
    and rest: "(case oe_parse_url E raw of
         Inl err \<Rightarrow> Inl (MalformedResponse (''invalid '' @ what @ '' url: '' @ err))
       | Inr u \<Rightarrow> (case url_host u of
           None \<Rightarrow> Inl (MalformedResponse (what @ '' endpoint has no host''))
         | Some host \<Rightarrow> client_pinned_to E (strip_brackets host) addresses)) = Inr client"
    using assms by (auto simp: guarded_client_def rbind_eq_Inr)
  obtain u host where u: "oe_parse_url E raw = Inr u" "url_scheme u = ''https''" "url_host u = Some host"
      "addresses \<noteq> []" "list_all (\<lambda>(ip, _). \<not> is_blocked_ip ip) addresses"
      "\<forall>ip. oe_parse_ip E (strip_brackets host) = Some ip \<longrightarrow> \<not> is_blocked_ip ip"
    by (rule guard_admits [OF g])
  have "client = PinnedClient (if oe_parse_ip E (strip_brackets host) = None
      then Some (strip_brackets host, addresses) else None)"
    using rest u(1,3) by (auto simp: client_pinned_to_def Let_def split: option.splits)
  then show ?thesis using u by (cases "oe_parse_ip E (strip_brackets host)") (simp_all add: vetted_def)
qed

lemma post_form_divert:
  "vetted E client raw \<Longrightarrow> post_form (divert E pst dsc) client raw form n = post_form E client raw form n"
  by (simp add: post_form_def) (simp add: divert_def)

lemma exchange_refresh_divert:
  assumes "vetted E client (ob_token_endpoint bundle)"
  shows "exchange_refresh (divert E pst dsc) client sid bundle n = exchange_refresh E client sid bundle n"
  by (auto simp: exchange_refresh_def post_form_divert [OF assms] Let_def intro!: sbind_ext split: option.split)

lemma token_client_vetted:
  "token_client (require_public_endpoints F) E ep n = Inr guarded \<Longrightarrow> vetted E (or_flow guarded) ep"
  by (auto simp: token_client_def require_public_endpoints_def or_flow_def rbind_eq_Inr
      intro: guarded_client_vetted)

lemma registration_client_vetted:
  "registration_client (require_public_endpoints F) E a t r n = Inr guarded \<Longrightarrow> vetted E (or_flow guarded) r"
  by (auto simp: registration_client_def require_public_endpoints_def or_flow_def rbind_eq_Inr
      intro: guarded_client_vetted)

lemma discover_divert:
  assumes "probe_client (require_public_endpoints F) E url n = Inr pin"
  shows "oe_discover (divert E pst dsc) url pin n1 = oe_discover E url pin n1"
proof -
  obtain addresses where "pin = Some addresses" "guard_endpoint (guard_at E n) url ''MCP'' = Inr addresses"
    using assms by (auto simp: probe_client_def require_public_endpoints_def rbind_eq_Inr split: option.splits)
  then have "vetted_probe E url pin"
    by (auto simp: vetted_probe_def elim!: guard_admits)
  then show ?thesis by (simp add: divert_def)
qed

lemma register_client_divert:
  "vetted E client r \<Longrightarrow> register_client F (divert E pst dsc) client r uri n = register_client F E client r uri n"
  by (simp add: register_client_def Let_def) (simp add: divert_def)

text \<open>
  C4. No server can aim a guarded sign-in at an internal address. Under
  \<open>require_public_endpoints\<close> the four operations of the flow do exactly what they do when every
  request that is not vetted, the probe of the server, the registration, the code exchange and
  the refresh alike, is replaced by something else: they never make one.
\<close>

theorem guarded_flow_vets_requests:
  "let G = require_public_endpoints F; E' = divert E post discover
   in detect G E' sid n = detect G E sid n \<and>
      begin_flow G E' sid redirect_uri n = begin_flow G E sid redirect_uri n \<and>
      complete G E' state code n = complete G E state code n \<and>
      refresh G E' sid n = refresh G E sid n"
  unfolding Let_def
proof (intro conjI)
  let ?F = "require_public_endpoints F" and ?E = "divert E post discover"
  have probe: "oe_discover ?E url pin n1 = oe_discover E url pin n1"
    if "probe_client ?F E url n1 = Inr pin" for url pin n1
    using that by (rule discover_divert)
  have exchange: "exchange_refresh ?E (or_flow gc) sid b n1 =
      exchange_refresh E (or_flow gc) sid b n1"
    if "token_client ?F E (ob_token_endpoint b) n1 = Inr gc" for gc b n1
    using that by (intro exchange_refresh_divert token_client_vetted)
  have form: "post_form ?E (or_flow gc) ep fs n1 =
      post_form E (or_flow gc) ep fs n1"
    if "token_client ?F E ep n1 = Inr gc" for gc ep fs n1
    using that by (intro post_form_divert token_client_vetted)
  have register: "register_client ?F ?E (or_flow gc) r redirect_uri n1 =
      register_client ?F E (or_flow gc) r redirect_uri n1"
    if "registration_client ?F E a t r n1 = Inr gc" for gc a t r n1
    using that by (intro register_client_divert registration_client_vetted)
  show "detect ?F ?E sid n = detect ?F E sid n"
    by (auto simp: detect_def probe intro!: sbind_ext split: option.split)
  show "begin_flow ?F ?E sid redirect_uri n = begin_flow ?F E sid redirect_uri n"
    by (auto simp: begin_flow_def probe register case_prod_beta Let_def intro!: sbind_ext)
  show "complete ?F ?E state code n = complete ?F E state code n"
    by (auto simp: complete_def exchange_code_def form intro!: sbind_ext)
  show "refresh ?F ?E sid n = refresh ?F E sid n"
    by (auto simp: refresh_def exchange intro!: sbind_ext split: option.split)
qed

section \<open>The flow over its default store\<close>

text \<open>\<open>OAuthFlow::new\<close> parks in the memory of the process: the environment's other calls leave
  that memory alone, and each store operation reads the clock first.\<close>

definition lift :: "('n \<Rightarrow> 'n \<times> 'a) \<Rightarrow> memory_store \<times> 'n \<Rightarrow> (memory_store \<times> 'n) \<times> 'a" where
  "lift f w = (case w of (m, n) \<Rightarrow> (case f n of (n, a) \<Rightarrow> ((m, n), a)))"

definition over_memory :: "'n oauth_env \<Rightarrow> (u64 \<Rightarrow> memory_store \<Rightarrow> memory_store \<times> 'a) \<Rightarrow>
    memory_store \<times> 'n \<Rightarrow> (memory_store \<times> 'n) \<times> 'a" where
  "over_memory E f w = (case w of (m, n) \<Rightarrow> (case oe_now E n of (n, now) \<Rightarrow>
     (case f now m of (m, a) \<Rightarrow> ((m, n), a))))"

definition on_memory :: "'n oauth_env \<Rightarrow> (memory_store \<times> 'n) oauth_env" where
  "on_memory E = \<lparr>
     oe_remote_url = \<lambda>sid. lift (oe_remote_url E sid),
     oe_load = \<lambda>sid. lift (oe_load E sid),
     oe_save = \<lambda>sid m. lift (oe_save E sid m),
     oe_park = \<lambda>st p. over_memory E (\<lambda>now. mem_park now st p),
     oe_take = \<lambda>st. over_memory E (\<lambda>now. mem_take now st),
     oe_peek = \<lambda>st. over_memory E (\<lambda>now. mem_peek now st),
     oe_count = over_memory E mem_count,
     oe_now = lift (oe_now E),
     oe_uuid = lift (oe_uuid E),
     oe_uuid_text = oe_uuid_text E,
     oe_base64 = oe_base64 E,
     oe_sha256 = oe_sha256 E,
     oe_parse_url = oe_parse_url E,
     oe_parse_ip = oe_parse_ip E,
     oe_resolve = \<lambda>host port w. oe_resolve E host port (snd w),
     oe_client_build = oe_client_build E,
     oe_probe_build = oe_probe_build E,
     oe_discover = \<lambda>raw pin. lift (oe_discover E raw pin),
     oe_post = \<lambda>client raw body. lift (oe_post E client raw body),
     oe_parse_json = oe_parse_json E,
     oe_print_json = oe_print_json E,
     oe_shape_error = oe_shape_error E,
     oe_with_params = oe_with_params E\<rparr>"

lemma on_memory_simps:
  "oe_remote_url (on_memory E) = (\<lambda>sid. lift (oe_remote_url E sid))"
  "oe_load (on_memory E) = (\<lambda>sid. lift (oe_load E sid))"
  "oe_save (on_memory E) = (\<lambda>sid m. lift (oe_save E sid m))"
  "oe_park (on_memory E) = (\<lambda>st p. over_memory E (\<lambda>now. mem_park now st p))"
  "oe_take (on_memory E) = (\<lambda>st. over_memory E (\<lambda>now. mem_take now st))"
  "oe_peek (on_memory E) = (\<lambda>st. over_memory E (\<lambda>now. mem_peek now st))"
  "oe_count (on_memory E) = (over_memory E mem_count)"
  "oe_now (on_memory E) = (lift (oe_now E))"
  "oe_uuid (on_memory E) = (lift (oe_uuid E))"
  "oe_uuid_text (on_memory E) = (oe_uuid_text E)"
  "oe_base64 (on_memory E) = (oe_base64 E)"
  "oe_sha256 (on_memory E) = (oe_sha256 E)"
  "oe_parse_url (on_memory E) = (oe_parse_url E)"
  "oe_parse_ip (on_memory E) = (oe_parse_ip E)"
  "oe_resolve (on_memory E) = (\<lambda>host port w. oe_resolve E host port (snd w))"
  "oe_client_build (on_memory E) = (oe_client_build E)"
  "oe_probe_build (on_memory E) = (oe_probe_build E)"
  "oe_discover (on_memory E) = (\<lambda>raw pin. lift (oe_discover E raw pin))"
  "oe_post (on_memory E) = (\<lambda>client raw body. lift (oe_post E client raw body))"
  "oe_parse_json (on_memory E) = (oe_parse_json E)"
  "oe_print_json (on_memory E) = (oe_print_json E)"
  "oe_shape_error (on_memory E) = (oe_shape_error E)"
  "oe_with_params (on_memory E) = (oe_with_params E)"
  by (simp_all add: on_memory_def)

text \<open>What an operation does to the store: nothing, for every call but those of the store.\<close>

definition same_memory :: "memory_store \<times> 'n \<Rightarrow> (memory_store \<times> 'n) \<times> 'a \<Rightarrow> bool" where
  "same_memory w x = (fst (fst x) = fst w)"

lemma same_memory_lift [intro, simp]: "same_memory w (lift f w)"
  by (simp add: same_memory_def lift_def split: prod.split)

lemma same_memory_pair [simp]: "same_memory w (w', a) \<longleftrightarrow> fst w' = fst w"
  by (auto simp: same_memory_def)

lemma same_memory_sbind [intro]:
  "same_memory w x \<Longrightarrow> (\<And>w' a. x = (w', Inr a) \<Longrightarrow> same_memory w' (f a w')) \<Longrightarrow> same_memory w (sbind x f)"
  by (cases x; cases "snd x") (auto simp: same_memory_def)

lemma same_memory_clock: "oe_now (on_memory E) w = (w', now) \<Longrightarrow> fst w' = fst w"
  using same_memory_lift [of w "oe_now E"] by (auto simp: on_memory_def)

lemma same_memory_reply [intro, simp]: "same_memory w x \<Longrightarrow> same_memory w (read_reply E endpoint what x)"
  by (auto simp: read_reply_def same_memory_def split: prod.splits sum.splits)

lemma same_memory_post [simp]: "same_memory w (post_form (on_memory E) client ep form w)"
  unfolding post_form_def by (rule same_memory_reply) (simp add: on_memory_def)

lemma same_memory_persist [simp]: "same_memory w (persist (on_memory E) sid cid sec ep tokens w)"
proof -
  obtain w' now where w: "oe_now (on_memory E) w = (w', now)" by (cases "oe_now (on_memory E) w")
  have "same_memory w' (sbind (oe_load (on_memory E) sid w')
      (\<lambda>stored n. oe_save (on_memory E) sid (merge_tokens (on_memory E) tokens (bundle_of cid sec ep tokens now) stored) n))"
    by (rule same_memory_sbind) (simp_all add: on_memory_def)
  then show ?thesis
    by (simp add: persist_def w same_memory_def same_memory_clock [OF w])
qed

lemma same_memory_exchange: "same_memory w (exchange_code F (on_memory E) code p w)"
  unfolding exchange_code_def by (intro same_memory_sbind) auto

lemma claim_on_memory:
  "claim_pending (on_memory E) st (m, n) =
     (let (n1, now) = oe_now E n; (n2, later) = oe_now E n1; (m', found) = mem_take later st m
      in ((m', n2), rbind found
            (\<lambda>p. ok_or (MalformedResponse ''unknown or expired oauth state'') (fresh now p))))"
  by (simp add: claim_pending_def on_memory_def lift_def over_memory_def mem_take_def Let_def split: prod.split)

definition parks_state :: "string \<Rightarrow> store_op \<Rightarrow> bool" where
  "parks_state st x = (case x of Park _ st' _ \<Rightarrow> st' = st | _ \<Rightarrow> False)"

lemma unparked_run:
  assumes "st \<notin> fst ` set m" "list_all (\<lambda>x. \<not> parks_state st x) xs"
  shows "st \<notin> fst ` set (run_ops store_step m xs)"
  using assms
proof (induction xs arbitrary: m)
  case (Cons x xs)
  have "st \<notin> fst ` set (store_step m x)"
  proof (cases x)
    case (Park now st' p)
    then show ?thesis
      using Cons.prems set_update [of st' p "pruned now m"] set_pruned [of now m]
      by (auto simp: parks_state_def) force
  qed (use Cons.prems(1) set_pruned in \<open>force simp: AList.delete_eq\<close>)+
  with Cons show ?case by simp
qed simp

text \<open>
  C14. One state, one exchange. Once a completion has been started for a state, whatever came of
  it, and whatever else happens to the store, short of somebody parking under that very state
  again, a further completion of the state is refused without a request to anybody: all it does
  to the world is read the clock.
\<close>

theorem code_exchanged_once:
  assumes "complete F (on_memory E) st code (m, n) = ((m1, n1), outcome)"
    and "list_all (\<lambda>x. \<not> parks_state st x) later"
  shows "\<exists>m3. complete F (on_memory E) st code' (run_ops store_step m1 later, n2) =
    ((m3, fst (oe_now E (fst (oe_now E n2)))),
     Inl (MalformedResponse ''unknown or expired oauth state''))"
proof -
  obtain w r where claim: "claim_pending (on_memory E) st (m, n) = (w, r)"
    by (cases "claim_pending (on_memory E) st (m, n)")
  have "same_memory w (complete F (on_memory E) st code (m, n))"
    using same_memory_exchange [of w F E code] claim by (cases r) (simp_all add: complete_def)
  then have "fst w = m1" by (simp add: assms(1))
  moreover have "st \<notin> fst ` set (fst w)"
    using claim by (auto simp: claim_on_memory mem_take_def AList.delete_eq Let_def split: prod.splits)
  ultimately have "st \<notin> fst ` set (run_ops store_step m1 later)" using unparked_run assms(2) by blast
  then have "map_of (pruned now (run_ops store_step m1 later)) st = None" for now
    using set_pruned [of now] by (force simp: map_of_eq_None_iff)
  then show ?thesis
    by (simp add: complete_def claim_on_memory mem_take_def fresh_def Let_def split: prod.split)
qed

lemma issue_url_Inr:
  assumes "issue_url E sid redirect_uri url endpoint token_endpoint client w = (w1, Inr authorize_url)"
  obtains state p w' where "oe_park E state p w' = (w1, Inr ())"
    "pa_server_id p = sid" "pa_redirect_uri p = redirect_uri"
    "oe_with_params E endpoint
      [(''response_type'', ''code''), (''client_id'', pa_client_id p), (''redirect_uri'', redirect_uri),
       (''code_challenge'', oe_base64 E (oe_sha256 E (pa_code_verifier p))),
       (''code_challenge_method'', ''S256''), (''state'', state), (''resource'', url)]
      = Inr authorize_url"
proof -
  obtain cid sec where client: "client = (cid, sec)" by (cases client)
  obtain w2 verifier where w2: "generate_pkce E w = (w2, verifier, oe_base64 E (oe_sha256 E verifier))"
    by (cases "generate_pkce E w") (auto simp: generate_pkce_def Let_def split: prod.splits)
  obtain w3 u where w3: "oe_uuid E w2 = (w3, u)" by (cases "oe_uuid E w2")
  obtain w4 now where w4: "oe_now E w3 = (w4, now)" by (cases "oe_now E w3")
  let ?ps = "[(''response_type'', ''code''), (''client_id'', cid), (''redirect_uri'', redirect_uri),
     (''code_challenge'', oe_base64 E (oe_sha256 E verifier)),
     (''code_challenge_method'', ''S256''), (''state'', oe_uuid_text E u), (''resource'', url)]"
  show thesis
    using assms
    by (cases "oe_with_params E endpoint ?ps")
      (auto simp: issue_url_def client w2 w3 w4 sbind_eq_Inr Let_def intro: that)
qed

text \<open>
  C32. The parked entry and the URL belong together: when \<open>begin\<close> hands out an authorize URL, the
  URL names a state under which the store now holds an entry for this server and redirect, and
  its challenge is the digest of the verifier in that entry, the one a completion will send. The
  method is always S256 and the server's own address is the resource asked for.
\<close>

theorem begin_parks_matching_verifier:
  assumes "begin_flow F (on_memory E) sid redirect_uri (m, n) = ((m1, n1), Inr authorize_url)"
  shows "\<exists>state p endpoint url. map_of m1 state = Some p \<and>
    pa_server_id p = sid \<and> pa_redirect_uri p = redirect_uri \<and>
    oe_with_params E endpoint
      [(''response_type'', ''code''), (''client_id'', pa_client_id p),
       (''redirect_uri'', redirect_uri),
       (''code_challenge'', oe_base64 E (oe_sha256 E (pa_code_verifier p))),
       (''code_challenge_method'', ''S256''), (''state'', state), (''resource'', url)]
    = Inr authorize_url"
proof -
  let ?E = "on_memory E"
  obtain url endpoint token_endpoint client w where
    "issue_url ?E sid redirect_uri url endpoint token_endpoint client w = ((m1, n1), Inr authorize_url)"
    using assms by (auto simp: begin_flow_def sbind_eq_Inr)
  then obtain state p w' where parked: "oe_park ?E state p w' = ((m1, n1), Inr ())"
    and p: "pa_server_id p = sid" "pa_redirect_uri p = redirect_uri"
    and url: "oe_with_params ?E endpoint
      [(''response_type'', ''code''), (''client_id'', pa_client_id p), (''redirect_uri'', redirect_uri),
       (''code_challenge'', oe_base64 ?E (oe_sha256 ?E (pa_code_verifier p))),
       (''code_challenge_method'', ''S256''), (''state'', state), (''resource'', url)]
      = Inr authorize_url"
    by (rule issue_url_Inr)
  from parked have "map_of m1 state = Some p"
    by (cases w') (auto simp: on_memory_def over_memory_def mem_park_def update_conv' split: prod.splits)
  with p url show ?thesis unfolding on_memory_def by auto
qed

section \<open>Detection and sign-in agree\<close>

lemma find_SomeD: "find P xs = Some x \<Longrightarrow> P x"
  by (induction xs) (auto split: if_splits)

lemma choose_server_cases:
  "choose_server context = (case find can_drive_sign_in (ac_servers context) of
     None \<Rightarrow> Inl (AuthDiscovery
       (if ac_servers context = [] then ''the server advertises no authorization server''
        else ''no authorization server offers an authorize endpoint, a token endpoint, and dynamic client registration together'')
       (ac_challenge context))
   | Some m \<Rightarrow> Inr (the (as_authorization_endpoint m), the (as_token_endpoint m),
                    the (as_registration_endpoint m)))"
proof (cases "find can_drive_sign_in (ac_servers context)")
  case (Some m)
  then have "can_drive_sign_in m" by (rule find_SomeD)
  then show ?thesis using Some by (auto simp: choose_server_def can_drive_sign_in_def)
qed (simp add: choose_server_def)

text \<open>
  C32. Detection never offers a sign-in that \<open>begin\<close> would refuse, nor withholds one it would
  run: on the same discovery answer, \<open>detect\<close> reports a browser sign-in exactly when \<open>begin\<close>
  finds an authorization server to drive, with the endpoint \<open>begin\<close> will use; and when it
  reports a static token, \<open>begin\<close> stops at the answer, before any request of its own.
\<close>

theorem detection_matches_begin:
  assumes "oe_remote_url E sid n = (n1, Inr (Some url))" "probe_client F E url n1 = Inr pin"
    and "oe_discover E url pin n1 = (n2, Inr (Some context))"
  shows "\<exists>d. detect F E sid n = (n2, Inr d) \<and>
    (if ad_kind d = AuthOauth
     then \<exists>a t r. ad_authorization_endpoint d = Some a \<and> choose_server context = Inr (a, t, r) \<and>
       begin_flow F E sid redirect_uri n =
         sbind (n2, registration_client F E a t r n2) (\<lambda>client n.
           sbind (register_client F E (or_flow client) r redirect_uri n)
             (issue_url E sid redirect_uri url a t))
     else d = detection_static_token \<and> (\<exists>detail.
       begin_flow F E sid redirect_uri n = (n2, Inl (AuthDiscovery detail (ac_challenge context)))))"
proof (cases "find can_drive_sign_in (ac_servers context)")
  case None
  then show ?thesis
    by (simp add: detect_def begin_flow_def assms choose_server_cases detection_static_token_def)
next
  case (Some m)
  then have "can_drive_sign_in m" by (rule find_SomeD)
  then obtain a where "as_authorization_endpoint m = Some a" by (auto simp: can_drive_sign_in_def)
  with Some show ?thesis
    by (simp add: detect_def begin_flow_def assms choose_server_cases detection_oauth_def)
qed

section \<open>Stored tokens\<close>

lemma dec_enc_bundle: "dec_bundle (enc_bundle b) = Some b"
proof -
  have "jget ''refresh_token'' (enc_bundle b) = Some (enc_opt JStr (ob_refresh_token b))"
    "jget ''client_id'' (enc_bundle b) = Some (JStr (ob_client_id b))"
    "jget ''client_secret'' (enc_bundle b) = Some (enc_opt JStr (ob_client_secret b))"
    "jget ''token_endpoint'' (enc_bundle b) = Some (JStr (ob_token_endpoint b))"
    "jget ''expires_at'' (enc_bundle b) = Some (JInt (uint (ob_expires_at b)))"
    by (simp_all add: enc_bundle_def jget_jobject)
  then show ?thesis
    by (cases "ob_refresh_token b"; cases "ob_client_secret b")
      (simp_all add: dec_bundle_def optional_def required_def enc_opt_def)
qed

lemma merge_tokens_get:
  "bt_get (merge_tokens E tokens b m) k =
     (if k = oauth_bundle_key then Some (oe_print_json E (enc_bundle b))
      else if k = access_token_key then Some (''Bearer '' @ tr_access_token tokens) else bt_get m k)"
  by (simp add: merge_tokens_def)

text \<open>
  When a stored token is due: after a sign-in or a refresh has stored its answer, the
  bundle reads back as it was written, and it is offered for a refresh exactly from 60 seconds
  before the end of the lifetime the server stated, or of one hour when it stated none, and only
  if it holds a refresh token that is not blank. The end of a lifetime saturates, so no stated
  lifetime makes a token look expired.
\<close>

theorem token_due_before_expiry:
  assumes "b = bundle_of cid sec ep tokens issued"
    and "oe_load E sid n = (n1, Inr (merge_tokens E tokens b stored))" "oe_now E n1 = (n2, now)"
    and "oe_parse_json E (oe_print_json E (enc_bundle b)) = Inr (enc_bundle b)"
    and "unat now + 60 < 2 ^ 64"
  shows "due_refresh E sid n = (n2, Inr
    (if min (unat issued + (case tr_expires_in tokens of None \<Rightarrow> 3600 | Some l \<Rightarrow> unat l)) (2 ^ 64 - 1)
          \<le> unat now + 60 \<and> has_refresh_token b
     then Some b else None))"
proof -
  have "unat (now + refresh_skew_secs) = unat now + 60"
    using assms(5) by (subst unat_add_lem [THEN iffD1]) (simp_all add: refresh_skew_secs_def)
  moreover have "unat (ob_expires_at b) =
      min (unat issued + (case tr_expires_in tokens of None \<Rightarrow> 3600 | Some l \<Rightarrow> unat l)) (2 ^ 64 - 1)"
    by (simp add: assms(1) bundle_of_def unat_sat_add default_token_lifetime_secs_def split: option.split)
  moreover have "read_bundle E (oe_print_json E (enc_bundle b)) = Inr b"
    by (simp add: read_bundle_def assms(4) dec_enc_bundle)
  moreover have "due_refresh E sid n =
      (if now + refresh_skew_secs < ob_expires_at b then (n2, Inr None)
       else (n2, Inr (if has_refresh_token b then Some b else None)))"
    using \<open>read_bundle E (oe_print_json E (enc_bundle b)) = Inr b\<close>
    by (simp add: due_refresh_def assms(2,3) merge_tokens_get)
  ultimately show ?thesis by (simp only: word_less_nat_alt) (simp add: not_less min_def split: if_splits)
qed

text \<open>
  A refresh is never the last one possible, and never overwrites a newer sign-in. When it
  reports success it has saved, over everything else stored, the new access token and a bundle
  for the same client and endpoint whose refresh token is the one the server rotated to, or else
  the one already held. When it reports that nothing was refreshed, there was no usable refresh
  token to send, or the bundle in the store, read again after the answer came, is no longer the
  one the refresh started from, and nothing was saved.
\<close>

theorem refresh_keeps_refresh_token:
  assumes "exchange_refresh E client sid b n = (n', Inr refreshed)"
  shows "if refreshed
    then \<exists>reply tokens stored now n1.
        oe_save E sid (merge_tokens E tokens
          (bundle_of (ob_client_id b) (ob_client_secret b) (ob_token_endpoint b) tokens now) stored) n1
          = (n', Inr ()) \<and>
        rbind (parse_tokens reply) (\<lambda>t. Inr (tr_access_token t)) = Inr (tr_access_token tokens) \<and>
        tr_refresh_token tokens =
          (case Option.bind (jget ''refresh_token'' reply) as_str of
             Some rotated \<Rightarrow> Some rotated | None \<Rightarrow> ob_refresh_token b)
    else (\<not> has_refresh_token b \<and> n' = n) \<or> (\<exists>n1. superseded E sid b n1 = (n', Inr True))"
proof (cases "has_refresh_token b")
  case False
  with assms show ?thesis
    by (auto simp: exchange_refresh_def has_refresh_token_def split: option.splits if_splits)
next
  case True
  then obtain token where token: "ob_refresh_token b = Some token" "\<not> blank token"
    by (auto simp: has_refresh_token_def split: option.splits)
  obtain n1 reply tokens n2 newer where reply: "parse_tokens reply = Inr tokens"
    and newer: "superseded E sid b n1 = (n2, Inr newer)"
    and go0: "(if newer then (n2, Inr False)
              else sbind (persist E sid (ob_client_id b) (ob_client_secret b) (ob_token_endpoint b)
                  (if tr_refresh_token tokens = None
                   then tokens\<lparr>tr_refresh_token := ob_refresh_token b\<rparr> else tokens) n2)
                (\<lambda>_ n. (n, Inr True))) = (n', Inr refreshed)"
    using assms token by (auto simp: exchange_refresh_def sbind_eq_Inr Let_def)
  define kept where "kept = (if tr_refresh_token tokens = None
      then tokens\<lparr>tr_refresh_token := ob_refresh_token b\<rparr> else tokens)"
  have kept: "tr_access_token kept = tr_access_token tokens" "tr_refresh_token kept =
      (case Option.bind (jget ''refresh_token'' reply) as_str of
             Some rotated \<Rightarrow> Some rotated | None \<Rightarrow> ob_refresh_token b)"
    using reply by (auto simp: kept_def parse_tokens_def rbind_eq_Inr split: option.split)
  have go: "(if newer then (n2, Inr False)
              else sbind (persist E sid (ob_client_id b) (ob_client_secret b) (ob_token_endpoint b) kept n2)
                (\<lambda>_ n. (n, Inr True))) = (n', Inr refreshed)"
    using go0 by (simp only: kept_def)
  show ?thesis
  proof (cases newer)
    case False
    with go have "persist E sid (ob_client_id b) (ob_client_secret b) (ob_token_endpoint b) kept n2 = (n', Inr ())"
      and "refreshed" by (auto simp: sbind_eq_Inr)
    then obtain now n3 n4 held where
      "oe_save E sid (merge_tokens E kept (bundle_of (ob_client_id b) (ob_client_secret b)
         (ob_token_endpoint b) kept now) held) n4 = (n', Inr ())"
      by (auto simp: persist_def Let_def sbind_eq_Inr split: prod.splits)
    moreover have "rbind (parse_tokens reply) (\<lambda>t. Inr (tr_access_token t)) = Inr (tr_access_token kept)"
      by (simp add: reply kept(1))
    ultimately show ?thesis using kept(2) \<open>refreshed\<close> by (simp only: if_True) blast
  qed (use newer go in auto)
qed

section \<open>A concrete server\<close>

text \<open>A world that is the stored credentials, a clock that stands at 1000, one authorization
  server with every endpoint, and bodies that parse by their name.\<close>

definition sample_server_metadata :: authorization_server where
  "sample_server_metadata = \<lparr>as_issuer = ''i'', as_authorization_endpoint = Some ''https://a'',
     as_token_endpoint = Some ''https://t'', as_registration_endpoint = Some ''https://r'',
     as_grant_types_supported = []\<rparr>"

definition sample_context :: authorization_context where
  "sample_context = \<lparr>ac_challenge = \<lparr>scheme = ''Bearer'', realm = None, challenge_metadata = None\<rparr>,
     ac_servers = [sample_server_metadata]\<rparr>"

definition sample_oauth :: "json \<Rightarrow> (string, string) btree oauth_env" where
  "sample_oauth stored_bundle = \<lparr>
     oe_remote_url = \<lambda>sid n. (n, Inr (Some ''https://s'')),
     oe_load = \<lambda>sid n. (n, Inr n),
     oe_save = \<lambda>sid m n. (m, Inr ()),
     oe_park = \<lambda>st p n. (n, Inr ()),
     oe_take = \<lambda>st n. (n, Inr None),
     oe_peek = \<lambda>st n. (n, Inr None),
     oe_count = \<lambda>n. (n, Inr 0),
     oe_now = \<lambda>n. (n, 1000),
     oe_uuid = \<lambda>n. (n, ''u''),
     oe_uuid_text = id,
     oe_base64 = id,
     oe_sha256 = rev,
     oe_parse_url = \<lambda>u. Inr \<lparr>url_scheme = ''https'', url_host = Some ''h'', url_port = None\<rparr>,
     oe_parse_ip = \<lambda>h. None,
     oe_resolve = \<lambda>h p n. Inr [(V4 93 184 216 34, 443)],
     oe_client_build = \<lambda>c. None,
     oe_probe_build = \<lambda>u pin. None,
     oe_discover = \<lambda>u pin n. (n, Inr (Some sample_context)),
     oe_post = \<lambda>c u body n. (n, Inr (200, case body of Form _ \<Rightarrow> ''tokens'' | JsonBody _ \<Rightarrow> ''client'')),
     oe_parse_json = \<lambda>t. if t = ''tokens'' then Inr (JObj [(''access_token'', JStr ''new'')])
       else if t = ''client'' then Inr (JObj [(''client_id'', JStr ''c'')])
       else if t = ''bundle'' then Inr stored_bundle else Inl ''bad'',
     oe_print_json = \<lambda>j. ''bundle'',
     oe_shape_error = \<lambda>j. ''shape'',
     oe_with_params = \<lambda>u ps. Inr (snd (ps ! 5))\<rparr>"

lemma sample_oauth_simps [simp]:
  "oe_remote_url (sample_oauth stored_bundle) = (\<lambda>sid n. (n, Inr (Some ''https://s'')))"
  "oe_load (sample_oauth stored_bundle) = (\<lambda>sid n. (n, Inr n))"
  "oe_save (sample_oauth stored_bundle) = (\<lambda>sid m n. (m, Inr ()))"
  "oe_park (sample_oauth stored_bundle) = (\<lambda>st p n. (n, Inr ()))"
  "oe_take (sample_oauth stored_bundle) = (\<lambda>st n. (n, Inr None))"
  "oe_peek (sample_oauth stored_bundle) = (\<lambda>st n. (n, Inr None))"
  "oe_count (sample_oauth stored_bundle) = (\<lambda>n. (n, Inr 0))"
  "oe_now (sample_oauth stored_bundle) = (\<lambda>n. (n, 1000))"
  "oe_uuid (sample_oauth stored_bundle) = (\<lambda>n. (n, ''u''))"
  "oe_uuid_text (sample_oauth stored_bundle) = (id)"
  "oe_base64 (sample_oauth stored_bundle) = (id)"
  "oe_sha256 (sample_oauth stored_bundle) = (rev)"
  "oe_parse_url (sample_oauth stored_bundle) = (\<lambda>u. Inr \<lparr>url_scheme = ''https'', url_host = Some ''h'', url_port = None\<rparr>)"
  "oe_parse_ip (sample_oauth stored_bundle) = (\<lambda>h. None)"
  "oe_resolve (sample_oauth stored_bundle) = (\<lambda>h p n. Inr [(V4 93 184 216 34, 443)])"
  "oe_client_build (sample_oauth stored_bundle) = (\<lambda>c. None)"
  "oe_probe_build (sample_oauth stored_bundle) = (\<lambda>u pin. None)"
  "oe_discover (sample_oauth stored_bundle) = (\<lambda>u pin n. (n, Inr (Some sample_context)))"
  "oe_post (sample_oauth stored_bundle) = (\<lambda>c u body n. (n, Inr (200, case body of Form _ \<Rightarrow> ''tokens'' | JsonBody _ \<Rightarrow> ''client'')))"
  "oe_parse_json (sample_oauth stored_bundle) = (\<lambda>t. if t = ''tokens'' then Inr (JObj [(''access_token'', JStr ''new'')])
       else if t = ''client'' then Inr (JObj [(''client_id'', JStr ''c'')])
       else if t = ''bundle'' then Inr stored_bundle else Inl ''bad'')"
  "oe_print_json (sample_oauth stored_bundle) = (\<lambda>j. ''bundle'')"
  "oe_shape_error (sample_oauth stored_bundle) = (\<lambda>j. ''shape'')"
  "oe_with_params (sample_oauth stored_bundle) = (\<lambda>u ps. Inr (snd (ps ! 5)))"
  by (simp_all add: sample_oauth_def)

definition sample_bundle :: oauth_bundle where
  "sample_bundle = \<lparr>ob_refresh_token = Some ''r'', ob_client_id = ''c'', ob_client_secret = None,
     ob_token_endpoint = ''https://t'', ob_expires_at = 4600\<rparr>"

lemmas sample_oauth_defs = sample_oauth_def sample_context_def sample_server_metadata_def
  sample_bundle_def oauth_flow_new_def

lemma sample_find: "find can_drive_sign_in (ac_servers sample_context) = Some sample_server_metadata"
  by (simp add: sample_context_def sample_server_metadata_def can_drive_sign_in_def
      supports_authorization_code_def)

lemma sample_begin:
  "begin_flow oauth_flow_new (on_memory (sample_oauth JNull)) ''s'' ''http://cb'' ([], []) =
     (([(''u'', \<lparr>pa_server_id = ''s'', pa_code_verifier = ''uuu'', pa_client_id = ''c'', pa_client_secret = None,
         pa_token_endpoint = ''https://t'', pa_redirect_uri = ''http://cb'', pa_started_at = 1000\<rparr>)], []),
      Inr ''u'')"
proof -
  have ctx: "choose_server sample_context = Inr (''https://a'', ''https://t'', ''https://r'')"
    by (simp add: choose_server_cases sample_find) (simp add: sample_server_metadata_def)
  show ?thesis
    by (simp add: begin_flow_def on_memory_simps lift_def over_memory_def probe_client_def
        registration_client_def or_flow_def register_client_def issue_url_def generate_pkce_def
        read_reply_def is_success_def mem_park_def pruned_def oauth_flow_new_def Let_def ctx)
qed

theorem begin_parks_matching_verifier_witness:
  "\<exists>state p. map_of [(''u'', \<lparr>pa_server_id = ''s'', pa_code_verifier = ''uuu'', pa_client_id = ''c'',
       pa_client_secret = None, pa_token_endpoint = ''https://t'', pa_redirect_uri = ''http://cb'',
       pa_started_at = 1000\<rparr>)] state = Some p \<and> pa_server_id p = ''s''"
  using begin_parks_matching_verifier [OF sample_begin] by blast

theorem detection_matches_begin_witness:
  "\<exists>d. detect oauth_flow_new (sample_oauth JNull) ''s'' [] = ([], Inr d) \<and>
     (ad_kind d = AuthOauth \<or> d = detection_static_token)"
proof -
  have "\<exists>d. detect oauth_flow_new (sample_oauth JNull) ''s'' [] = ([], Inr d) \<and>
    (if ad_kind d = AuthOauth
     then \<exists>a t r. ad_authorization_endpoint d = Some a \<and> choose_server sample_context = Inr (a, t, r) \<and>
       begin_flow oauth_flow_new (sample_oauth JNull) ''s'' ''cb'' [] =
         sbind ([], registration_client oauth_flow_new (sample_oauth JNull) a t r []) (\<lambda>client n.
           sbind (register_client oauth_flow_new (sample_oauth JNull) (or_flow client) r ''cb'' n)
             (issue_url (sample_oauth JNull) ''s'' ''cb'' ''https://s'' a t))
     else d = detection_static_token \<and> (\<exists>detail.
       begin_flow oauth_flow_new (sample_oauth JNull) ''s'' ''cb'' [] =
         ([], Inl (AuthDiscovery detail (ac_challenge sample_context)))))"
    by (rule detection_matches_begin [where pin = None])
      (simp_all add: probe_client_def oauth_flow_new_def)
  then show ?thesis by (auto split: if_splits)
qed

theorem token_due_before_expiry_witness:
  "let tokens = \<lparr>tr_access_token = ''t'', tr_refresh_token = Some ''r'', tr_expires_in = Some 10\<rparr>;
       b = bundle_of ''c'' None ''https://t'' tokens 1000;
       E = sample_oauth (enc_bundle b)
   in snd (due_refresh E ''s'' (merge_tokens E tokens b [])) = Inr (Some b)"
proof -
  let ?t = "\<lparr>tr_access_token = ''t'', tr_refresh_token = Some ''r'', tr_expires_in = Some 10\<rparr> :: token_response"
  let ?b = "bundle_of ''c'' None ''https://t'' ?t 1000"
  let ?E = "sample_oauth (enc_bundle ?b)"
  have "has_refresh_token ?b" by (simp add: has_refresh_token_def bundle_of_def blank_def) code_simp
  then show ?thesis
    using token_due_before_expiry [of ?b "''c''" None "''https://t''" ?t 1000 ?E "''s''" "merge_tokens ?E ?t ?b []"
        "merge_tokens ?E ?t ?b []" "[]" "merge_tokens ?E ?t ?b []" 1000]
    by (simp add: Let_def)
qed

theorem refresh_keeps_refresh_token_witness:
  "let E = sample_oauth (enc_bundle sample_bundle); n = [(''__oauth__'', ''bundle'')]
   in case exchange_refresh E FlowClient ''s'' sample_bundle n of
        (n', Inr refreshed) \<Rightarrow> refreshed \<and> (\<exists>tokens stored now.
          n' = merge_tokens E tokens (bundle_of ''c'' None ''https://t'' tokens now) stored \<and>
          tr_refresh_token tokens \<noteq> None)
      | _ \<Rightarrow> False"
proof -
  let ?E = "sample_oauth (enc_bundle sample_bundle)" and ?n = "[(''__oauth__'', ''bundle'')]"
  have nb: "\<not> blank ''r''" by (simp add: blank_def) code_simp
  have rb: "read_bundle ?E ''bundle'' = Inr sample_bundle" by (simp add: read_bundle_def dec_enc_bundle)
  obtain n' where run: "exchange_refresh ?E FlowClient ''s'' sample_bundle ?n = (n', Inr True)"
    using nb rb
    by (simp add: exchange_refresh_def sample_bundle_def [of] post_form_def read_reply_def is_success_def
        parse_tokens_def superseded_def persist_def oauth_bundle_key_def Let_def)
  have b: "ob_client_id sample_bundle = ''c''" "ob_client_secret sample_bundle = None"
    "ob_token_endpoint sample_bundle = ''https://t''" "ob_refresh_token sample_bundle = Some ''r''"
    by (simp_all add: sample_bundle_def)
  from refresh_keeps_refresh_token [OF run] obtain reply tokens held now where
    "n' = merge_tokens ?E tokens (bundle_of ''c'' None ''https://t'' tokens now) held"
    "tr_refresh_token tokens = (case Option.bind (jget ''refresh_token'' reply) as_str of
       Some rotated \<Rightarrow> Some rotated | None \<Rightarrow> Some ''r'')"
    by (simp add: b cong: option.case_cong) blast
  moreover from this have "tr_refresh_token tokens \<noteq> None" by (simp split: option.splits)
  ultimately have "\<exists>tokens held now. n' = merge_tokens ?E tokens
      (bundle_of ''c'' None ''https://t'' tokens now) held \<and> tr_refresh_token tokens \<noteq> None" by blast
  with run show ?thesis by (simp add: Let_def)
qed

theorem code_exchanged_once_witness:
  "let E = sample_oauth JNull; m = fst (fst (begin_flow oauth_flow_new (on_memory E) ''s'' ''http://cb'' ([], [])));
       (w, outcome) = complete oauth_flow_new (on_memory E) ''u'' ''code'' (m, [])
   in snd (complete oauth_flow_new (on_memory E) ''u'' ''code'' (run_ops store_step (fst w) [Peek 1000 ''u''], [])) =
        Inl (MalformedResponse ''unknown or expired oauth state'')"
proof -
  define m where "m = fst (fst (begin_flow oauth_flow_new (on_memory (sample_oauth JNull)) ''s'' ''http://cb'' ([], [])))"
  obtain m1 n1 outcome where run:
    "complete oauth_flow_new (on_memory (sample_oauth JNull)) ''u'' ''code'' (m, []) = ((m1, n1), outcome)"
    by (metis prod.exhaust)
  have "list_all (\<lambda>x. \<not> parks_state ''u'' x) [Peek 1000 ''u'']" by (simp add: parks_state_def)
  from code_exchanged_once [OF run this, of "''code''" "[]"] show ?thesis
    by (auto simp: Let_def run m_def [symmetric])
qed

end
