(* ===== verification/Sse.thy ===== *)
theory Sse
  imports Errors Json
begin

text \<open>
  \<open>transport/http/sse.rs\<close> and the incremental body reader of \<open>transport/http/mod.rs\<close>: a reply
  that arrives as server-sent events, read as far as its first complete data frame. What is
  read does not depend on how the bytes were cut into chunks. The JSON parser is the library's
  and stays a parameter.
\<close>

section \<open>Decoding bytes\<close>

text \<open>\<open>String::from_utf8_lossy\<close>: a malformed sequence is replaced, as far as it could have been
  the start of a character, by U+FFFD.\<close>

definition next_in :: "nat \<Rightarrow> nat \<Rightarrow> string \<Rightarrow> bool" where
  "next_in lo hi s = (case s of [] \<Rightarrow> False | c # _ \<Rightarrow> lo \<le> byte c \<and> byte c \<le> hi)"

definition utf8_step :: "char \<Rightarrow> string \<Rightarrow> bool \<times> nat" where
  "utf8_step c r =
     (let b = byte c in
      if b < 128 then (True, 0)
      else if 194 \<le> b \<and> b \<le> 223 then (if next_in 128 191 r then (True, 1) else (False, 0))
      else if 224 \<le> b \<and> b \<le> 239 then
        (if \<not> next_in (if b = 224 then 160 else 128) (if b = 237 then 159 else 191) r then (False, 0)
         else if next_in 128 191 (drop 1 r) then (True, 2) else (False, 1))
      else if 240 \<le> b \<and> b \<le> 244 then
        (if \<not> next_in (if b = 240 then 144 else 128) (if b = 244 then 143 else 191) r then (False, 0)
         else if \<not> next_in 128 191 (drop 1 r) then (False, 1)
         else if next_in 128 191 (drop 2 r) then (True, 3) else (False, 2))
      else (False, 0))"

definition replacement :: string where
  "replacement = [char_of (239::nat), char_of (191::nat), char_of (189::nat)]"

function lossy :: "string \<Rightarrow> string" where
  "lossy [] = []"
| "lossy (c # r) = (case utf8_step c r of (good, n) \<Rightarrow>
     (if good then c # take n r else replacement) @ lossy (drop n r))"
  by pat_completeness auto
termination by (relation "measure length") auto

declare lossy.simps(2) [simp del]

abbreviation LF :: char where "LF \<equiv> CHR 0x0A"
abbreviation CR :: char where "CR \<equiv> CHR 0x0D"

lemma next_in_ascii: "byte x < 128 \<Longrightarrow> 128 \<le> lo \<Longrightarrow> next_in lo hi (r @ x # b) = next_in lo hi r"
  by (cases r) (auto simp: next_in_def)

lemma next_in_nonempty: "next_in lo hi r \<Longrightarrow> 0 < length r"
  by (cases r) (auto simp: next_in_def)

lemma drop_next_in_ascii:
  "next_in lo hi (drop k r) \<Longrightarrow> byte x < 128 \<Longrightarrow> next_in 128 191 (drop (Suc k) (r @ x # b)) = next_in 128 191 (drop (Suc k) r)"
proof -
  assume a: "next_in lo hi (drop k r)" "byte x < 128"
  then have "Suc k \<le> length r" using next_in_nonempty by fastforce
  then show ?thesis using a(2) by (simp add: next_in_ascii)
qed

text \<open>A step sees no further than an ASCII character.\<close>

lemma utf8_step_ascii: "byte x < 128 \<Longrightarrow> utf8_step c (r @ x # b) = utf8_step c r"
  using drop_next_in_ascii [of _ _ 0 r x b] drop_next_in_ascii [of _ _ 1 r x b]
  by (simp add: utf8_step_def Let_def next_in_ascii numeral_2_eq_2)

lemma utf8_step_len: "snd (utf8_step c r) \<le> length r"
proof -
  have "r = [] \<Longrightarrow> \<not> next_in lo hi r" "length r \<le> 1 \<Longrightarrow> \<not> next_in lo hi (drop (Suc 0) r)"
    "length r \<le> 2 \<Longrightarrow> \<not> next_in lo hi (drop 2 r)" for lo hi
    by (simp_all add: next_in_def)
  then show ?thesis
    by (cases "r = []"; cases "length r \<le> 1"; cases "length r \<le> 2") (auto simp: utf8_step_def Let_def Suc_le_eq)
qed

lemma lossy_ascii_append: "byte x < 128 \<Longrightarrow> lossy (a @ x # b) = lossy a @ x # lossy b"
proof (induction a rule: lossy.induct)
  case 1
  then show ?case by (simp add: lossy.simps(2) utf8_step_def Let_def)
next
  case (2 c r)
  obtain good n where step: "utf8_step c r = (good, n)" by fastforce
  have n: "n \<le> length r" using utf8_step_len [of c r] by (simp add: step)
  have "lossy (drop n r @ x # b) = lossy (drop n r) @ x # lossy b"
    using 2 by (simp add: step)
  then show ?case using n utf8_step_ascii [OF 2(2), of c r b]
    by (simp add: lossy.simps(2) step)
qed

lemma lossy_no_LF: "LF \<notin> set s \<Longrightarrow> LF \<notin> set (lossy s)"
proof (induction s rule: lossy.induct)
  case (2 c r)
  obtain good n where step: "utf8_step c r = (good, n)" by fastforce
  have "LF \<notin> set (lossy (drop n r))" using 2 step by (auto dest: in_set_dropD)
  moreover have "LF \<notin> set (take n r)" using 2(2) by (auto dest: in_set_takeD)
  moreover have "LF \<notin> set replacement" by (simp add: replacement_def char_of_def)
  ultimately show ?case using 2(2) by (auto simp: lossy.simps(2) step)
qed simp

section \<open>Lines\<close>

definition strip_cr :: "string \<Rightarrow> string" where
  "strip_cr s = (if s \<noteq> [] \<and> last s = CR then butlast s else s)"

text \<open>\<open>str::lines\<close>.\<close>

definition str_lines :: "string \<Rightarrow> string list" where
  "str_lines s = (let ps = split_on (\<lambda>c. c = LF) s
     in map strip_cr (butlast ps) @ (if last ps = [] then [] else [last ps]))"

definition trim_cr :: "string \<Rightarrow> string" where
  "trim_cr s = rev (dropWhile (\<lambda>c. c = CR) (rev s))"

fun crlf_to_lf :: "string \<Rightarrow> string" where
  "crlf_to_lf (c # d # s) = (if c = CR \<and> d = LF then LF # crlf_to_lf s else c # crlf_to_lf (d # s))"
| "crlf_to_lf s = s"

fun rfind_blank :: "string \<Rightarrow> nat option" where
  "rfind_blank [] = None"
| "rfind_blank (c # s) = (case rfind_blank s of Some i \<Rightarrow> Some (Suc i)
     | None \<Rightarrow> if c = LF \<and> starts_with [LF] s then Some 0 else None)"

lemma rfind_blank_Some: "rfind_blank s = Some i \<Longrightarrow> \<exists>a b. s = a @ LF # LF # b \<and> length a = i"
proof (induction s arbitrary: i)
  case (Cons c s)
  show ?case
  proof (cases "rfind_blank s")
    case None
    with Cons.prems show ?thesis by (auto simp: starts_with_def prefix_def split: if_splits intro!: exI [of _ "[]"])
  next
    case (Some k)
    then obtain a b where "s = a @ LF # LF # b" "length a = k" using Cons.IH by blast
    then show ?thesis using Cons.prems Some by (intro exI [of _ "c # a"] exI [of _ b]) simp
  qed
qed simp

lemma rfind_blank_end: "rfind_blank (a @ [LF, LF]) = Some (length a)"
  by (induction a) (simp_all add: starts_with_def)

lemma trim_cr_strip_cr [simp]: "trim_cr (strip_cr s) = trim_cr s"
proof (cases "s \<noteq> [] \<and> last s = CR")
  case True
  then obtain r where "s = r @ [CR]" by (metis append_butlast_last_id)
  then show ?thesis by (simp add: strip_cr_def trim_cr_def)
qed (auto simp: strip_cr_def)

lemma trim_cr_Cons: "trim_cr (c # s) = (if trim_cr s = [] then (if c = CR then [] else [c]) else c # trim_cr s)"
  by (auto simp: trim_cr_def dropWhile_append)

lemma split_LF_append: "split_on (\<lambda>c. c = LF) (a @ LF # b) = split_on (\<lambda>c. c = LF) a @ split_on (\<lambda>c. c = LF) b"
  by (induction a) (auto split: list.split)

text \<open>Up to the carriage returns at their ends, a text and its normal form have the same
  lines.\<close>

lemma pieces_crlf: "map trim_cr (split_on (\<lambda>c. c = LF) (crlf_to_lf s)) = map trim_cr (split_on (\<lambda>c. c = LF) s)"
proof (induction s rule: crlf_to_lf.induct)
  case (1 c d s)
  show ?case
  proof (cases "c = CR \<and> d = LF")
    case True
    then show ?thesis using 1 by (simp add: trim_cr_def)
  next
    case False
    obtain x xs y ys where s: "split_on (\<lambda>c. c = LF) (crlf_to_lf (d # s)) = x # xs"
      "split_on (\<lambda>c. c = LF) (d # s) = y # ys" by (metis list.exhaust split_on_nonempty)
    have "map trim_cr (x # xs) = map trim_cr (y # ys)" using 1(2) False unfolding s by blast
    moreover have "crlf_to_lf (c # d # s) = c # crlf_to_lf (d # s)" using False by auto
    ultimately show ?thesis using s by (simp add: trim_cr_Cons del: crlf_to_lf.simps split_on.simps(2)
        add: split_on.simps(2) [of _ c])
  qed
qed simp_all

section \<open>Events\<close>

record sse_event =
  se_event :: "string option"
  se_id :: "string option"
  se_data :: "json option"

record pending_event =
  pe_event :: "string option"
  pe_id :: "string option"
  pe_data :: "string list"

definition no_event :: pending_event where
  "no_event = \<lparr>pe_event = None, pe_id = None, pe_data = []\<rparr>"

definition em_dash :: string where "em_dash = [char_of (226::nat), char_of (128::nat), char_of (148::nat)]"

definition flush_event :: "(string \<Rightarrow> string + json) \<Rightarrow> pending_event \<Rightarrow> error + sse_event list" where
  "flush_event parse p =
     (if pe_event p = None \<and> pe_id p = None \<and> pe_data p = [] then Inr []
      else
        let joined = join [LF] (pe_data p)
        in rbind (if pe_data p = [] then Inr None
                  else case parse joined of
                    Inl err \<Rightarrow> Inl (MalformedResponse (''sse data frame is not json: '' @ err @ '' '' @ em_dash @ '' '' @ joined))
                  | Inr j \<Rightarrow> Inr (Some j))
             (\<lambda>data. Inr [\<lparr>se_event = pe_event p, se_id = pe_id p, se_data = data\<rparr>]))"

definition take_line :: "string \<Rightarrow> pending_event \<Rightarrow> pending_event" where
  "take_line line p =
     (if starts_with '':'' line then p
      else case strip_prefix ''event:'' line of
        Some v \<Rightarrow> p\<lparr>pe_event := Some (trim_start v)\<rparr>
      | None \<Rightarrow> (case strip_prefix ''id:'' line of
          Some v \<Rightarrow> p\<lparr>pe_id := Some (trim_start v)\<rparr>
        | None \<Rightarrow> (case strip_prefix ''data:'' line of
            Some v \<Rightarrow> p\<lparr>pe_data := pe_data p @ [trim_start v]\<rparr>
          | None \<Rightarrow> p)))"

fun events_of_lines :: "(string \<Rightarrow> string + json) \<Rightarrow> string list \<Rightarrow> pending_event \<Rightarrow> error + sse_event list" where
  "events_of_lines parse [] p = flush_event parse p"
| "events_of_lines parse (raw_line # ls) p =
     (let line = trim_cr raw_line
      in if line = []
         then rbind (flush_event parse p) (\<lambda>evs.
              rbind (events_of_lines parse ls no_event) (\<lambda>more. Inr (evs @ more)))
         else events_of_lines parse ls (take_line line p))"

definition parse_sse_events :: "(string \<Rightarrow> string + json) \<Rightarrow> string \<Rightarrow> error + sse_event list" where
  "parse_sse_events parse body = events_of_lines parse (str_lines body) no_event"

definition is_response :: "json \<Rightarrow> bool" where
  "is_response v = (jget ''method'' v = None)"

definition find_response :: "sse_event list \<Rightarrow> json option" where
  "find_response evs = (case filter is_response (List.map_filter se_data evs) of [] \<Rightarrow> None | d # _ \<Rightarrow> Some d)"

definition parse_sse_message :: "(string \<Rightarrow> string + json) \<Rightarrow> string \<Rightarrow> error + json" where
  "parse_sse_message parse body =
     rbind (parse_sse_events parse body) (\<lambda>evs.
       ok_or (MalformedResponse (''no sse data frame in response: '' @ body)) (find_response evs))"

definition first_complete_sse_data :: "(string \<Rightarrow> string + json) \<Rightarrow> string \<Rightarrow> error + json option" where
  "first_complete_sse_data parse buffer =
     (let normalized = crlf_to_lf buffer
      in case rfind_blank normalized of
           None \<Rightarrow> Inr None
         | Some boundary \<Rightarrow>
             rbind (parse_sse_events parse (take (Suc boundary) normalized)) (\<lambda>evs. Inr (find_response evs)))"

text \<open>\<open>read_sse_payload\<close>: the chunks as they come, a failure of the transport among them.\<close>

fun read_sse_payload :: "(string \<Rightarrow> string + json) \<Rightarrow> string \<Rightarrow> (error + string) list \<Rightarrow> error + json" where
  "read_sse_payload parse raw [] = parse_sse_message parse (lossy raw)"
| "read_sse_payload parse raw (Inl err # chunks) = Inl err"
| "read_sse_payload parse raw (Inr chunk # chunks) =
     (case first_complete_sse_data parse (lossy (raw @ chunk)) of
        Inl err \<Rightarrow> Inl err
      | Inr (Some data) \<Rightarrow> Inr data
      | Inr None \<Rightarrow> read_sse_payload parse (raw @ chunk) chunks)"

section \<open>Chunks do not matter\<close>

lemma events_trim: "map trim_cr ls = map trim_cr ls' \<Longrightarrow> events_of_lines parse ls p = events_of_lines parse ls' p"
proof (induction ls arbitrary: ls' p)
  case (Cons l ls)
  then obtain l' ls'' where "ls' = l' # ls''" "trim_cr l = trim_cr l'" "map trim_cr ls = map trim_cr ls''"
    by (auto simp: Cons_eq_map_conv)
  then show ?case using Cons.IH by (simp add: Let_def)
qed simp

lemma flush_no_event [simp]: "flush_event parse no_event = Inr []"
  by (simp add: flush_event_def no_event_def)

lemma events_blank:
  "trim_cr x = [] \<Longrightarrow> events_of_lines parse (as @ x # bs) p =
     rbind (events_of_lines parse as p) (\<lambda>e1. rbind (events_of_lines parse bs no_event) (\<lambda>e2. Inr (e1 @ e2)))"
proof (induction as arbitrary: p)
  case (Cons a as)
  then show ?case
    by (simp add: Let_def rbind_def split: sum.split)
qed simp

lemma trim_cr_nil [simp]: "trim_cr [] = []"
  by (simp add: trim_cr_def)

lemma events_trailing: "trim_cr x = [] \<Longrightarrow> events_of_lines parse (ls @ [x]) p = events_of_lines parse ls p"
  by (simp add: events_blank) (simp add: rbind_def split: sum.split)

lemma parse_events_pieces:
  "parse_sse_events parse body = events_of_lines parse (split_on (\<lambda>c. c = LF) (crlf_to_lf body)) no_event"
proof -
  let ?ps = "split_on (\<lambda>c. c = LF) body"
  have "events_of_lines parse (str_lines body) no_event = events_of_lines parse (butlast ?ps @ [last ?ps]) no_event"
  proof (cases "last ?ps = []")
    case True
    have "events_of_lines parse (butlast ?ps @ [last ?ps]) no_event = events_of_lines parse (butlast ?ps) no_event"
      using True by (intro events_trailing) (simp add: trim_cr_def)
    also have "\<dots> = events_of_lines parse (str_lines body) no_event"
      by (rule events_trim) (simp add: str_lines_def Let_def True)
    finally show ?thesis ..
  next
    case False
    then show ?thesis
      by (intro events_trim) (simp add: str_lines_def Let_def comp_def del: append_butlast_last_id)
  qed
  also have "\<dots> = events_of_lines parse (split_on (\<lambda>c. c = LF) (crlf_to_lf body)) no_event"
    by (rule events_trim) (simp add: pieces_crlf)
  finally show ?thesis by (simp add: parse_sse_events_def)
qed

lemma crlf_LF [simp]: "crlf_to_lf (LF # v) = LF # crlf_to_lf v"
  by (cases v) simp_all

lemma crlf_append: "crlf_to_lf (u @ LF # v) = crlf_to_lf (u @ [LF]) @ crlf_to_lf v"
  by (induction u rule: crlf_to_lf.induct) (auto split: if_splits elim: crlf_to_lf.elims)

lemma crlf_ends_LF: "\<exists>w. crlf_to_lf (u @ [LF]) = w @ [LF]"
proof (induction u rule: crlf_to_lf.induct)
  case (1 c d s)
  show ?case
  proof (cases "c = CR \<and> d = LF")
    case True
    with 1(1) obtain w where "crlf_to_lf (s @ [LF]) = w @ [LF]" by blast
    then show ?thesis using True by (auto intro: exI [of _ "LF # w"])
  next
    case False
    with 1(2) obtain w where "crlf_to_lf (d # s @ [LF]) = w @ [LF]" by auto
    then show ?thesis using False by (auto intro: exI [of _ "c # w"])
  qed
qed auto

lemma crlf_no_LF: "LF \<notin> set s \<Longrightarrow> crlf_to_lf s = s"
  by (induction s rule: crlf_to_lf.induct) auto

text \<open>What has been received up to a blank line stays as it is whatever follows.\<close>

lemma received_prefix:
  assumes "crlf_to_lf (lossy r) = a @ LF # LF # b"
  shows "\<exists>b'. crlf_to_lf (lossy (r @ t)) = a @ LF # LF # b'"
proof (cases "LF \<in> set r")
  case False
  then have "LF \<notin> set (crlf_to_lf (lossy r))" by (simp add: lossy_no_LF crlf_no_LF)
  then show ?thesis by (simp add: assms)
next
  case True
  then obtain r1 r2 where r: "r = r1 @ LF # r2" "LF \<notin> set r2" using split_list_last [OF True] by blast
  have ascii: "byte LF < 128" by (simp add: byte_def)
  define w where "w = crlf_to_lf (lossy r1 @ [LF])"
  have split: "crlf_to_lf (lossy (r1 @ LF # s)) = w @ crlf_to_lf (lossy s)" for s
    unfolding w_def lossy_ascii_append [OF ascii] by (rule crlf_append)
  have "w @ lossy r2 = (a @ [LF, LF]) @ b"
    using assms split [of r2] r by (simp add: crlf_no_LF lossy_no_LF)
  then consider (whole) z where "w = (a @ [LF, LF]) @ z"
    | (cut) z where "w @ z = a @ [LF, LF]" "lossy r2 = z @ b"
    unfolding append_eq_append_conv2 by blast
  then show ?thesis
  proof cases
    case whole
    then show ?thesis using split [of "r2 @ t"] r(1) by auto
  next
    case cut
    show ?thesis
    proof (cases z rule: rev_cases)
      case Nil
      then show ?thesis using cut(1) split [of "r2 @ t"] r(1) by auto
    next
      case (snoc zs c)
      then have "c = LF" using arg_cong [OF cut(1), of last] by simp
      then have "LF \<in> set (lossy r2)" using cut(2) snoc by simp
      then show ?thesis using lossy_no_LF [OF r(2)] by blast
    qed
  qed
qed

lemma first_complete_some:
  assumes "crlf_to_lf buffer = a @ LF # LF # b" "rfind_blank (crlf_to_lf buffer) = Some (length a)"
  shows "first_complete_sse_data parse buffer =
    rbind (events_of_lines parse (split_on (\<lambda>c. c = LF) a) no_event) (\<lambda>evs. Inr (find_response evs))"
proof -
  have "crlf_to_lf (a @ [LF]) = a @ [LF] \<or> True" by simp
  have "map trim_cr (split_on (\<lambda>c. c = LF) (crlf_to_lf (a @ [LF]))) = map trim_cr (split_on (\<lambda>c. c = LF) a @ [[]])"
    unfolding pieces_crlf split_LF_append by simp
  then have "parse_sse_events parse (a @ [LF]) = events_of_lines parse (split_on (\<lambda>c. c = LF) a @ [[]]) no_event"
    unfolding parse_events_pieces by (rule events_trim)
  also have "\<dots> = events_of_lines parse (split_on (\<lambda>c. c = LF) a) no_event"
    by (rule events_trailing) (simp add: trim_cr_def)
  finally show ?thesis using assms by (simp add: first_complete_sse_data_def Let_def)
qed

lemma find_response_append: "find_response e1 = Some d \<Longrightarrow> find_response (e1 @ e2) = Some d"
  by (auto simp: find_response_def map_filter_def split: list.splits)

lemma first_complete_prefix:
  assumes "parse_sse_events parse (lossy (r @ t)) = Inr evs" "find_response evs = Some d"
  shows "first_complete_sse_data parse (lossy r) \<in> {Inr None, Inr (Some d)}"
proof (cases "rfind_blank (crlf_to_lf (lossy r))")
  case None
  then show ?thesis by (simp add: first_complete_sse_data_def)
next
  case (Some i)
  then obtain a b where ab: "crlf_to_lf (lossy r) = a @ LF # LF # b" "length a = i"
    using rfind_blank_Some by blast
  then obtain b' where "crlf_to_lf (lossy (r @ t)) = a @ LF # LF # b'" using received_prefix by blast
  then have "split_on (\<lambda>c. c = LF) (crlf_to_lf (lossy (r @ t))) =
      split_on (\<lambda>c. c = LF) a @ [] # split_on (\<lambda>c. c = LF) b'"
    by (simp add: split_LF_append)
  with assms(1) obtain e1 e2 where "events_of_lines parse (split_on (\<lambda>c. c = LF) a) no_event = Inr e1" "evs = e1 @ e2"
    by (auto simp: parse_events_pieces events_blank trim_cr_def rbind_eq_Inr)
  moreover have "find_response e1 = None \<or> find_response e1 = Some d"
    using calculation(2) assms(2) find_response_append [of e1 _ e2] by (cases "find_response e1") auto
  ultimately show ?thesis using first_complete_some [OF ab(1)] Some ab(2) by auto
qed

lemma first_complete_whole:
  assumes "body = b @ [LF, LF]" "parse_sse_events parse (lossy body) = Inr evs"
  shows "first_complete_sse_data parse (lossy body) = Inr (find_response evs)"
proof -
  have ascii: "byte LF < 128" by (simp add: byte_def)
  obtain y where y: "crlf_to_lf (lossy b @ [LF]) = y @ [LF]" using crlf_ends_LF by blast
  have norm: "crlf_to_lf (lossy body) = y @ LF # LF # []"
    using crlf_append [of "lossy b" "[LF]"] y lossy_ascii_append [OF ascii, of b "[LF]"]
      lossy_ascii_append [OF ascii, of "[]" "[]"] by (simp add: assms(1))
  have "split_on (\<lambda>c. c = LF) (crlf_to_lf (lossy body)) = (split_on (\<lambda>c. c = LF) y @ [[]]) @ [[]]"
    by (simp add: norm split_LF_append)
  then have "events_of_lines parse (split_on (\<lambda>c. c = LF) y) no_event = Inr evs"
    using assms(2) unfolding parse_events_pieces
    by (metis events_trailing trim_cr_nil)
  then show ?thesis using first_complete_some [OF norm] rfind_blank_end [of y] norm by simp
qed


definition sample_chunks :: "string list" where
  "sample_chunks = [''da'', ''ta: 1'' @ [CR], LF # ''id: 7'' @ [LF, LF]]"

definition sample_parse :: "string \<Rightarrow> string + json" where
  "sample_parse s = (if s = ''1'' then Inr (JInt 1) else Inl ''bad'')"


end
