(* ===== verification/Http_Discovery.thy ===== *)
theory Http_Discovery
  imports OAuth Sse
begin

text \<open>
  \<open>transport/http/discovery.rs\<close> and the metadata functions of \<open>transport/http/mod.rs\<close>: where
  a server that answers 401 keeps its authorization metadata, and which documents are believed.
  The network, the URL library and the clock are an environment.
\<close>

section \<open>Documents\<close>

record protected_resource =
  pr_resource :: string
  pr_servers :: "string list"
  pr_scopes :: "string list"

record server_metadata = authorization_server +
  sm_response_types :: "string list"
  sm_challenge_methods :: "string list"

definition dec_protected_resource :: "json \<Rightarrow> protected_resource option" where
  "dec_protected_resource j =
     Option.bind (required ''resource'' as_str j) (\<lambda>res.
     Option.bind (defaulted ''authorization_servers'' [] dec_strings j) (\<lambda>servers.
     Option.bind (defaulted ''scopes_supported'' [] dec_strings j) (\<lambda>scopes.
       Some \<lparr>pr_resource = res, pr_servers = servers, pr_scopes = scopes\<rparr>)))"

definition dec_server_metadata :: "json \<Rightarrow> server_metadata option" where
  "dec_server_metadata j =
     Option.bind (required ''issuer'' as_str j) (\<lambda>issuer.
     Option.bind (optional ''authorization_endpoint'' as_str j) (\<lambda>authorization.
     Option.bind (optional ''token_endpoint'' as_str j) (\<lambda>token.
     Option.bind (optional ''registration_endpoint'' as_str j) (\<lambda>registration.
     Option.bind (defaulted ''response_types_supported'' [] dec_strings j) (\<lambda>types.
     Option.bind (defaulted ''grant_types_supported'' [] dec_strings j) (\<lambda>grants.
     Option.bind (defaulted ''code_challenge_methods_supported'' [] dec_strings j) (\<lambda>methods.
       Some \<lparr>as_issuer = issuer, as_authorization_endpoint = authorization, as_token_endpoint = token,
         as_registration_endpoint = registration, as_grant_types_supported = grants,
         sm_response_types = types, sm_challenge_methods = methods\<rparr>)))))))"

definition has_every_endpoint :: "server_metadata \<Rightarrow> bool" where
  "has_every_endpoint m = (as_authorization_endpoint m \<noteq> None \<and> as_token_endpoint m \<noteq> None \<and>
     as_registration_endpoint m \<noteq> None)"

definition or_else :: "'a option \<Rightarrow> 'a option \<Rightarrow> 'a option" where
  "or_else x y = (if x = None then y else x)"

definition fill_missing_metadata :: "server_metadata \<Rightarrow> server_metadata \<Rightarrow> server_metadata" where
  "fill_missing_metadata p q =
     (if as_issuer p \<noteq> as_issuer q then p
      else p\<lparr>as_authorization_endpoint := or_else (as_authorization_endpoint p) (as_authorization_endpoint q),
             as_token_endpoint := or_else (as_token_endpoint p) (as_token_endpoint q),
             as_registration_endpoint := or_else (as_registration_endpoint p) (as_registration_endpoint q),
             sm_response_types := (if sm_response_types p = [] then sm_response_types q else sm_response_types p),
             sm_challenge_methods :=
               (if sm_challenge_methods p = [] then sm_challenge_methods q else sm_challenge_methods p)\<rparr>)"

section \<open>The environment\<close>

text \<open>A parsed URL; an origin that is opaque is \<open>None\<close>.\<close>

record url_parts =
  up_scheme :: string
  up_host :: "string option"
  up_path :: string
  up_query :: "string option"
  up_fragment :: "string option"
  up_origin :: "string option"
  up_text :: string

record http_response =
  rs_status :: u16
  rs_header :: "string \<Rightarrow> string option"
  rs_length :: "nat option"
  rs_text :: "source_error + string"
  rs_chunks :: "(source_error + string) list"

text \<open>Whose connection a discovery request leaves through: the client's own, the one that follows
  no redirect and gives up after the budget, or one built for an address that was checked.\<close>

datatype get_client = SessionClient | DiscoveryClient | GuardedClient http_client

record 'n discovery_env =
  de_net :: "'n oauth_env"
  de_parse_url :: "string \<Rightarrow> string + url_parts"
  de_with_path :: "url_parts \<Rightarrow> string \<Rightarrow> string"
  de_get :: "get_client \<Rightarrow> string \<Rightarrow> 'n \<Rightarrow> 'n \<times> (source_error + http_response)"
  de_parse_json :: "string \<Rightarrow> string + json"
  de_shape_error :: "json \<Rightarrow> string"
  de_cut_off :: "'n \<Rightarrow> 'n option"

definition discovery_client_for :: "'n discovery_env \<Rightarrow> bool \<Rightarrow> string \<Rightarrow> get_client \<Rightarrow> 'n \<Rightarrow> error + get_client" where
  "discovery_client_for E public_only url standard n =
     (if public_only then rbind (guarded_client (de_net E) url ''MCP discovery'' n) (\<lambda>c. Inr (GuardedClient c))
      else Inr standard)"

section \<open>Metadata of a named issuer\<close>

definition fetch_json :: "'n discovery_env \<Rightarrow> bool \<Rightarrow> (json \<Rightarrow> 'a option) \<Rightarrow> string \<Rightarrow> 'n \<Rightarrow> 'n \<times> (error + 'a)" where
  "fetch_json E public_only dec url n =
     sbind (n, discovery_client_for E public_only url SessionClient n) (\<lambda>client n.
       case de_get E client url n of
         (n, Inl src) \<Rightarrow> (n, Inl (Transport_Failure (redact_endpoint url) src))
       | (n, Inr response) \<Rightarrow>
           (case rs_text response of
              Inl src \<Rightarrow> (n, Inl (Transport_Failure (redact_endpoint url) src))
            | Inr text \<Rightarrow>
                if \<not> is_success (rs_status response)
                then (n, Inl (Http (redact_endpoint url) (rs_status response) text))
                else
                  (case rbind (de_parse_json E text) (\<lambda>j. ok_or (de_shape_error E j) (dec j)) of
                     Inl err \<Rightarrow> (n, Inl (MalformedResponse (''json from '' @ redact_endpoint url @ '': '' @ err)))
                   | Inr a \<Rightarrow> (n, Inr a))))"

definition trim_slashes :: "string \<Rightarrow> string" where
  "trim_slashes s = rev (dropWhile (\<lambda>c. c = CHR ''/'') (rev s))"

definition rfc8414_metadata_url :: "'n discovery_env \<Rightarrow> string \<Rightarrow> error + string" where
  "rfc8414_metadata_url E issuer =
     (case de_parse_url E issuer of
        Inl err \<Rightarrow> Inl (MalformedResponse (''invalid authorization server issuer: '' @ err))
      | Inr u \<Rightarrow> Inr (de_with_path E u (''/.well-known/oauth-authorization-server'' @
          (if up_path u = ''/'' then [] else up_path u))))"

definition origin_text :: "url_parts \<Rightarrow> string" where "origin_text origin = trim_slashes (up_text origin)"

definition issuer_is_origin :: "string \<Rightarrow> url_parts \<Rightarrow> bool" where
  "issuer_is_origin issuer origin = (issuer = origin_text origin \<or> issuer = origin_text origin @ ''/'')"

definition bare_origin_of :: "'n discovery_env \<Rightarrow> string \<Rightarrow> url_parts option" where
  "bare_origin_of E issuer = (case de_parse_url E issuer of
     Inl _ \<Rightarrow> None
   | Inr u \<Rightarrow> if up_scheme u \<in> {''http'', ''https''} \<and> up_path u = ''/'' \<and> up_query u = None \<and> up_fragment u = None
             then Some u else None)"

definition metadata_matches_issuer :: "'n discovery_env \<Rightarrow> server_metadata \<Rightarrow> string \<Rightarrow> bool" where
  "metadata_matches_issuer E m issuer =
     (as_issuer m = issuer \<or>
      (case bare_origin_of E issuer of None \<Rightarrow> False
       | Some origin \<Rightarrow> issuer_is_origin issuer origin \<and> issuer_is_origin (as_issuer m) origin))"

definition validate_metadata_issuer :: "'n discovery_env \<Rightarrow> server_metadata \<Rightarrow> string \<Rightarrow> error + unit" where
  "validate_metadata_issuer E m issuer =
     (if metadata_matches_issuer E m issuer then Inr ()
      else Inl (MalformedResponse ''authorization server metadata issuer did not match''))"

definition fetch_authorization_server_metadata :: "'n discovery_env \<Rightarrow> bool \<Rightarrow> string \<Rightarrow> 'n \<Rightarrow>
    'n \<times> (error + server_metadata)" where
  "fetch_authorization_server_metadata E public_only issuer n =
     sbind (n, rfc8414_metadata_url E issuer) (\<lambda>oauth_url n.
       let oidc_url = trim_slashes issuer @ ''/.well-known/openid-configuration'';
           fetch = fetch_json E public_only dec_server_metadata
       in case fetch oauth_url n of
            (n, Inr metadata) \<Rightarrow>
              (if \<not> metadata_matches_issuer E metadata issuer
               then sbind (fetch oidc_url n) (\<lambda>oidc n.
                      sbind (n, validate_metadata_issuer E oidc issuer) (\<lambda>_ n. (n, Inr oidc)))
               else if has_every_endpoint metadata then (n, Inr metadata)
               else (case fetch oidc_url n of
                       (n, Inr oidc) \<Rightarrow>
                         (n, Inr (if metadata_matches_issuer E oidc issuer
                                  then fill_missing_metadata metadata oidc else metadata))
                     | (n, Inl _) \<Rightarrow> (n, Inr metadata)))
          | (n, Inl _) \<Rightarrow>
              sbind (fetch oidc_url n) (\<lambda>metadata n.
                sbind (n, validate_metadata_issuer E metadata issuer) (\<lambda>_ n. (n, Inr metadata))))"

section \<open>Well-known documents of an origin\<close>

definition max_document_bytes :: nat where "max_document_bytes = 64 * 1024"

datatype fetched = Document json | Missing | Transient

definition discovery_failure_is_transient :: "error \<Rightarrow> bool" where
  "discovery_failure_is_transient err = (case err of EndpointResolution _ _ \<Rightarrow> True | _ \<Rightarrow> False)"

definition is_server_error :: "u16 \<Rightarrow> bool" where "is_server_error status = (500 \<le> status \<and> status \<le> 599)"

fun read_limited :: "string \<Rightarrow> (source_error + string) list \<Rightarrow> (fetched, string) sum" where
  "read_limited body [] = Inr body"
| "read_limited body (Inl _ # _) = Inl Transient"
| "read_limited body (Inr chunk # chunks) =
     (if length body + length chunk > max_document_bytes then Inl Missing
      else read_limited (body @ chunk) chunks)"

definition fetch_discovery_json :: "'n discovery_env \<Rightarrow> bool \<Rightarrow> string \<Rightarrow> 'n \<Rightarrow> 'n \<times> fetched" where
  "fetch_discovery_json E public_only url n =
     (case discovery_client_for E public_only url DiscoveryClient n of
        Inl err \<Rightarrow> (n, if discovery_failure_is_transient err then Transient else Missing)
      | Inr client \<Rightarrow>
          (case de_get E client url n of
             (n, Inl _) \<Rightarrow> (n, Transient)
           | (n, Inr response) \<Rightarrow>
               (n, if is_server_error (rs_status response) then Transient
                   else if \<not> is_success (rs_status response) then Missing
                   else if (case rs_length response of None \<Rightarrow> False | Some l \<Rightarrow> max_document_bytes < l) then Missing
                   else (case read_limited [] (rs_chunks response) of
                           Inl outcome \<Rightarrow> outcome
                         | Inr body \<Rightarrow> (case de_parse_json E body of Inl _ \<Rightarrow> Missing | Inr j \<Rightarrow> Document j)))))"

definition origin_of :: "'n discovery_env \<Rightarrow> string \<Rightarrow> url_parts option" where
  "origin_of E endpoint = (case de_parse_url E endpoint of
     Inl _ \<Rightarrow> None
   | Inr u \<Rightarrow> if up_scheme u \<notin> {''http'', ''https''} \<or> up_host u = None then None
             else (case up_origin u of None \<Rightarrow> ok (de_parse_url E ''null'')
                   | Some text \<Rightarrow> ok (de_parse_url E text)))"

definition protected_resource_path :: string where
  "protected_resource_path = ''/.well-known/oauth-protected-resource''"

definition protected_resource_candidates :: "'n discovery_env \<Rightarrow> string \<Rightarrow> url_parts \<Rightarrow> string list" where
  "protected_resource_candidates E endpoint origin =
     (let root = origin_text origin @ protected_resource_path;
          path = (case de_parse_url E endpoint of Inl _ \<Rightarrow> [] | Inr u \<Rightarrow> trim_slashes (up_path u))
      in if path = [] then [root] else [root @ path, root])"

definition same_origin :: "url_parts \<Rightarrow> url_parts \<Rightarrow> bool" where
  "same_origin u v = (up_origin u \<noteq> None \<and> up_origin u = up_origin v)"

definition same_origin_protected_resource :: "'n discovery_env \<Rightarrow> json \<Rightarrow> url_parts \<Rightarrow> protected_resource option" where
  "same_origin_protected_resource E document origin =
     Option.bind (dec_protected_resource document) (\<lambda>metadata.
     Option.bind (ok (de_parse_url E (pr_resource metadata))) (\<lambda>u.
       if same_origin u origin then Some metadata else None))"

definition origin_authorization_server :: "json \<Rightarrow> url_parts \<Rightarrow> server_metadata option" where
  "origin_authorization_server document origin =
     Option.bind (dec_server_metadata document) (\<lambda>m. if issuer_is_origin (as_issuer m) origin then Some m else None)"

datatype origin_lookup = LookupFound string server_metadata | LookupMissing | LookupTransient

definition can_sign_in :: "server_metadata \<Rightarrow> bool" where
  "can_sign_in m = (as_authorization_endpoint m \<noteq> None \<and> as_token_endpoint m \<noteq> None)"

fun origin_server_lookup :: "'n discovery_env \<Rightarrow> bool \<Rightarrow> url_parts \<Rightarrow> string list \<Rightarrow> bool \<Rightarrow>
    (string \<times> server_metadata) option \<Rightarrow> 'n \<Rightarrow> 'n \<times> origin_lookup" where
  "origin_server_lookup E public_only origin [] transient found n =
     (n, case found of Some (url, m) \<Rightarrow> LookupFound url m
         | None \<Rightarrow> if transient then LookupTransient else LookupMissing)"
| "origin_server_lookup E public_only origin (path # paths) transient found n =
     (let url = origin_text origin @ path
      in case fetch_discovery_json E public_only url n of
           (n, Missing) \<Rightarrow> origin_server_lookup E public_only origin paths transient found n
         | (n, Transient) \<Rightarrow> origin_server_lookup E public_only origin paths True found n
         | (n, Document document) \<Rightarrow>
             (case origin_authorization_server document origin of
                None \<Rightarrow> origin_server_lookup E public_only origin paths transient found n
              | Some metadata \<Rightarrow>
                  (let (first_url, m) = (case found of None \<Rightarrow> (url, metadata)
                         | Some (first_url, first) \<Rightarrow> (first_url, fill_missing_metadata first metadata))
                   in if can_sign_in m then (n, LookupFound first_url m)
                      else origin_server_lookup E public_only origin paths transient (Some (first_url, m)) n)))"

definition origin_server_paths :: "string list" where
  "origin_server_paths = [''/.well-known/oauth-authorization-server'', ''/.well-known/openid-configuration'']"

fun read_authorization_servers :: "'n discovery_env \<Rightarrow> bool \<Rightarrow> string list \<Rightarrow> 'n \<Rightarrow> 'n \<times> server_metadata list \<times> bool" where
  "read_authorization_servers E public_only [] n = (n, [], False)"
| "read_authorization_servers E public_only (issuer # issuers) n =
     (let (n, r) = fetch_authorization_server_metadata E public_only issuer n;
          (n, servers, unreadable) = read_authorization_servers E public_only issuers n
      in case r of Inr m \<Rightarrow> (n, m # servers, unreadable) | Inl _ \<Rightarrow> (n, servers, True))"

record well_known =
  wk_metadata_url :: string
  wk_resource :: "protected_resource option"
  wk_servers :: "server_metadata list"

definition offers_sign_in :: "well_known \<Rightarrow> bool" where
  "offers_sign_in w = list_ex can_sign_in (wk_servers w)"

datatype well_known_outcome = WkFound well_known | WkNotFound | WkTransient

fun discover_candidates :: "'n discovery_env \<Rightarrow> bool \<Rightarrow> url_parts \<Rightarrow> string list \<Rightarrow> bool \<Rightarrow>
    (string \<times> protected_resource) option \<Rightarrow> 'n \<Rightarrow> 'n \<times> well_known_outcome" where
  "discover_candidates E public_only origin [] transient resource n =
     (case origin_server_lookup E public_only origin origin_server_paths False None n of
        (n, LookupFound url m) \<Rightarrow>
          (n, WkFound (case resource of
             Some (r_url, r) \<Rightarrow> \<lparr>wk_metadata_url = r_url, wk_resource = Some r, wk_servers = [m]\<rparr>
           | None \<Rightarrow> \<lparr>wk_metadata_url = url, wk_resource = None, wk_servers = [m]\<rparr>))
      | (n, LookupTransient) \<Rightarrow> (n, WkTransient)
      | (n, LookupMissing) \<Rightarrow> (n, if transient then WkTransient else WkNotFound))"
| "discover_candidates E public_only origin (candidate # candidates) transient resource n =
     (case fetch_discovery_json E public_only candidate n of
        (n, Missing) \<Rightarrow> discover_candidates E public_only origin candidates transient resource n
      | (n, Transient) \<Rightarrow> discover_candidates E public_only origin candidates True resource n
      | (n, Document document) \<Rightarrow>
          (case same_origin_protected_resource E document origin of
             Some metadata \<Rightarrow>
               (case read_authorization_servers E public_only (pr_servers metadata) n of
                  (n, servers, unreadable) \<Rightarrow>
                    if servers \<noteq> []
                    then (n, WkFound \<lparr>wk_metadata_url = candidate, wk_resource = Some metadata, wk_servers = servers\<rparr>)
                    else discover_candidates E public_only origin candidates (transient \<or> unreadable)
                           (if resource = None then Some (candidate, metadata) else resource) n)
           | None \<Rightarrow>
               (case origin_authorization_server document origin of
                  Some metadata \<Rightarrow>
                    (n, WkFound \<lparr>wk_metadata_url = candidate, wk_resource = None, wk_servers = [metadata]\<rparr>)
                | None \<Rightarrow> discover_candidates E public_only origin candidates transient resource n)))"

definition discover_from_well_known :: "'n discovery_env \<Rightarrow> bool \<Rightarrow> string \<Rightarrow> 'n \<Rightarrow> 'n \<times> well_known_outcome" where
  "discover_from_well_known E public_only endpoint n = (case origin_of E endpoint of
     None \<Rightarrow> (n, WkNotFound)
   | Some origin \<Rightarrow> discover_candidates E public_only origin
       (protected_resource_candidates E endpoint origin) False None n)"

text \<open>The client's cache of the answer, and the answer; the budget may run out midway.\<close>

definition well_known_authorization :: "'n discovery_env \<Rightarrow> bool \<Rightarrow> string \<Rightarrow> well_known_outcome option \<Rightarrow> 'n \<Rightarrow>
    'n \<times> well_known_outcome option \<times> well_known_outcome" where
  "well_known_authorization E public_only endpoint known n = (case known of
     Some outcome \<Rightarrow> (n, known, outcome)
   | None \<Rightarrow>
       (let (n, outcome) = (case de_cut_off E n of Some n \<Rightarrow> (n, WkTransient)
              | None \<Rightarrow> discover_from_well_known E public_only endpoint n)
        in (n, if outcome \<noteq> WkTransient then Some outcome else None, outcome)))"

section \<open>Which documents are believed\<close>

lemma fill_keeps_issuer [simp]: "as_issuer (fill_missing_metadata p q) = as_issuer p"
  by (simp add: fill_missing_metadata_def)

lemma matches_by_issuer: "as_issuer m = as_issuer m' \<Longrightarrow> metadata_matches_issuer E m i = metadata_matches_issuer E m' i"
  by (simp add: metadata_matches_issuer_def cong: option.case_cong)

lemma fetched_metadata_matches:
  assumes "fetch_authorization_server_metadata E public_only issuer n = (n', Inr m)"
  shows "metadata_matches_issuer E m issuer"
proof -
  have fill: "metadata_matches_issuer E (fill_missing_metadata p q) issuer = metadata_matches_issuer E p issuer" for p q
    by (rule matches_by_issuer) simp
  obtain url where url: "rfc8414_metadata_url E issuer = Inr url"
    using assms by (cases "rfc8414_metadata_url E issuer") (auto simp: fetch_authorization_server_metadata_def)
  obtain n1 r1 where f1: "fetch_json E public_only dec_server_metadata url n = (n1, r1)" by fastforce
  obtain n2 r2 where f2: "fetch_json E public_only dec_server_metadata
      (trim_slashes issuer @ ''/.well-known/openid-configuration'') n1 = (n2, r2)" by fastforce
  show ?thesis using assms
    by (cases r1; cases r2)
      (auto simp: fetch_authorization_server_metadata_def url f1 f2 validate_metadata_issuer_def fill Let_def split: if_splits)
qed

lemma read_servers_match:
  "read_authorization_servers E public_only issuers n = (n', servers, unreadable) \<Longrightarrow> m \<in> set servers \<Longrightarrow>
    \<exists>i \<in> set issuers. metadata_matches_issuer E m i"
proof (induction issuers arbitrary: n n' servers unreadable)
  case (Cons issuer issuers)
  obtain n1 r where f: "fetch_authorization_server_metadata E public_only issuer n = (n1, r)" by fastforce
  obtain n2 ms u where rd: "read_authorization_servers E public_only issuers n1 = (n2, ms, u)" by (metis prod_cases3)
  show ?case
  proof (cases r)
    case (Inl err)
    then show ?thesis using Cons.prems Cons.IH [OF rd] f rd by auto
  next
    case (Inr m1)
    then show ?thesis using Cons.prems Cons.IH [OF rd] f rd fetched_metadata_matches by fastforce
  qed
qed simp

lemma origin_server_issuer: "origin_authorization_server document origin = Some m \<Longrightarrow> issuer_is_origin (as_issuer m) origin"
  by (auto simp: origin_authorization_server_def bind_eq_Some_conv split: if_splits)

lemma origin_lookup_issuer:
  assumes "origin_server_lookup E public_only origin paths transient found n = (n', LookupFound url m)"
    and "\<forall>u m. found = Some (u, m) \<longrightarrow> issuer_is_origin (as_issuer m) origin"
  shows "issuer_is_origin (as_issuer m) origin"
  using assms
proof (induction paths arbitrary: transient found n)
  case Nil
  then show ?case by (auto split: option.splits if_splits)
next
  case (Cons path paths)
  obtain n1 d where f: "fetch_discovery_json E public_only (origin_text origin @ path) n = (n1, d)" by fastforce
  show ?case
  proof (cases d)
    case (Document document)
    show ?thesis
    proof (cases "origin_authorization_server document origin")
      case None
      then show ?thesis using Cons f Document by (simp add: Let_def)
    next
      case (Some metadata)
      define r where "r = (case found of None \<Rightarrow> (origin_text origin @ path, metadata)
        | Some (first_url, first) \<Rightarrow> (first_url, fill_missing_metadata first metadata))"
      obtain fu fm where fm: "r = (fu, fm)" by fastforce
      have "issuer_is_origin (as_issuer fm) origin"
        using fm Cons.prems(2) origin_server_issuer [OF Some] by (auto simp: r_def split: option.splits)
      then show ?thesis
        using Cons.prems Cons.IH [of transient "Some (fu, fm)" n1] f Document Some fm r_def
        by (auto simp: Let_def split: if_splits)
    qed
  qed (use Cons f in \<open>simp_all add: Let_def\<close>)
qed

definition believed :: "'n discovery_env \<Rightarrow> url_parts \<Rightarrow> well_known \<Rightarrow> bool" where
  "believed E origin w = (wk_servers w \<noteq> [] \<and>
     (\<forall>r. wk_resource w = Some r \<longrightarrow>
        (\<exists>u. de_parse_url E (pr_resource r) = Inr u \<and> same_origin u origin)) \<and>
     (\<forall>m \<in> set (wk_servers w). issuer_is_origin (as_issuer m) origin \<or>
        (\<exists>r i. wk_resource w = Some r \<and> i \<in> set (pr_servers r) \<and> metadata_matches_issuer E m i)))"

lemma resource_same_origin:
  "same_origin_protected_resource E document origin = Some r \<Longrightarrow>
    \<exists>u. de_parse_url E (pr_resource r) = Inr u \<and> same_origin u origin"
  by (auto simp: same_origin_protected_resource_def bind_eq_Some_conv ok_def split: if_splits sum.splits)

lemma discover_candidates_believed:
  assumes "discover_candidates E public_only origin candidates transient resource n = (n', WkFound w)"
    and "\<forall>u r. resource = Some (u, r) \<longrightarrow> (\<exists>p. de_parse_url E (pr_resource r) = Inr p \<and> same_origin p origin)"
  shows "believed E origin w"
  using assms
proof (induction candidates arbitrary: transient resource n)
  case Nil
  obtain n1 l where l: "origin_server_lookup E public_only origin origin_server_paths False None n = (n1, l)" by fastforce
  show ?case
  proof (cases l)
    case (LookupFound url m)
    then have "issuer_is_origin (as_issuer m) origin" using origin_lookup_issuer [OF l [unfolded LookupFound]] by simp
    then show ?thesis using Nil l LookupFound by (auto simp: believed_def split: option.splits)
  qed (use Nil l in \<open>auto split: if_splits\<close>)
next
  case (Cons candidate candidates)
  obtain n1 d where f: "fetch_discovery_json E public_only candidate n = (n1, d)" by fastforce
  show ?case
  proof (cases d)
    case (Document document)
    show ?thesis
    proof (cases "same_origin_protected_resource E document origin")
      case None
      show ?thesis
      proof (cases "origin_authorization_server document origin")
        case (Some m)
        then show ?thesis using Cons.prems f Document None origin_server_issuer [OF Some] by (auto simp: believed_def)
      qed (use Cons f Document None in simp)
    next
      case (Some r)
      obtain n2 servers u where rd: "read_authorization_servers E public_only (pr_servers r) n1 = (n2, servers, u)"
        by (metis prod_cases3)
      show ?thesis
      proof (cases "servers = []")
        case True
        have "\<forall>u r'. (if resource = None then Some (candidate, r) else resource) = Some (u, r') \<longrightarrow>
            (\<exists>p. de_parse_url E (pr_resource r') = Inr p \<and> same_origin p origin)"
          using Cons.prems(2) resource_same_origin [OF Some] by auto
        moreover have "discover_candidates E public_only origin candidates (transient \<or> u)
            (if resource = None then Some (candidate, r) else resource) n2 = (n', WkFound w)"
          using Cons.prems(1) f Document Some rd True by simp
        ultimately show ?thesis using Cons.IH by blast
      next
        case False
        have "\<forall>m \<in> set servers. \<exists>i \<in> set (pr_servers r). metadata_matches_issuer E m i"
          using read_servers_match [OF rd] by blast
        then show ?thesis
          using False Cons.prems(1) f Document Some rd resource_same_origin [OF Some]
          by (auto simp: believed_def) blast
      qed
    qed
  qed (use Cons f in simp_all)
qed

text \<open>
  C20. Sign-in metadata comes from where the server lives: what well-known discovery finds on an
  endpoint's origin names only authorization servers whose metadata claims to be the origin
  itself, or was published by an issuer that a protected-resource document of that same origin
  names. Another issuer's document, or a resource of another origin, is never believed.
\<close>

theorem discovery_believes_own_origin:
  assumes "discover_from_well_known E public_only endpoint n = (n', WkFound w)"
  shows "\<exists>origin. origin_of E endpoint = Some origin \<and> wk_servers w \<noteq> [] \<and>
     (\<forall>r. wk_resource w = Some r \<longrightarrow>
        (\<exists>u. de_parse_url E (pr_resource r) = Inr u \<and> same_origin u origin)) \<and>
     (\<forall>m \<in> set (wk_servers w). issuer_is_origin (as_issuer m) origin \<or>
        (\<exists>r i. wk_resource w = Some r \<and> i \<in> set (pr_servers r) \<and> metadata_matches_issuer E m i))"
proof -
  obtain origin where o: "origin_of E endpoint = Some origin"
    using assms by (cases "origin_of E endpoint") (auto simp: discover_from_well_known_def)
  then have "believed E origin w"
    using assms discover_candidates_believed by (fastforce simp: discover_from_well_known_def)
  with o show ?thesis by (simp add: believed_def)
qed

section \<open>Requests of a client held to public addresses\<close>

text \<open>A request to an address that was checked for that very URL.\<close>

definition vetted_get :: "'n discovery_env \<Rightarrow> get_client \<Rightarrow> string \<Rightarrow> bool" where
  "vetted_get E client url = (case client of
     GuardedClient g \<Rightarrow> (\<exists>n. guarded_client (de_net E) url ''MCP discovery'' n = Inr g) | _ \<Rightarrow> False)"

definition divert_get :: "(get_client \<Rightarrow> string \<Rightarrow> 'n \<Rightarrow> 'n \<times> (source_error + http_response)) \<Rightarrow>
    'n discovery_env \<Rightarrow> 'n discovery_env" where
  "divert_get f E = E\<lparr>de_get := \<lambda>client url. if vetted_get E client url then de_get E client url else f client url\<rparr>"

lemma divert_get_simps [simp]:
  "de_net (divert_get f E) = de_net E" "de_parse_url (divert_get f E) = de_parse_url E"
  "de_with_path (divert_get f E) = de_with_path E" "de_parse_json (divert_get f E) = de_parse_json E"
  "de_shape_error (divert_get f E) = de_shape_error E" "de_cut_off (divert_get f E) = de_cut_off E"
  by (simp_all add: divert_get_def)

lemma divert_client: "discovery_client_for (divert_get f E) p = discovery_client_for E p"
  by (intro ext) (simp add: discovery_client_for_def)

lemma divert_vetted:
  assumes "discovery_client_for E True url standard n = Inr client"
  shows "de_get (divert_get f E) client url = de_get E client url"
proof -
  have "vetted_get E client url" using assms by (auto simp: discovery_client_for_def rbind_eq_Inr vetted_get_def)
  then show ?thesis by (simp add: divert_get_def)
qed

lemma divert_fetch_json: "fetch_json (divert_get f E) True dec url = fetch_json E True dec url"
proof
  fix n
  show "fetch_json (divert_get f E) True dec url n = fetch_json E True dec url n"
  proof (cases "discovery_client_for E True url SessionClient n")
    case (Inr client)
    then show ?thesis by (simp add: fetch_json_def divert_client divert_vetted [OF Inr] cong: prod.case_cong sum.case_cong if_cong)
  qed (simp add: fetch_json_def divert_client)
qed

lemma divert_fetch_discovery: "fetch_discovery_json (divert_get f E) True url = fetch_discovery_json E True url"
proof
  fix n
  show "fetch_discovery_json (divert_get f E) True url n = fetch_discovery_json E True url n"
  proof (cases "discovery_client_for E True url DiscoveryClient n")
    case (Inr client)
    then show ?thesis by (simp add: fetch_discovery_json_def divert_client divert_vetted [OF Inr] cong: prod.case_cong sum.case_cong if_cong)
  qed (simp add: fetch_discovery_json_def divert_client)
qed

lemma divert_pure:
  "rfc8414_metadata_url (divert_get f E) = rfc8414_metadata_url E"
  "metadata_matches_issuer (divert_get f E) = metadata_matches_issuer E"
  "validate_metadata_issuer (divert_get f E) = validate_metadata_issuer E"
  "origin_of (divert_get f E) = origin_of E"
  "protected_resource_candidates (divert_get f E) = protected_resource_candidates E"
  "same_origin_protected_resource (divert_get f E) = same_origin_protected_resource E"
  by (intro ext; simp add: rfc8414_metadata_url_def metadata_matches_issuer_def bare_origin_of_def
      validate_metadata_issuer_def origin_of_def protected_resource_candidates_def
      same_origin_protected_resource_def cong: sum.case_cong option.case_cong if_cong)+

lemma divert_fetch_metadata:
  "fetch_authorization_server_metadata (divert_get f E) True = fetch_authorization_server_metadata E True"
  by (intro ext) (simp add: fetch_authorization_server_metadata_def divert_pure divert_fetch_json Let_def
      cong: prod.case_cong sum.case_cong if_cong)

lemma divert_read_servers: "read_authorization_servers (divert_get f E) True issuers n = read_authorization_servers E True issuers n"
  by (induction issuers arbitrary: n) (simp_all add: divert_fetch_metadata)

lemma divert_origin_lookup:
  "origin_server_lookup (divert_get f E) True origin paths transient found n =
   origin_server_lookup E True origin paths transient found n"
  by (induction paths arbitrary: transient found n)
    (simp_all add: divert_fetch_discovery Let_def cong: prod.case_cong fetched.case_cong option.case_cong if_cong)

lemma divert_candidates:
  "discover_candidates (divert_get f E) True origin candidates transient resource n =
   discover_candidates E True origin candidates transient resource n"
  by (induction candidates arbitrary: transient resource n)
    (simp_all add: divert_fetch_discovery divert_origin_lookup divert_read_servers divert_pure
      cong: prod.case_cong fetched.case_cong option.case_cong if_cong)

text \<open>
  C21. A client held to public addresses discovers through them only: whatever the network would
  answer to a request that was not vetted for its own URL, discovery does the same and finds the
  same, so no such request is made.
\<close>

theorem public_discovery_vets_requests:
  "well_known_authorization (divert_get f E) True endpoint known n =
   well_known_authorization E True endpoint known n"
  by (simp add: well_known_authorization_def discover_from_well_known_def divert_pure divert_candidates
      cong: option.case_cong)

text \<open>An origin that publishes its own metadata at the second place it is looked for.\<close>

definition sample_url :: "string \<Rightarrow> string + url_parts" where
  "sample_url s = (if s \<in> {''https://a/mcp'', ''https://a/''}
     then Inr \<lparr>up_scheme = ''https'', up_host = Some ''a'', up_path = (if s = ''https://a/'' then ''/'' else ''/mcp''),
       up_query = None, up_fragment = None, up_origin = Some ''https://a/'', up_text = s\<rparr>
     else Inl ''bad'')"

definition sample_discovery :: "nat discovery_env" where
  "sample_discovery = \<lparr>de_net = undefined, de_parse_url = sample_url, de_with_path = (\<lambda>u p. p),
     de_get = (\<lambda>client url n. (Suc n, Inr \<lparr>rs_status = (if n = 2 then 200 else 404), rs_header = (\<lambda>_. None),
       rs_length = None, rs_text = Inr ''doc'', rs_chunks = [Inr ''doc'']\<rparr>)),
     de_parse_json = (\<lambda>_. Inr (jobject [(''issuer'', JStr ''https://a'')])),
     de_shape_error = (\<lambda>_. []), de_cut_off = (\<lambda>_. None)\<rparr>"

lemma sample_discovery_parts:
  "origin_of sample_discovery ''https://a/mcp'' =
     Some \<lparr>up_scheme = ''https'', up_host = Some ''a'', up_path = ''/'', up_query = None, up_fragment = None,
       up_origin = Some ''https://a/'', up_text = ''https://a/''\<rparr>"
  by (simp add: origin_of_def sample_discovery_def sample_url_def)

lemma sample_fetch: "fetch_discovery_json sample_discovery False url n =
    (Suc n, if n = 2 then Document (jobject [(''issuer'', JStr ''https://a'')]) else Missing)"
  by (simp add: fetch_discovery_json_def discovery_client_for_def sample_discovery_def is_server_error_def
      is_success_def max_document_bytes_def)

lemma sample_discovery_found:
  "\<exists>w. discover_from_well_known sample_discovery False ''https://a/mcp'' 0 = (4, WkFound w)"
proof -
  have "trim_slashes ''https://a/'' = ''https://a''" "trim_slashes ''/mcp'' = ''/mcp''" by code_simp+
  moreover have "de_parse_url sample_discovery = sample_url" by (simp add: sample_discovery_def)
  ultimately show ?thesis
    by (simp add: discover_from_well_known_def sample_discovery_parts protected_resource_candidates_def sample_url_def
        sample_fetch origin_server_paths_def origin_authorization_server_def dec_server_metadata_def field_defs
        jget_jobject issuer_is_origin_def origin_text_def can_sign_in_def Let_def)
qed

theorem discovery_believes_own_origin_witness:
  "\<exists>w origin. discover_from_well_known sample_discovery False ''https://a/mcp'' 0 = (4, WkFound w) \<and>
     origin_of sample_discovery ''https://a/mcp'' = Some origin \<and> wk_servers w \<noteq> []"
  using sample_discovery_found discovery_believes_own_origin by fastforce

end
