(* ===== verification/Http_Client.thy ===== *)
theory Http_Client
  imports Http_Discovery Protocol
begin

text \<open>
  \<open>McpHttpClient\<close> of \<open>transport/http/mod.rs\<close> with \<open>transport/http/headers.rs\<close>: the session it
  keeps, the requests it makes of it, and what it makes of the answers. The network is an
  environment; redirects and address pins are in the theory of the client's construction.
\<close>

section \<open>Headers\<close>

definition trim_quotes :: "string \<Rightarrow> string" where
  "trim_quotes s = rev (dropWhile (\<lambda>c. c = CHR 0x22) (rev (dropWhile (\<lambda>c. c = CHR 0x22) s)))"

definition parse_auth_attribute_list :: "string \<Rightarrow> (string, string) btree" where
  "parse_auth_attribute_list input =
     bt_of_list (List.map_filter (\<lambda>part. map_option (\<lambda>(k, v). (trim k, trim_quotes (trim v))) (split_once CHR ''='' part))
       (split_on (\<lambda>c. c = CHR '','') input))"

definition parse_www_authenticate_challenge :: "http_response \<Rightarrow> auth_challenge option" where
  "parse_www_authenticate_challenge response =
     map_option (\<lambda>raw.
       let (sch, rest) = (case split_once CHR '' '' (trim raw) of Some p \<Rightarrow> p | None \<Rightarrow> (trim raw, []));
           attributes = parse_auth_attribute_list (trim rest)
       in \<lparr>scheme = trim sch, realm = bt_get attributes ''realm'',
           challenge_metadata = bt_get attributes ''resource_metadata''\<rparr>)
       (rs_header response ''WWW-Authenticate'')"

record http_request =
  rq_method :: string
  rq_headers :: "(string \<times> string) list"
  rq_query :: "(string \<times> string) list"
  rq_body :: "json option"

definition request_header :: "string \<Rightarrow> string \<Rightarrow> http_request \<Rightarrow> http_request" where
  "request_header name v rq = rq\<lparr>rq_headers := rq_headers rq @ [(name, v)]\<rparr>"

record 'n http_env =
  he_discovery :: "'n discovery_env"
  he_send :: "http_request \<Rightarrow> 'n \<Rightarrow> 'n \<times> (source_error + http_response)"
  he_name_error :: "string \<Rightarrow> string option"
  he_value_error :: "string \<Rightarrow> string option"
  he_base64 :: "string \<Rightarrow> string"
  he_print_json :: "json \<Rightarrow> string"

definition apply_one_header :: "'n http_env \<Rightarrow> http_request \<Rightarrow> string \<Rightarrow> string \<Rightarrow> http_request" where
  "apply_one_header E rq name v =
     (if he_name_error E name = None \<and> he_value_error E v = None then request_header name v rq else rq)"

definition apply_auth :: "'n http_env \<Rightarrow> http_request \<Rightarrow> auth_config \<Rightarrow> http_request" where
  "apply_auth E rq auth = (case auth of
     BearerToken token \<Rightarrow> request_header ''authorization'' (''Bearer '' @ trim token) rq
   | Basic username password \<Rightarrow>
       request_header ''authorization'' (''Basic '' @ he_base64 E (username @ '':'' @ password)) rq
   | Header name v \<Rightarrow> apply_one_header E rq name v
   | Headers hs \<Rightarrow> foldl (\<lambda>rq (name, v). apply_one_header E rq name v) rq hs
   | QueryParam name v \<Rightarrow> rq\<lparr>rq_query := rq_query rq @ [(name, v)]\<rparr>
   | NoAuth \<Rightarrow> rq)"

definition mcp_param_prefix :: string where "mcp_param_prefix = ''Mcp-Param-''"

definition param_header :: "'n http_env \<Rightarrow> string \<Rightarrow> string \<Rightarrow> json \<Rightarrow> error + string \<times> string" where
  "param_header E property tag v =
     (let name = mcp_param_prefix @ tag;
          text = (case v of JStr s \<Rightarrow> s | _ \<Rightarrow> he_print_json E v)
      in case he_name_error E name of
           Some err \<Rightarrow> Inl (MalformedResponse (''tool property `'' @ property @
             ''` requested an unusable header name: '' @ err))
         | None \<Rightarrow> (case he_value_error E text of
             Some err \<Rightarrow> Inl (MalformedResponse (''tool property `'' @ property @
               ''` produced an unusable header value: '' @ err))
           | None \<Rightarrow> Inr (name, text)))"

definition mcp_param_headers_from_schema :: "'n http_env \<Rightarrow> remote_tool \<Rightarrow> json \<Rightarrow> error + (string \<times> string) list" where
  "mcp_param_headers_from_schema E t arguments =
     (case (as_object arguments, Option.bind (jget ''properties'' (rt_input_schema t)) as_object) of
        (Some args, Some properties) \<Rightarrow>
          collect (\<lambda>(property, tag, v). param_header E property tag v)
            (List.map_filter (\<lambda>(property, schema).
               Option.bind (Option.bind (jget ''x-mcp-header'' schema) as_str) (\<lambda>tag.
                 map_option (\<lambda>v. (property, tag, v)) (bt_get args property))) properties)
      | _ \<Rightarrow> Inr [])"

section \<open>The session\<close>

record http_conf =
  cf_endpoint :: string
  cf_info :: client_info
  cf_capabilities :: json
  cf_auth :: auth_config
  cf_public_only :: bool

record session =
  ss_initialized :: bool
  ss_version :: string
  ss_session_id :: "string option"
  ss_initialize :: "initialize_result option"
  ss_tools :: "string \<rightharpoonup> remote_tool"

definition no_session :: session where
  "no_session = \<lparr>ss_initialized = False, ss_version = latest_protocol_version, ss_session_id = None,
     ss_initialize = None, ss_tools = Map.empty\<rparr>"

record 'n mcp_client =
  mc_session :: session
  mc_next_id :: "64 word"
  mc_well_known :: "well_known_outcome option"
  mc_outside :: 'n

definition client_new :: "'n \<Rightarrow> 'n mcp_client" where
  "client_new n = \<lparr>mc_session = no_session, mc_next_id = 1, mc_well_known = None, mc_outside = n\<rparr>"

definition reset_session :: "'n mcp_client \<Rightarrow> 'n mcp_client" where
  "reset_session c = c\<lparr>mc_session := no_session\<rparr>"

definition next_request_id :: "'n mcp_client \<Rightarrow> 'n mcp_client \<times> int" where
  "next_request_id c = (c\<lparr>mc_next_id := mc_next_id c + 1\<rparr>, sint (mc_next_id c))"

text \<open>A call on the outside world alone.\<close>

definition away :: "('n \<Rightarrow> 'n \<times> 'a) \<Rightarrow> 'n mcp_client \<Rightarrow> 'n mcp_client \<times> 'a" where
  "away f c = (let (n, a) = f (mc_outside c) in (c\<lparr>mc_outside := n\<rparr>, a))"

definition send :: "http_conf \<Rightarrow> 'n http_env \<Rightarrow> http_request \<Rightarrow> 'n mcp_client \<Rightarrow> 'n mcp_client \<times> (error + http_response)" where
  "send cf E rq c = (case away (he_send E rq) c of
     (c, Inl src) \<Rightarrow> (c, Inl (Transport_Failure (redact_endpoint (cf_endpoint cf)) src))
   | (c, Inr response) \<Rightarrow> (c, Inr response))"

definition read_text :: "http_conf \<Rightarrow> http_response \<Rightarrow> error + string" where
  "read_text cf response = (case rs_text response of
     Inl src \<Rightarrow> Inl (Transport_Failure (redact_endpoint (cf_endpoint cf)) src) | Inr text \<Rightarrow> Inr text)"

definition http_error :: "http_conf \<Rightarrow> http_response \<Rightarrow> string \<Rightarrow> error" where
  "http_error cf response body = Http (redact_endpoint (cf_endpoint cf)) (rs_status response) body"

definition text_or_empty :: "http_conf \<Rightarrow> http_response \<Rightarrow> string" where
  "text_or_empty cf response = (case read_text cf response of Inl _ \<Rightarrow> [] | Inr text \<Rightarrow> text)"

definition mcp_http_accept :: string where "mcp_http_accept = ''application/json, text/event-stream''"
definition header_protocol_version :: string where "header_protocol_version = ''MCP-Protocol-Version''"
definition header_session_id :: string where "header_session_id = ''Mcp-Session-Id''"

definition post_json :: http_request where
  "post_json = \<lparr>rq_method = ''POST'', rq_headers = [(''content-type'', ''application/json''),
     (''accept'', mcp_http_accept)], rq_query = [], rq_body = None\<rparr>"

definition session_headers :: "session \<Rightarrow> http_request \<Rightarrow> http_request" where
  "session_headers s rq =
     (let rq = request_header header_protocol_version (ss_version s) rq
      in case ss_session_id s of None \<Rightarrow> rq | Some sid \<Rightarrow> request_header header_session_id sid rq)"

definition apply_standard_headers :: "http_conf \<Rightarrow> 'n http_env \<Rightarrow> session \<Rightarrow> http_request \<Rightarrow> string \<Rightarrow>
    string option \<Rightarrow> (string \<times> string) list \<Rightarrow> http_request" where
  "apply_standard_headers cf E s rq meth name extra =
     (let rq = request_header ''Mcp-Method'' meth (apply_auth E rq (cf_auth cf));
          rq = (case name of None \<Rightarrow> rq | Some v \<Rightarrow> request_header ''Mcp-Name'' v rq)
      in foldl (\<lambda>rq (k, v). request_header k v rq) (session_headers s rq) extra)"

definition rpc_body :: "int option \<Rightarrow> string \<Rightarrow> json \<Rightarrow> json" where
  "rpc_body rid meth params = jobject ([(''jsonrpc'', JStr ''2.0'')] @
     (case rid of None \<Rightarrow> [] | Some i \<Rightarrow> [(''id'', JInt i)]) @ [(''method'', JStr meth), (''params'', params)])"

definition initialize_body :: "http_conf \<Rightarrow> int \<Rightarrow> json" where
  "initialize_body cf rid = rpc_body (Some rid) ''initialize'' (jobject
     [(''protocolVersion'', JStr latest_protocol_version), (''capabilities'', cf_capabilities cf),
      (''clientInfo'', enc_client_info (cf_info cf))])"

section \<open>Reading a reply\<close>

record response_envelope =
  ev_result :: json
  ev_session_id :: "string option"

definition is_bearer :: "string \<Rightarrow> bool" where "is_bearer sch = eq_ignore_case sch ''bearer''"

definition client_well_known :: "http_conf \<Rightarrow> 'n http_env \<Rightarrow> 'n mcp_client \<Rightarrow> 'n mcp_client \<times> well_known_outcome" where
  "client_well_known cf E c =
     (case well_known_authorization (he_discovery E) (cf_public_only cf) (cf_endpoint cf) (mc_well_known c) (mc_outside c) of
        (n, known, outcome) \<Rightarrow> (c\<lparr>mc_outside := n, mc_well_known := known\<rparr>, outcome))"

definition oauth_metadata_url :: "http_conf \<Rightarrow> 'n http_env \<Rightarrow> http_response \<Rightarrow> 'n mcp_client \<Rightarrow>
    'n mcp_client \<times> string option" where
  "oauth_metadata_url cf E response c =
     (case parse_www_authenticate_challenge response of
        None \<Rightarrow> (c, None)
      | Some challenge \<Rightarrow>
          if challenge_metadata challenge \<noteq> None then (c, challenge_metadata challenge)
          else if \<not> is_bearer (scheme challenge) then (c, None)
          else (case client_well_known cf E c of
                  (c, WkFound found) \<Rightarrow> (c, if offers_sign_in found then Some (wk_metadata_url found) else None)
                | (c, _) \<Rightarrow> (c, None)))"

definition read_payload :: "http_conf \<Rightarrow> 'n http_env \<Rightarrow> http_response \<Rightarrow> error + json" where
  "read_payload cf E response =
     (let content_type = (case rs_header response ''content-type'' of None \<Rightarrow> [] | Some t \<Rightarrow> t)
      in if starts_with ''text/event-stream'' content_type
         then read_sse_payload (de_parse_json (he_discovery E)) []
                (map (\<lambda>ch. case ch of Inl src \<Rightarrow> Inl (Transport_Failure (redact_endpoint (cf_endpoint cf)) src)
                                    | Inr bytes \<Rightarrow> Inr bytes) (rs_chunks response))
         else rbind (read_text cf response) (\<lambda>text.
                case de_parse_json (he_discovery E) text of
                  Inl err \<Rightarrow> Inl (MalformedResponse (''response body is not json: '' @ err @ '' '' @ em_dash @ '' '' @ text))
                | Inr j \<Rightarrow> Inr j))"

definition read_response :: "http_conf \<Rightarrow> 'n http_env \<Rightarrow> http_response \<Rightarrow> 'n mcp_client \<Rightarrow>
    'n mcp_client \<times> (error + response_envelope)" where
  "read_response cf E response c =
     (if rs_status response = 401
      then (case oauth_metadata_url cf E response c of
              (c, metadata) \<Rightarrow> (c, Inl (Unauthorized (redact_endpoint (cf_endpoint cf)) metadata)))
      else if \<not> is_success (rs_status response)
      then (c, Inl (http_error cf response (text_or_empty cf response)))
      else (c, rbind (read_payload cf E response) (\<lambda>payload.
              case jget ''error'' payload of
                Some err \<Rightarrow> Inl (Rpc (he_print_json E err))
              | None \<Rightarrow> (case jget ''result'' payload of
                  None \<Rightarrow> Inl (MalformedResponse (''response has no `result`: '' @ he_print_json E payload))
                | Some result \<Rightarrow> Inr \<lparr>ev_result = result, ev_session_id = rs_header response header_session_id\<rparr>))))"

section \<open>Requests\<close>

definition send_notification :: "http_conf \<Rightarrow> 'n http_env \<Rightarrow> string \<Rightarrow> json \<Rightarrow> 'n mcp_client \<Rightarrow>
    'n mcp_client \<times> (error + unit)" where
  "send_notification cf E meth params c =
     sbind (send cf E ((apply_standard_headers cf E (mc_session c) post_json meth None [])
          \<lparr>rq_body := Some (rpc_body None meth params)\<rparr>) c) (\<lambda>response c.
       if is_success (rs_status response) then (c, Inr ())
       else (c, Inl (http_error cf response (text_or_empty cf response))))"

definition initialize :: "http_conf \<Rightarrow> 'n http_env \<Rightarrow> 'n mcp_client \<Rightarrow> 'n mcp_client \<times> (error + initialize_result)" where
  "initialize cf E c =
     (case ss_initialize (mc_session c) of
        Some existing \<Rightarrow> (c, Inr existing)
      | None \<Rightarrow>
          (let (c, rid) = next_request_id c
           in sbind (send cf E ((apply_auth E post_json (cf_auth cf))\<lparr>rq_body := Some (initialize_body cf rid)\<rparr>) c)
                (\<lambda>response c. sbind (read_response cf E response c) (\<lambda>envelope c.
              sbind (c, ok_or (MalformedResponse (''initialize result: '' @ de_shape_error (he_discovery E) (ev_result envelope)))
                          (dec_initialize_result (ev_result envelope))) (\<lambda>initialized c.
              sbind (c, validate_protocol_version (ir_protocol_version initialized)) (\<lambda>_ c.
              let c = c\<lparr>mc_session := (mc_session c)\<lparr>ss_initialized := True,
                    ss_version := ir_protocol_version initialized, ss_session_id := ev_session_id envelope,
                    ss_initialize := Some initialized\<rparr>\<rparr>
              in case send_notification cf E ''notifications/initialized'' (jobject []) c of
                   (c, Inl err) \<Rightarrow> (reset_session c, Inl err)
                 | (c, Inr _) \<Rightarrow> (c, Inr initialized)))))))"

function send_jsonrpc_inner :: "http_conf \<Rightarrow> 'n http_env \<Rightarrow> string \<Rightarrow> json \<Rightarrow> string option \<Rightarrow> (string \<times> string) list \<Rightarrow>
    bool \<Rightarrow> 'n mcp_client \<Rightarrow> 'n mcp_client \<times> (error + response_envelope)" where
  "send_jsonrpc_inner cf E meth params name extra allow_reinitialize c =
     (let (c, rid) = next_request_id c
      in sbind (send cf E ((apply_standard_headers cf E (mc_session c) post_json meth name extra)
              \<lparr>rq_body := Some (rpc_body (Some rid) meth params)\<rparr>) c) (\<lambda>response c.
           if rs_status response = 404 \<and> allow_reinitialize \<and> ss_session_id (mc_session c) \<noteq> None
           then sbind (initialize cf E (reset_session c)) (\<lambda>_ c.
                  send_jsonrpc_inner cf E meth params name extra False c)
           else read_response cf E response c))"
  by pat_completeness auto
termination
  by (relation "measure (\<lambda>(cf, E, meth, params, name, extra, allow, c). if allow then 1 else 0)") auto

declare send_jsonrpc_inner.simps [simp del]

definition send_jsonrpc :: "http_conf \<Rightarrow> 'n http_env \<Rightarrow> string \<Rightarrow> json \<Rightarrow> string option \<Rightarrow> (string \<times> string) list \<Rightarrow>
    'n mcp_client \<Rightarrow> 'n mcp_client \<times> (error + json)" where
  "send_jsonrpc cf E meth params name extra c =
     sbind (send_jsonrpc_inner cf E meth params name extra True c) (\<lambda>envelope c. (c, Inr (ev_result envelope)))"

definition list_tools :: "http_conf \<Rightarrow> 'n http_env \<Rightarrow> 'n mcp_client \<Rightarrow> 'n mcp_client \<times> (error + remote_tool list)" where
  "list_tools cf E c =
     sbind (initialize cf E c) (\<lambda>_ c.
     sbind (send_jsonrpc cf E ''tools/list'' (jobject []) None [] c) (\<lambda>result c.
     sbind (c, ok_or (MalformedResponse ''tools/list response has no `tools` member'') (jget ''tools'' result)) (\<lambda>j c.
     sbind (c, read_list (de_shape_error (he_discovery E)) ''tools/list entries'' dec_remote_tool j) (\<lambda>tools c.
       (c\<lparr>mc_session := (mc_session c)\<lparr>ss_tools := map_of (rev (map (\<lambda>t. (rt_name t, t)) tools))\<rparr>\<rparr>, Inr tools)))))"

definition call_tool :: "http_conf \<Rightarrow> 'n http_env \<Rightarrow> string \<Rightarrow> json \<Rightarrow> 'n mcp_client \<Rightarrow>
    'n mcp_client \<times> (error + json \<times> tool_result)" where
  "call_tool cf E name arguments c =
     sbind (initialize cf E c) (\<lambda>_ c.
     sbind (case ss_tools (mc_session c) name of
              Some t \<Rightarrow> (c, Inr (Some t))
            | None \<Rightarrow> sbind (list_tools cf E c) (\<lambda>tools c. (c, Inr (find (\<lambda>t. rt_name t = name) tools))))
       (\<lambda>found c.
     sbind (c, case found of None \<Rightarrow> Inr [] | Some t \<Rightarrow> mcp_param_headers_from_schema E t arguments) (\<lambda>extra c.
     sbind (send_jsonrpc cf E ''tools/call'' (jobject [(''name'', JStr name), (''arguments'', arguments)])
              (Some name) extra c) (\<lambda>result c.
       (c, Inr (result, render_tool_result (he_print_json E) result))))))"

definition cached_tool :: "string \<Rightarrow> 'n mcp_client \<Rightarrow> remote_tool option" where
  "cached_tool name c = ss_tools (mc_session c) name"

fun resource_pages :: "nat \<Rightarrow> http_conf \<Rightarrow> 'n http_env \<Rightarrow> string option \<Rightarrow> mcp_resource list \<Rightarrow> 'n mcp_client \<Rightarrow>
    'n mcp_client \<times> (error + mcp_resource list)" where
  "resource_pages 0 cf E cursor resources c = (c, Inr resources)"
| "resource_pages (Suc pages) cf E cursor resources c =
     sbind (send_jsonrpc cf E ''resources/list'' (list_params cursor) None [] c) (\<lambda>result c.
     sbind (c, parse_resource_page (de_shape_error (he_discovery E)) result) (\<lambda>(page, next_cursor) c.
       case next_cursor of
         Some cur \<Rightarrow> resource_pages pages cf E (Some cur) (resources @ page) c
       | None \<Rightarrow> (c, Inr (resources @ page))))"

definition list_resources :: "http_conf \<Rightarrow> 'n http_env \<Rightarrow> 'n mcp_client \<Rightarrow> 'n mcp_client \<times> (error + mcp_resource list)" where
  "list_resources cf E c =
     sbind (initialize cf E c) (\<lambda>_ c. resource_pages max_resource_pages cf E None [] c)"

definition read_resource :: "http_conf \<Rightarrow> 'n http_env \<Rightarrow> string \<Rightarrow> 'n mcp_client \<Rightarrow>
    'n mcp_client \<times> (error + resource_contents list)" where
  "read_resource cf E uri c =
     sbind (initialize cf E c) (\<lambda>_ c.
     sbind (send_jsonrpc cf E ''resources/read'' (jobject [(''uri'', JStr uri)]) None [] c) (\<lambda>result c.
       (c, parse_read_result (de_shape_error (he_discovery E)) uri result)))"

definition drain_events :: "http_conf \<Rightarrow> 'n http_env \<Rightarrow> string option \<Rightarrow> 'n mcp_client \<Rightarrow>
    'n mcp_client \<times> (error + sse_event list)" where
  "drain_events cf E last_event_id c =
     sbind (initialize cf E c) (\<lambda>_ c.
       let get = apply_auth E \<lparr>rq_method = ''GET'', rq_headers = [], rq_query = [], rq_body = None\<rparr> (cf_auth cf);
           rq = session_headers (mc_session c) (request_header ''accept'' ''text/event-stream'' get);
           rq = (case last_event_id of None \<Rightarrow> rq | Some i \<Rightarrow> request_header ''Last-Event-ID'' i rq)
       in sbind (send cf E rq c) (\<lambda>response c.
          sbind (c, read_text cf response) (\<lambda>text c.
            (c, if is_success (rs_status response) then parse_sse_events (de_parse_json (he_discovery E)) text
                else Inl (http_error cf response text)))))"

definition close_session :: "http_conf \<Rightarrow> 'n http_env \<Rightarrow> 'n mcp_client \<Rightarrow> 'n mcp_client \<times> (error + unit)" where
  "close_session cf E c =
     (case ss_session_id (mc_session c) of
        None \<Rightarrow> (c, Inr ())
      | Some sid \<Rightarrow>
          sbind (send cf E (request_header header_session_id sid
              \<lparr>rq_method = ''DELETE'', rq_headers = [], rq_query = [], rq_body = None\<rparr>) c) (\<lambda>response c.
            if is_success (rs_status response) \<or> rs_status response = 405 then (reset_session c, Inr ())
            else (c, Inl (http_error cf response (text_or_empty cf response)))))"

fun fetch_each :: "'n discovery_env \<Rightarrow> bool \<Rightarrow> string list \<Rightarrow> 'n \<Rightarrow> 'n \<times> server_metadata list" where
  "fetch_each E public_only [] n = (n, [])"
| "fetch_each E public_only (issuer # issuers) n =
     (let (n, r) = fetch_authorization_server_metadata E public_only issuer n;
          (n, servers) = fetch_each E public_only issuers n
      in case r of Inr m \<Rightarrow> (n, m # servers) | Inl _ \<Rightarrow> (n, servers))"

record client_context =
  cc_challenge :: auth_challenge
  cc_resource :: "protected_resource option"
  cc_servers :: "server_metadata list"

definition discover_authorization :: "http_conf \<Rightarrow> 'n http_env \<Rightarrow> 'n mcp_client \<Rightarrow>
    'n mcp_client \<times> (error + client_context option)" where
  "discover_authorization cf E c =
     (let (c, rid) = next_request_id c
      in sbind (send cf E ((apply_auth E post_json (cf_auth cf))\<lparr>rq_body := Some (initialize_body cf rid)\<rparr>) c)
           (\<lambda>response c.
         if rs_status response \<noteq> 401 then (c, Inr None)
         else sbind (c, ok_or MissingAuthChallenge (parse_www_authenticate_challenge response)) (\<lambda>challenge c.
              sbind (case challenge_metadata challenge of
                       None \<Rightarrow> (c, Inr None)
                     | Some url \<Rightarrow>
                         (case away (fetch_json (he_discovery E) (cf_public_only cf) dec_protected_resource url) c of
                            (c, Inl err) \<Rightarrow> (c, Inl (AuthDiscovery
                              (''fetching protected-resource metadata: '' @ error_text err) challenge))
                          | (c, Inr metadata) \<Rightarrow> (c, Inr (Some metadata)))) (\<lambda>resource c.
              case (if resource = None \<and> is_bearer (scheme challenge) then client_well_known cf E c else (c, WkNotFound)) of
                (c, WkFound found) \<Rightarrow>
                  (c, Inr (Some \<lparr>cc_challenge = challenge, cc_resource = wk_resource found, cc_servers = wk_servers found\<rparr>))
              | (c, _) \<Rightarrow>
                  (case away (fetch_each (he_discovery E) (cf_public_only cf)
                          (case resource of None \<Rightarrow> [] | Some r \<Rightarrow> pr_servers r)) c of
                     (c, servers) \<Rightarrow>
                       (c, Inr (Some \<lparr>cc_challenge = challenge, cc_resource = resource, cc_servers = servers\<rparr>)))))))"

section \<open>The session stays coherent\<close>

text \<open>A session is either none at all or one whose negotiated version the client speaks.\<close>

definition session_ok :: "session \<Rightarrow> bool" where
  "session_ok s = (case ss_initialize s of
     None \<Rightarrow> s = no_session
   | Some r \<Rightarrow> ss_initialized s \<and> ir_protocol_version r \<in> set supported_protocol_versions \<and>
       ss_version s = ir_protocol_version r)"

abbreviation coherent :: "'n mcp_client \<Rightarrow> bool" where "coherent c \<equiv> session_ok (mc_session c)"

lemma away_session: "away f c = (c', a) \<Longrightarrow> mc_session c' = mc_session c"
  by (auto simp: away_def split: prod.splits)

lemma send_session: "send cf E rq c = (c', r) \<Longrightarrow> mc_session c' = mc_session c"
  by (auto simp: send_def split: prod.splits sum.splits dest: away_session)

lemma well_known_session: "client_well_known cf E c = (c', r) \<Longrightarrow> mc_session c' = mc_session c"
  by (auto simp: client_well_known_def split: prod.splits)

lemma oauth_metadata_session: "oauth_metadata_url cf E response c = (c', r) \<Longrightarrow> mc_session c' = mc_session c"
  by (auto simp: oauth_metadata_url_def dest: well_known_session
      split: option.splits if_splits prod.splits well_known_outcome.splits)

lemma read_response_session: "read_response cf E response c = (c', r) \<Longrightarrow> mc_session c' = mc_session c"
  by (auto simp: read_response_def dest: oauth_metadata_session split: if_splits prod.splits)

lemma notification_session:
  assumes "send_notification cf E meth params c = (c', r)"
  shows "mc_session c' = mc_session c"
proof -
  obtain c1 r1 where s: "send cf E ((apply_standard_headers cf E (mc_session c) post_json meth None [])
          \<lparr>rq_body := Some (rpc_body None meth params)\<rparr>) c = (c1, r1)" by fastforce
  show ?thesis using assms send_session [OF s]
    by (cases r1) (auto simp: send_notification_def s split: if_splits)
qed

lemmas session_frame = away_session send_session well_known_session read_response_session notification_session

lemma next_id_session: "next_request_id c = (c', i) \<Longrightarrow> mc_session c' = mc_session c"
  by (auto simp: next_request_id_def)

lemma reset_session_ok [simp]: "coherent (reset_session c)"
  by (simp add: reset_session_def session_ok_def no_session_def)

lemma session_fst:
  "mc_session (fst (send cf E rq c)) = mc_session c"
  "mc_session (fst (read_response cf E response c)) = mc_session c"
  "mc_session (fst (away f c)) = mc_session c"
  "mc_session (fst (client_well_known cf E c)) = mc_session c"
  by (metis session_frame prod.collapse)+

lemmas coherent_bind = sbind_fst [where P = coherent]

lemma initialize_ok [inv_intros]: "coherent c \<Longrightarrow> coherent (fst (initialize cf E c))"
proof (cases "ss_initialize (mc_session c)")
  case None
  obtain c1 rid where c1: "next_request_id c = (c1, rid)" by fastforce
  assume ok: "coherent c"
  have finish: "coherent (fst (case send_notification cf E m j d of (c, Inl err) \<Rightarrow> (reset_session c, Inl err)
      | (c, Inr u) \<Rightarrow> (c, Inr r)))" if "coherent d" for m j d r
    using that by (auto split: prod.split sum.split dest: notification_session)
  show ?thesis unfolding initialize_def None c1 option.case Let_def prod.case
    by (intro coherent_bind finish)
      (use ok next_id_session [OF c1] in
        \<open>auto simp: session_ok_def validate_protocol_version_def session_fst split: if_splits\<close>)
qed (simp add: initialize_def)

lemma send_jsonrpc_inner_ok [inv_intros]: "coherent c \<Longrightarrow> coherent (fst (send_jsonrpc_inner cf E meth params name extra allow c))"
proof -
  have last: "coherent c \<Longrightarrow> coherent (fst (send_jsonrpc_inner cf E meth params name extra False c))" for c
    unfolding send_jsonrpc_inner.simps [of cf E meth params name extra False c] Let_def
    by (auto intro!: coherent_bind simp: session_fst next_id_session split: prod.split)
  show "coherent c \<Longrightarrow> coherent (fst (send_jsonrpc_inner cf E meth params name extra allow c))"
    unfolding send_jsonrpc_inner.simps [of cf E meth params name extra allow c] Let_def
    by (auto intro!: coherent_bind initialize_ok last simp: session_fst next_id_session split: prod.split)
qed

lemma send_jsonrpc_ok [inv_intros]: "coherent c \<Longrightarrow> coherent (fst (send_jsonrpc cf E meth params name extra c))"
  unfolding send_jsonrpc_def by (rule coherent_bind) (auto intro: inv_intros)

abbreviation established :: "'n mcp_client \<Rightarrow> bool" where
  "established c \<equiv> coherent c \<and> ss_initialize (mc_session c) \<noteq> None"

lemma initialize_establishes:
  assumes "coherent c" "initialize cf E c = (c', Inr r)"
  shows "established c'"
proof (cases "ss_initialize (mc_session c)")
  case None
  obtain c1 rid where c1: "next_request_id c = (c1, rid)" by fastforce
  have fin: "mc_session c2 = mc_session d" if "(case send_notification cf E m j d of (c, Inl err) \<Rightarrow> (reset_session c, Inl err)
      | (c, Inr u) \<Rightarrow> (c, Inr r1)) = (c2, Inr r2)" for m j d r1 c2 r2
    using that by (cases "send_notification cf E m j d"; cases "snd (send_notification cf E m j d)")
      (auto dest: notification_session)
  from assms(2) have "ss_initialize (mc_session c') \<noteq> None"
    by (auto simp: initialize_def None c1 sbind_eq_Inr Let_def dest!: fin)
  then show ?thesis using initialize_ok [OF assms(1), of cf E] assms(2) by simp
qed (use assms in \<open>auto simp: initialize_def\<close>)

lemma send_jsonrpc_inner_establishes:
  assumes "established c" "send_jsonrpc_inner cf E meth params name extra allow c = (c', Inr e)"
  shows "established c'"
proof -
  have last: "established c2" if "established c1" "send_jsonrpc_inner cf E meth params name extra False c1 = (c2, Inr e)" for c1 c2
    using that
    by (auto simp: send_jsonrpc_inner.simps [of cf E meth params name extra False] sbind_eq_Inr
        dest!: next_id_session send_session read_response_session split: prod.splits)
  have "ss_initialize (mc_session c') \<noteq> None"
    using assms(2) unfolding send_jsonrpc_inner.simps [of cf E meth params name extra allow c] Let_def
    by (auto simp: sbind_eq_Inr split: prod.splits if_splits
        dest!: next_id_session send_session read_response_session initialize_establishes [rotated] last [rotated])
      (use assms(1) in \<open>simp_all\<close>)
  then show ?thesis using send_jsonrpc_inner_ok [of c cf E meth params name extra allow] assms by simp
qed

lemma send_jsonrpc_establishes:
  "established c \<Longrightarrow> send_jsonrpc cf E meth params name extra c = (c', Inr j) \<Longrightarrow> established c'"
proof -
  assume e: "established c" "send_jsonrpc cf E meth params name extra c = (c', Inr j)"
  then obtain v where "send_jsonrpc_inner cf E meth params name extra True c = (c', Inr v)"
    by (auto simp: send_jsonrpc_def sbind_eq_Inr)
  then show "established c'" using send_jsonrpc_inner_establishes e(1) by blast
qed

lemma list_tools_ok [inv_intros]:
  assumes "coherent c"
  shows "coherent (fst (list_tools cf E c))"
  unfolding list_tools_def
proof (rule coherent_bind)
  fix c1 r assume "initialize cf E c = (c1, Inr r)"
  then have est: "established c1" using initialize_establishes assms by blast
  show "coherent (fst (sbind (send_jsonrpc cf E ''tools/list'' (jobject []) None [] c1) (\<lambda>result c.
     sbind (c, ok_or (MalformedResponse ''tools/list response has no `tools` member'') (jget ''tools'' result)) (\<lambda>j c.
     sbind (c, read_list (de_shape_error (he_discovery E)) ''tools/list entries'' dec_remote_tool j) (\<lambda>tools c.
       (c\<lparr>mc_session := (mc_session c)\<lparr>ss_tools := map_of (rev (map (\<lambda>t. (rt_name t, t)) tools))\<rparr>\<rparr>, Inr tools))))))"
  proof (rule coherent_bind)
    fix c2 j assume "send_jsonrpc cf E ''tools/list'' (jobject []) None [] c1 = (c2, Inr j)"
    then have est2: "established c2" using send_jsonrpc_establishes est by blast
    then have swap: "coherent (c2\<lparr>mc_session := (mc_session c2)\<lparr>ss_tools := m\<rparr>\<rparr>)" for m
      by (auto simp: session_ok_def)
    show "coherent (fst (sbind (c2, ok_or (MalformedResponse ''tools/list response has no `tools` member'') (jget ''tools'' j)) (\<lambda>j c.
       sbind (c, read_list (de_shape_error (he_discovery E)) ''tools/list entries'' dec_remote_tool j) (\<lambda>tools c.
         (c\<lparr>mc_session := (mc_session c)\<lparr>ss_tools := map_of (rev (map (\<lambda>t. (rt_name t, t)) tools))\<rparr>\<rparr>, Inr tools)))))"
      using est2 swap
      by (cases "jget ''tools'' j"; cases "read_list (de_shape_error (he_discovery E)) ''tools/list entries'' dec_remote_tool
            (the (jget ''tools'' j))") simp_all
  qed (use est send_jsonrpc_ok in blast)
qed (rule initialize_ok [OF assms])

lemma call_tool_ok [inv_intros]: "coherent c \<Longrightarrow> coherent (fst (call_tool cf E name arguments c))"
  unfolding call_tool_def by (intro coherent_bind) (auto intro!: inv_intros coherent_bind split: option.split)

lemma resource_pages_ok: "coherent c \<Longrightarrow> coherent (fst (resource_pages pages cf E cursor rs c))"
proof (induction pages arbitrary: cursor rs c)
  case (Suc pages)
  then show ?case by (auto intro!: coherent_bind send_jsonrpc_ok split: option.split)
qed simp

lemma list_resources_ok [inv_intros]: "coherent c \<Longrightarrow> coherent (fst (list_resources cf E c))"
  unfolding list_resources_def by (intro coherent_bind initialize_ok resource_pages_ok)

lemma read_resource_ok [inv_intros]: "coherent c \<Longrightarrow> coherent (fst (read_resource cf E uri c))"
  unfolding read_resource_def by (intro coherent_bind initialize_ok send_jsonrpc_ok) simp_all

lemma drain_events_ok [inv_intros]: "coherent c \<Longrightarrow> coherent (fst (drain_events cf E i c))"
  unfolding drain_events_def Let_def by (intro coherent_bind initialize_ok) (simp_all add: session_fst)

lemma close_session_ok [inv_intros]: "coherent c \<Longrightarrow> coherent (fst (close_session cf E c))"
  unfolding close_session_def by (auto intro!: coherent_bind simp: session_fst split: option.split)

lemma discover_authorization_ok [inv_intros]: "coherent c \<Longrightarrow> coherent (fst (discover_authorization cf E c))"
  unfolding discover_authorization_def Let_def
  by (auto intro!: coherent_bind simp: session_fst next_id_session
      dest!: away_session well_known_session
      split: prod.split option.split sum.split well_known_outcome.split if_split_asm)

text \<open>What a caller can ask of a client.\<close>

datatype http_op = Initialize | ListTools | CallTool string json | ListResources | ReadResource string
  | DrainEvents "string option" | CloseSession | DiscoverAuthorization

fun http_step :: "http_conf \<Rightarrow> 'n http_env \<Rightarrow> 'n mcp_client \<Rightarrow> http_op \<Rightarrow> 'n mcp_client" where
  "http_step cf E c Initialize = fst (initialize cf E c)"
| "http_step cf E c ListTools = fst (list_tools cf E c)"
| "http_step cf E c (CallTool name arguments) = fst (call_tool cf E name arguments c)"
| "http_step cf E c ListResources = fst (list_resources cf E c)"
| "http_step cf E c (ReadResource uri) = fst (read_resource cf E uri c)"
| "http_step cf E c (DrainEvents i) = fst (drain_events cf E i c)"
| "http_step cf E c CloseSession = fst (close_session cf E c)"
| "http_step cf E c DiscoverAuthorization = fst (discover_authorization cf E c)"

interpretation http_machine: op_machine "http_step cf E" coherent "client_new n" for cf E n
proof
  show "coherent (client_new n)" by (simp add: client_new_def session_ok_def no_session_def)
  show "coherent c \<Longrightarrow> coherent (http_step cf E c op)" for c op
    by (cases op) (auto intro: inv_intros)
qed


end
