(* ===== verification/Http_Requests.thy ===== *)
theory Http_Requests
  imports Http_Client
begin

text \<open>
  How many requests to its server a client makes: an expired session is renewed and its request
  repeated once, whatever the server answers, and pages are followed up to their limit. The
  requests are counted by any measure of the outside world that each of them raises by one and
  that discovery, which asks elsewhere, leaves alone.
\<close>

section \<open>Discovery asks elsewhere\<close>

definition quiet_get :: "'n discovery_env \<Rightarrow> ('n \<Rightarrow> nat) \<Rightarrow> bool" where
  "quiet_get D cnt \<longleftrightarrow>
     (\<forall>client url n. cnt (fst (de_get D client url n)) = cnt n) \<and>
     (\<forall>n n'. de_cut_off D n = Some n' \<longrightarrow> cnt n' = cnt n)"

lemma quiet_pair:
  assumes "quiet_get D cnt" "de_get D client url n = (n', r)"
  shows "cnt n' = cnt n"
proof -
  have "cnt (fst (de_get D client url n)) = cnt n" using assms(1) by (simp add: quiet_get_def)
  then show ?thesis by (simp add: assms(2))
qed

lemma fetch_json_quiet: "quiet_get D cnt \<Longrightarrow> fetch_json D p dec url n = (n', r) \<Longrightarrow> cnt n' = cnt n"
  by (cases "discovery_client_for D p url SessionClient n")
    (auto simp: fetch_json_def dest: quiet_pair split: prod.splits sum.splits if_splits)

lemma fetch_discovery_quiet: "quiet_get D cnt \<Longrightarrow> fetch_discovery_json D p url n = (n', r) \<Longrightarrow> cnt n' = cnt n"
  by (auto simp: fetch_discovery_json_def dest: quiet_pair split: prod.splits sum.splits)

lemma fetch_metadata_quiet:
  assumes Q: "quiet_get D cnt" and "fetch_authorization_server_metadata D p issuer n = (n', r)"
  shows "cnt n' = cnt n"
proof (cases "rfc8414_metadata_url D issuer")
  case (Inr url)
  obtain n1 r1 where f1: "fetch_json D p dec_server_metadata url n = (n1, r1)" by fastforce
  obtain n2 r2 where f2: "fetch_json D p dec_server_metadata
      (trim_slashes issuer @ ''/.well-known/openid-configuration'') n1 = (n2, r2)" by fastforce
  show ?thesis using assms fetch_json_quiet [OF Q f1] fetch_json_quiet [OF Q f2]
    by (cases r1; cases r2)
      (auto simp: fetch_authorization_server_metadata_def Inr f1 f2 validate_metadata_issuer_def Let_def split: if_splits)
qed (use assms in \<open>simp add: fetch_authorization_server_metadata_def\<close>)

lemma read_servers_quiet: "quiet_get D cnt \<Longrightarrow> read_authorization_servers D p issuers n = (n', r) \<Longrightarrow> cnt n' = cnt n"
proof (induction issuers arbitrary: n n' r)
  case (Cons issuer issuers)
  obtain n1 r1 where f: "fetch_authorization_server_metadata D p issuer n = (n1, r1)" by fastforce
  obtain n2 ms u where rd: "read_authorization_servers D p issuers n1 = (n2, ms, u)" by (metis prod_cases3)
  show ?case using Cons.prems Cons.IH [OF Cons.prems(1) rd] fetch_metadata_quiet [OF Cons.prems(1) f]
    by (cases r1) (auto simp: f rd)
qed simp

lemma fetch_each_quiet: "quiet_get D cnt \<Longrightarrow> fetch_each D p issuers n = (n', r) \<Longrightarrow> cnt n' = cnt n"
proof (induction issuers arbitrary: n n' r)
  case (Cons issuer issuers)
  obtain n1 r1 where f: "fetch_authorization_server_metadata D p issuer n = (n1, r1)" by fastforce
  obtain n2 ms where rd: "fetch_each D p issuers n1 = (n2, ms)" by fastforce
  show ?case using Cons.prems Cons.IH [OF Cons.prems(1) rd] fetch_metadata_quiet [OF Cons.prems(1) f]
    by (cases r1) (auto simp: f rd)
qed simp

lemma origin_lookup_quiet: "quiet_get D cnt \<Longrightarrow> origin_server_lookup D p origin paths transient found n = (n', r) \<Longrightarrow> cnt n' = cnt n"
proof (induction paths arbitrary: transient found n)
  case (Cons path paths)
  obtain n1 d where f: "fetch_discovery_json D p (origin_text origin @ path) n = (n1, d)" by fastforce
  show ?case
    using Cons.prems fetch_discovery_quiet [OF Cons.prems(1) f]
    by (cases d) (auto simp: f Let_def dest: Cons.IH [OF Cons.prems(1)] split: option.splits prod.splits if_splits)
qed (auto split: option.splits)

lemma candidates_quiet: "quiet_get D cnt \<Longrightarrow> discover_candidates D p origin candidates transient resource n = (n', r) \<Longrightarrow> cnt n' = cnt n"
proof (induction candidates arbitrary: transient resource n)
  case Nil
  then show ?case by (auto dest: origin_lookup_quiet split: prod.splits origin_lookup.splits)
next
  case (Cons candidate candidates)
  obtain n1 d where f: "fetch_discovery_json D p candidate n = (n1, d)" by fastforce
  show ?case
    using Cons.prems fetch_discovery_quiet [OF Cons.prems(1) f]
    by (cases d) (auto simp: f Let_def dest: Cons.IH [OF Cons.prems(1)] dest!: read_servers_quiet [OF Cons.prems(1)] split: option.splits prod.splits if_splits)
qed

lemma well_known_quiet:
  assumes Q: "quiet_get D cnt" and "well_known_authorization D p endpoint known n = (n', k, r)"
  shows "cnt n' = cnt n"
proof -
  have "\<forall>n'. de_cut_off D n = Some n' \<longrightarrow> cnt n' = cnt n" using Q by (simp add: quiet_get_def)
  then show ?thesis using assms(2) unfolding well_known_authorization_def discover_from_well_known_def
    by (auto simp: Let_def dest: candidates_quiet [OF Q] split: option.splits prod.splits)
qed

section \<open>Requests of one call\<close>

definition counts_requests :: "'n http_env \<Rightarrow> ('n \<Rightarrow> nat) \<Rightarrow> bool" where
  "counts_requests E cnt \<longleftrightarrow>
     (\<forall>rq n. cnt (fst (he_send E rq n)) = Suc (cnt n)) \<and> quiet_get (he_discovery E) cnt"

abbreviation requests :: "('n \<Rightarrow> nat) \<Rightarrow> 'n mcp_client \<Rightarrow> nat" where
  "requests cnt c \<equiv> cnt (mc_outside c)"

lemma send_counts:
  assumes "counts_requests E cnt"
  shows "requests cnt (fst (send cf E rq c)) = Suc (requests cnt c)"
proof -
  have "cnt (fst (he_send E rq (mc_outside c))) = Suc (requests cnt c)" using assms by (simp add: counts_requests_def)
  then show ?thesis by (auto simp: send_def away_def split: prod.splits sum.splits)
qed

lemma next_id_quiet: "next_request_id c = (c', i) \<Longrightarrow> mc_outside c' = mc_outside c"
  by (auto simp: next_request_id_def)

lemma client_well_known_quiet:
  "counts_requests E cnt \<Longrightarrow> client_well_known cf E c = (c', r) \<Longrightarrow> requests cnt c' = requests cnt c"
  by (auto simp: client_well_known_def counts_requests_def dest: well_known_quiet split: prod.splits)

lemma read_response_quiet:
  assumes "counts_requests E cnt"
  shows "requests cnt (fst (read_response cf E response c)) = requests cnt c"
proof -
  have "requests cnt c' = requests cnt c" if "oauth_metadata_url cf E response c = (c', r)" for c' r
    using that by (auto simp: oauth_metadata_url_def dest: client_well_known_quiet [OF assms]
        split: option.splits if_splits prod.splits well_known_outcome.splits)
  then show ?thesis by (auto simp: read_response_def split: prod.split)
qed

text \<open>A call that makes at most \<open>k\<close> requests, followed by one that makes at most \<open>m\<close>.\<close>

lemma within_bind:
  assumes "requests cnt (fst x) \<le> b + k"
    and "\<And>c a. x = (c, Inr a) \<Longrightarrow> requests cnt (fst (f a c)) \<le> requests cnt c + m"
  shows "requests cnt (fst (sbind x f)) \<le> b + k + m"
proof (cases x)
  case (Pair c r)
  then show ?thesis using assms(1) assms(2) [of c "projr r"] by (cases r) auto
qed

lemma within_bind_0:
  assumes "requests cnt (fst x) \<le> b"
    and "\<And>c a. x = (c, Inr a) \<Longrightarrow> requests cnt (fst (f a c)) \<le> requests cnt c + m"
  shows "requests cnt (fst (sbind x f)) \<le> b + m"
  using within_bind [of cnt x b 0 f m] assms by simp

text \<open>The same, for a bound given as one number.\<close>

lemma within_sum:
  assumes "requests cnt (fst x) \<le> b + k"
    and "\<And>c a. x = (c, Inr a) \<Longrightarrow> requests cnt (fst (f a c)) \<le> requests cnt c + m"
    and "k + m \<le> l"
  shows "requests cnt (fst (sbind x f)) \<le> b + l"
proof -
  have "requests cnt (fst (sbind x f)) \<le> b + k + m" using assms(1,2) by (rule within_bind)
  with assms(3) show ?thesis by simp
qed

lemma notification_counts:
  assumes "counts_requests E cnt"
  shows "requests cnt (fst (send_notification cf E meth params c)) \<le> requests cnt c + 1"
  unfolding send_notification_def
  by (rule within_sum [where k = 1 and m = 0]) (simp_all add: send_counts [OF assms])

lemma initialize_counts:
  assumes "counts_requests E cnt"
  shows "requests cnt (fst (initialize cf E c)) \<le> requests cnt c + (if ss_initialize (mc_session c) = None then 2 else 0)"
proof (cases "ss_initialize (mc_session c)")
  case None
  obtain c1 rid where c1: "next_request_id c = (c1, rid)" by fastforce
  have finish: "requests cnt (fst (case send_notification cf E m j (d\<lparr>mc_session := s\<rparr>) of (c, Inl err) \<Rightarrow> (reset_session c, Inl err)
      | (c, Inr u) \<Rightarrow> (c, Inr r))) \<le> requests cnt d + 1" for m j d r s
    using notification_counts [OF assms, of cf m j "d\<lparr>mc_session := s\<rparr>"]
    by (auto simp: reset_session_def split: prod.split sum.split)
  have "requests cnt (fst (initialize cf E c)) \<le> requests cnt c1 + 2"
    unfolding initialize_def None c1 option.case Let_def prod.case
  proof (rule within_sum [where k = 1 and m = 1])
    fix d response
    show "requests cnt (fst (sbind (read_response cf E response d) (\<lambda>envelope c.
        sbind (c, ok_or (MalformedResponse (''initialize result: '' @ de_shape_error (he_discovery E) (ev_result envelope)))
                    (dec_initialize_result (ev_result envelope))) (\<lambda>initialized c.
        sbind (c, validate_protocol_version (ir_protocol_version initialized)) (\<lambda>_ c.
          case send_notification cf E ''notifications/initialized'' (jobject [])
              (c\<lparr>mc_session := (mc_session c)\<lparr>ss_initialized := True,
                    ss_version := ir_protocol_version initialized, ss_session_id := ev_session_id envelope,
                    ss_initialize := Some initialized\<rparr>\<rparr>) of
            (c, Inl err) \<Rightarrow> (reset_session c, Inl err)
          | (c, Inr _) \<Rightarrow> (c, Inr initialized)))))) \<le> requests cnt d + 1"
      apply (rule within_sum [where k = 0 and m = 1])
        apply (simp add: read_response_quiet [OF assms])
       apply (rule within_sum [where k = 0 and m = 1])
         apply simp
        apply (rule within_sum [where k = 0 and m = 1])
          apply simp
         apply (rule finish)
        apply simp_all
      done
  qed (simp_all add: send_counts [OF assms])
  then show ?thesis by (simp add: None next_id_quiet [OF c1])
qed (simp add: initialize_def)

lemma initialize_counts_2:
  "counts_requests E cnt \<Longrightarrow> requests cnt (fst (initialize cf E c)) \<le> requests cnt c + 2"
  using initialize_counts [of E cnt cf c] by (simp split: if_splits)

lemma retry_counts:
  assumes "counts_requests E cnt"
  shows "requests cnt (fst (send_jsonrpc_inner cf E meth params name extra False c)) \<le> requests cnt c + 1"
proof -
  obtain c1 rid where c1: "next_request_id c = (c1, rid)" by fastforce
  have "requests cnt (fst (send_jsonrpc_inner cf E meth params name extra False c)) \<le> requests cnt c1 + 1"
    unfolding send_jsonrpc_inner.simps [of cf E meth params name extra False c] c1 Let_def prod.case
    by (rule within_sum [where k = 1 and m = 0]) (simp_all add: send_counts [OF assms] read_response_quiet [OF assms])
  then show ?thesis by (simp add: next_id_quiet [OF c1])
qed

lemma send_jsonrpc_counts:
  assumes "counts_requests E cnt"
  shows "requests cnt (fst (send_jsonrpc cf E meth params name extra c)) \<le> requests cnt c + 4"
proof -
  obtain c1 rid where c1: "next_request_id c = (c1, rid)" by fastforce
  have renew: "requests cnt (fst (sbind (initialize cf E (reset_session d))
        (\<lambda>_ c. send_jsonrpc_inner cf E meth params name extra False c))) \<le> requests cnt d + 3" for d
  proof (rule within_sum [where k = 2 and m = 1])
    show "requests cnt (fst (initialize cf E (reset_session d))) \<le> requests cnt d + 2"
      using initialize_counts_2 [OF assms, of cf "reset_session d"] by (simp add: reset_session_def)
  qed (use retry_counts [OF assms] in simp_all)
  have "requests cnt (fst (send_jsonrpc_inner cf E meth params name extra True c)) \<le> requests cnt c1 + 4"
    unfolding send_jsonrpc_inner.simps [of cf E meth params name extra True c] c1 Let_def prod.case
  proof (rule within_sum [where k = 1 and m = 3])
    fix d response
    show "requests cnt (fst (if rs_status response = 404 \<and> True \<and> ss_session_id (mc_session d) \<noteq> None
           then sbind (initialize cf E (reset_session d)) (\<lambda>_ c. send_jsonrpc_inner cf E meth params name extra False c)
           else read_response cf E response d)) \<le> requests cnt d + 3"
      using renew read_response_quiet [OF assms] by simp
  qed (simp_all add: send_counts [OF assms])
  then have "requests cnt (fst (send_jsonrpc_inner cf E meth params name extra True c)) \<le> requests cnt c + 4"
    by (simp add: next_id_quiet [OF c1])
  then show ?thesis unfolding send_jsonrpc_def by (rule within_sum [where m = 0]) simp_all
qed

lemma list_tools_counts:
  assumes "counts_requests E cnt"
  shows "requests cnt (fst (list_tools cf E c)) \<le> requests cnt c + (if ss_initialize (mc_session c) = None then 6 else 4)"
  unfolding list_tools_def
proof (rule within_sum [where k = "if ss_initialize (mc_session c) = None then 2 else 0" and m = 4])
  show "requests cnt (fst (initialize cf E c)) \<le> requests cnt c + (if ss_initialize (mc_session c) = None then 2 else 0)"
    by (rule initialize_counts [OF assms])
next
  fix d r
  show "requests cnt (fst (sbind (send_jsonrpc cf E ''tools/list'' (jobject []) None [] d) (\<lambda>result c.
     sbind (c, ok_or (MalformedResponse ''tools/list response has no `tools` member'') (jget ''tools'' result)) (\<lambda>j c.
     sbind (c, read_list (de_shape_error (he_discovery E)) ''tools/list entries'' dec_remote_tool j) (\<lambda>tools c.
       (c\<lparr>mc_session := (mc_session c)\<lparr>ss_tools := map_of (rev (map (\<lambda>t. (rt_name t, t)) tools))\<rparr>\<rparr>, Inr tools))))))
    \<le> requests cnt d + 4"
    by (rule within_sum [where k = 4 and m = 0], rule send_jsonrpc_counts [OF assms])
      (simp_all add: sbind_def split: sum.split)
qed simp

lemma call_tool_counts:
  assumes C: "counts_requests E cnt" and c: "coherent c"
  shows "requests cnt (fst (call_tool cf E name arguments c)) \<le> requests cnt c + 10"
  unfolding call_tool_def
proof (rule within_sum [where k = 2 and m = 8])
  fix d r assume "initialize cf E c = (d, Inr r)"
  then have d: "ss_initialize (mc_session d) \<noteq> None" using initialize_establishes [OF c] by blast
  have look: "requests cnt (fst (case ss_tools (mc_session d) name of Some t \<Rightarrow> (d, Inr (Some t))
      | None \<Rightarrow> sbind (list_tools cf E d) (\<lambda>tools c. (c, Inr (find (\<lambda>t. rt_name t = name) tools))))) \<le> requests cnt d + 4"
  proof (cases "ss_tools (mc_session d) name")
    case None
    have "requests cnt (fst (list_tools cf E d)) \<le> requests cnt d + 4"
      using list_tools_counts [OF C, of cf d] d by simp
    then show ?thesis unfolding None option.case by (rule within_sum [where m = 0]) simp_all
  qed simp
  have rest: "requests cnt (fst (sbind (d, extra) (\<lambda>extra c.
      sbind (send_jsonrpc cf E ''tools/call'' (jobject [(''name'', JStr name), (''arguments'', arguments)]) (Some name) extra c)
        (\<lambda>result c. (c, Inr (result, render_tool_result (he_print_json E) result)))))) \<le> requests cnt d + 4" for d extra
    by (rule within_sum [where k = 0 and m = 4], simp,
        rule within_sum [where k = 4 and m = 0], rule send_jsonrpc_counts [OF C]) simp_all
  show "requests cnt (fst (sbind (case ss_tools (mc_session d) name of
              Some t \<Rightarrow> (d, Inr (Some t))
            | None \<Rightarrow> sbind (list_tools cf E d) (\<lambda>tools c. (c, Inr (find (\<lambda>t. rt_name t = name) tools))))
       (\<lambda>found c. sbind (c, case found of None \<Rightarrow> Inr [] | Some t \<Rightarrow> mcp_param_headers_from_schema E t arguments) (\<lambda>extra c.
          sbind (send_jsonrpc cf E ''tools/call'' (jobject [(''name'', JStr name), (''arguments'', arguments)])
              (Some name) extra c) (\<lambda>result c.
       (c, Inr (result, render_tool_result (he_print_json E) result))))))) \<le> requests cnt d + 8"
    by (rule within_sum [where k = 4 and m = 4], rule look, rule rest) simp
qed (use initialize_counts_2 [OF C] in simp_all)

lemma resource_pages_counts:
  assumes "counts_requests E cnt"
  shows "requests cnt (fst (resource_pages pages cf E cursor rs c)) \<le> requests cnt c + 4 * pages"
proof (induction pages arbitrary: cursor rs c)
  case (Suc pages)
  have next_page: "requests cnt (fst (sbind (d, parsed) (\<lambda>(page, next_cursor) c. case next_cursor of
         Some cur \<Rightarrow> resource_pages pages cf E (Some cur) (rs @ page) c | None \<Rightarrow> (c, Inr (rs @ page)))))
      \<le> requests cnt d + 4 * pages" for d parsed
    by (cases parsed) (auto split: option.split intro: Suc.IH)
  show ?case unfolding resource_pages.simps
    by (rule within_sum [where k = 4 and m = "4 * pages"], rule send_jsonrpc_counts [OF assms], rule next_page) simp
qed simp


text \<open>A server that counts its requests and has lost every session it is asked for.\<close>

definition lost_session_env :: "nat http_env" where
  "lost_session_env = \<lparr>he_discovery = sample_discovery\<lparr>de_get := (\<lambda>_ _ n. (n, Inl \<lparr>rendered = [], source_timeout = False\<rparr>))\<rparr>,
     he_send = (\<lambda>rq n. (Suc n, Inr \<lparr>rs_status = 404, rs_header = (\<lambda>_. None), rs_length = None,
       rs_text = Inr ''gone'', rs_chunks = []\<rparr>)),
     he_name_error = (\<lambda>_. None), he_value_error = (\<lambda>_. None), he_base64 = id, he_print_json = (\<lambda>_. [])\<rparr>"

lemma lost_session_counts: "counts_requests lost_session_env id"
  by (simp add: counts_requests_def lost_session_env_def quiet_get_def sample_discovery_def)


end
