(* ===== verification/Arguments.thy ===== *)
theory Arguments
  imports Errors Json
begin

text \<open>
  \<open>agent_tools/arguments.rs\<close>: the arguments of a tool call as an object, under any of the
  spellings a model sends. The JSON parser is a parameter.
\<close>

definition fence :: string where "fence = ''```''"

definition strip_end :: "string \<Rightarrow> string \<Rightarrow> string" where
  "strip_end p s = (if ends_with p s then take (length s - length p) s else s)"

definition strip_fence :: "string \<Rightarrow> string" where
  "strip_fence raw =
     (let trimmed = trim raw in
      case strip_prefix fence trimmed of
        None \<Rightarrow> trimmed
      | Some inner \<Rightarrow>
          let inner = strip_end fence inner;
              inner = (if 4 \<le> length inner \<and> eq_ignore_case (take 4 inner) ''json'' then drop 4 inner else inner)
          in trim inner)"

fun json_type_name :: "json \<Rightarrow> string" where
  "json_type_name JNull = ''null''"
| "json_type_name (JBool _) = ''a boolean''"
| "json_type_name (JInt _) = ''a number''"
| "json_type_name (JFloat _) = ''a number''"
| "json_type_name (JStr _) = ''a string''"
| "json_type_name (JArr _) = ''an array''"
| "json_type_name (JObj _) = ''an object''"

definition decode_object :: "(string \<Rightarrow> source_error + json) \<Rightarrow> string \<Rightarrow> args_error + (string, json) btree" where
  "decode_object parse raw = (case parse (strip_fence raw) of
     Inr (JObj m) \<Rightarrow> Inr m
   | Inr other \<Rightarrow> Inl (StringNotAnObject (Some (json_type_name other)))
   | Inl _ \<Rightarrow> Inl (StringNotAnObject None))"

definition normalize_tool_arguments :: "(string \<Rightarrow> source_error + json) \<Rightarrow> json option \<Rightarrow>
    args_error + (string, json) btree" where
  "normalize_tool_arguments parse arguments = (case arguments of
     None \<Rightarrow> Inr []
   | Some JNull \<Rightarrow> Inr []
   | Some (JObj m) \<Rightarrow> Inr m
   | Some (JStr s) \<Rightarrow> decode_object parse s
   | Some other \<Rightarrow> Inl (NotAnObject (json_type_name other)))"

end
