(* ===== verification/Install.thy ===== *)
theory Install
  imports Payloads Endpoints
begin

text \<open>
  \<open>registry/ops/install.rs\<close>: which connection of a catalog entry an install uses and how the
  server will be run. The URL parser and the address parser are arguments. The exception for a
  loopback fixture exists only in test builds and is not modelled.
\<close>

section \<open>Catalog entries\<close>

record registry_connection =
  rc_type :: string
  rc_deployment_url :: "string option"
  rc_config_schema :: "json option"
  rc_example_config :: "json option"
  rc_published :: bool

record registry_detail =
  rd_qualified_name :: string
  rd_display_name :: string
  rd_description :: "string option"
  rd_icon_url :: "string option"
  rd_connections :: "registry_connection list"

definition transport_kind :: "registry_connection \<Rightarrow> string" where
  "transport_kind c =
     (if rc_type c = ''stdio'' then ''stdio''
      else if rc_type c = ''http'' \<or> rc_type c = ''http_remote'' \<or> rc_type c = ''sse'' then ''http_remote''
      else rc_type c)"

definition pick_connection :: "registry_connection list \<Rightarrow> registry_connection option" where
  "pick_connection cs =
     (case find (\<lambda>c. transport_kind c = ''http_remote'' \<and> rc_published c) cs of
        Some c \<Rightarrow> Some c
      | None \<Rightarrow> (case find (\<lambda>c. transport_kind c = ''http_remote'') cs of
          Some c \<Rightarrow> Some c
        | None \<Rightarrow> (case find (\<lambda>c. transport_kind c = ''stdio'' \<and> rc_published c) cs of
            Some c \<Rightarrow> Some c
          | None \<Rightarrow> find (\<lambda>c. transport_kind c = ''stdio'') cs)))"

fun push_new :: "string list \<Rightarrow> string list \<Rightarrow> string list" where
  "push_new names [] = names"
| "push_new names (k # ks) = push_new (if k \<in> set names then names else names @ [k]) ks"

definition collect_required_env_keys :: "registry_detail \<Rightarrow> string list" where
  "collect_required_env_keys detail =
     (case pick_connection (rd_connections detail) of
        None \<Rightarrow> []
      | Some c \<Rightarrow>
          (case Option.bind (Option.bind (rc_config_schema c) (jget ''properties'')) as_object of
             None \<Rightarrow> [] | Some properties \<Rightarrow> push_new [] (bt_keys properties)))"

section \<open>What a catalog may have run\<close>

text \<open>The part after the last separator: \<open>rsplit\<close>'s first piece.\<close>

definition after_last :: "(char \<Rightarrow> bool) \<Rightarrow> string \<Rightarrow> string" where
  "after_last p s = rev (takeWhile (\<lambda>c. \<not> p c) (rev s))"

definition interpreters :: "string list" where
  "interpreters = [''node'', ''nodejs'', ''bun'', ''deno'', ''python'', ''python3'', ''sh'', ''bash'',
     ''zsh'', ''pwsh'', ''powershell'', ''cmd'']"

definition is_interpreter :: "string \<Rightarrow> bool" where
  "is_interpreter package =
     (if starts_with ''@'' package then False
      else
        let name = after_last (\<lambda>c. c = CHR ''/'' \<or> c = CHR 0x5C) package;
            name = (case split_once CHR ''@'' name of None \<Rightarrow> name | Some (n, _) \<Rightarrow> n)
        in lowercase name \<in> set interpreters)"

definition shell_request :: "string \<Rightarrow> bool" where
  "shell_request arg =
     (starts_with ''-'' arg \<and> \<not> starts_with ''--'' arg \<and> contains_str ''c'' arg \<or>
      arg = ''--call'' \<or> starts_with ''--call='' arg)"

definition validate_catalog_command :: "string \<Rightarrow> string list \<Rightarrow> error + unit" where
  "validate_catalog_command command args =
     (if command \<notin> {''npx'', ''uvx'', ''bunx''}
      then Inl (MalformedResponse ''catalog subprocess launcher is not approved'')
      else if list_ex shell_request args
      then Inl (MalformedResponse ''catalog subprocess cannot request a shell command'')
      else if (case find (\<lambda>arg. \<not> starts_with ''-'' arg) args of
                 None \<Rightarrow> False | Some package \<Rightarrow> is_interpreter package)
      then Inl (MalformedResponse ''catalog subprocess cannot launch an interpreter'')
      else Inr ())"

definition resolve_command :: "string \<Rightarrow> registry_connection option \<Rightarrow>
    command_kind \<times> string \<times> string list" where
  "resolve_command qname connection =
     (let example = Option.bind (Option.bind connection rc_example_config) (\<lambda>ex.
            Option.bind (Option.bind (jget ''command'' ex) as_str) (\<lambda>command.
              Some (command, case Option.bind (jget ''args'' ex) as_array of
                None \<Rightarrow> [] | Some args \<Rightarrow> List.map_filter as_str args)))
      in case example of
           Some (command, args) \<Rightarrow>
             (if contains_str ''uvx'' command \<or> contains_str ''python'' command then Python else Node,
              command, args)
         | None \<Rightarrow> (Node, ''npx'', [''-y'', qname]))"

section \<open>Hosted endpoints\<close>

text \<open>What the URL parser says of a hosted endpoint.\<close>

record full_url =
  fu_scheme :: string
  fu_username :: string
  fu_password :: "string option"
  fu_host :: "string option"

definition trim_dots :: "string \<Rightarrow> string" where
  "trim_dots host = rev (dropWhile (\<lambda>c. c = CHR ''.'') (rev host))"

text \<open>\<open>rsplit_once\<close>: the text after the last dot, when there is a dot.\<close>

definition last_label :: "string \<Rightarrow> string option" where
  "last_label host = (if CHR ''.'' \<in> set host then Some (after_last (\<lambda>c. c = CHR ''.'') host) else None)"

definition local_host :: "string \<Rightarrow> bool" where
  "local_host host =
     (eq_ignore_case host ''localhost'' \<or>
      (case last_label host of None \<Rightarrow> False
       | Some label \<Rightarrow> eq_ignore_case label ''localhost'' \<or> eq_ignore_case label ''local'' \<or>
           eq_ignore_case label ''internal''))"

definition build_install_transport :: "(string \<Rightarrow> full_url option) \<Rightarrow> (string \<Rightarrow> ip option) \<Rightarrow>
    string \<Rightarrow> registry_connection \<Rightarrow> error + transport \<times> command_kind \<times> string \<times> string list" where
  "build_install_transport parse_url parse_ip qname c =
     (if transport_kind c = ''http_remote'' then
        (let url = (case rc_deployment_url c of None \<Rightarrow> [] | Some u \<Rightarrow> u)
         in if trim url = [] then
              Inl (MalformedResponse (''the hosted connection for `'' @ qname @ ''` declares no endpoint''))
            else case parse_url url of
              None \<Rightarrow> Inl (MalformedResponse ''hosted endpoint is not a valid URL'')
            | Some endpoint \<Rightarrow>
                if fu_scheme endpoint \<noteq> ''https'' \<or> fu_username endpoint \<noteq> [] \<or> fu_password endpoint \<noteq> None
                then Inl (MalformedResponse ''catalog hosted endpoints must use HTTPS without embedded credentials'')
                else case fu_host endpoint of
                  None \<Rightarrow> Inl (MalformedResponse ''hosted endpoint has no host'')
                | Some raw \<Rightarrow>
                    let host = trim_dots (strip_brackets raw)
                    in if local_host host \<or> (case parse_ip host of None \<Rightarrow> False | Some ip \<Rightarrow> is_blocked_ip ip)
                       then Inl (MalformedResponse ''catalog hosted endpoint targets a local address'')
                       else Inr (HttpRemote url, Node, [], []))
      else
        (case resolve_command qname (Some c) of
           (kind, command, args) \<Rightarrow>
             rbind (validate_catalog_command command args) (\<lambda>_. Inr (Stdio, kind, command, args))))"

section \<open>Which connection is picked\<close>

text \<open>The order the code searches in, as a rank: the first of the best rank wins.\<close>

definition rank :: "registry_connection \<Rightarrow> nat" where
  "rank c =
     (if transport_kind c = ''http_remote'' then (if rc_published c then 0 else 1)
      else if transport_kind c = ''stdio'' then (if rc_published c then 2 else 3)
      else 4)"

lemma find_rank: "find P xs = (case filter P xs of [] \<Rightarrow> None | x # _ \<Rightarrow> Some x)"
  by (induction xs) auto

lemma pick_connection_best:
  "case pick_connection cs of
     Some c \<Rightarrow> c \<in> set cs \<and> rank c < 4 \<and> (\<forall>d \<in> set cs. rank c \<le> rank d)
   | None \<Rightarrow> \<forall>d \<in> set cs. rank d = 4"
proof -
  have some: "x \<in> set xs \<and> P x" if "find P xs = Some x" for P xs and x :: registry_connection
    using that by (induction xs) (auto split: if_splits)
  have none: "\<forall>x \<in> set xs. \<not> P x" if "find P xs = None" for P and xs :: "registry_connection list"
    using that by (simp add: find_None_iff)
  have remote: "rank d < 2 \<longleftrightarrow> transport_kind d = ''http_remote''" for d
    by (simp add: rank_def)
  show ?thesis
    unfolding pick_connection_def
    by (auto split: option.split dest!: some none simp: rank_def)
qed

section \<open>What a catalog entry can become\<close>

definition first_positional :: "string list \<Rightarrow> string option" where
  "first_positional args = find (\<lambda>arg. \<not> starts_with ''-'' arg) args"


definition sample_connection :: registry_connection where
  "sample_connection = \<lparr>rc_type = ''stdio'', rc_deployment_url = None, rc_config_schema = None,
     rc_example_config = None, rc_published = True\<rparr>"


text \<open>An option that takes a value hides the package: the value is taken for it.\<close>

lemma option_value_taken_for_package:
  "validate_catalog_command ''npx'' [''-p'', ''x'', ''node'', ''-e'', ''1''] = Inr ()"
  by code_simp

end
