(* ===== verification/Storage_Ports.thy ===== *)
theory Storage_Ports
  imports Payloads
begin

text \<open>
  The storage ports the registry writes through, as a record of calls on an outside state, with
  what is documented of them; the document identifiers of \<open>storage/local/schema.rs\<close> and the
  compare-and-swap loop of \<open>storage/local/primitives/repo.rs\<close>. The drivers behind the ports
  are another crate's.
\<close>

section \<open>Ports\<close>

text \<open>A version is opaque to the code: it compares versions for equality through the port and
  never computes with them.\<close>

record versioned =
  v_doc :: json
  v_version :: nat

datatype precondition = AnyVersion | AbsentOnly | AtVersion nat

datatype storage_error = Conflict source_error | Fault source_error

fun storage_source :: "storage_error \<Rightarrow> source_error" where
  "storage_source (Conflict src) = src"
| "storage_source (Fault src) = src"

datatype doc_filter = AllDocs | FieldEq string string | FieldRange string string string

record doc_query =
  q_filter :: doc_filter
  q_sort :: "(string \<times> bool) list"
  q_limit :: "nat option"

record 's storage_ports =
  sp_get :: "string \<Rightarrow> string \<Rightarrow> 's \<Rightarrow> 's \<times> (storage_error + versioned option)"
  sp_put :: "string \<Rightarrow> string \<Rightarrow> json \<Rightarrow> precondition \<Rightarrow> 's \<Rightarrow> 's \<times> (storage_error + nat)"
  sp_delete :: "string \<Rightarrow> string \<Rightarrow> precondition \<Rightarrow> 's \<Rightarrow> 's \<times> (storage_error + bool)"
  sp_query :: "string \<Rightarrow> doc_query \<Rightarrow> 's \<Rightarrow> 's \<times> (storage_error + json list)"
  sp_secret_get :: "string \<Rightarrow> 's \<Rightarrow> 's \<times> (storage_error + string option)"
  sp_secret_set :: "string \<Rightarrow> string \<Rightarrow> 's \<Rightarrow> 's \<times> (storage_error + unit)"
  sp_secret_delete :: "string \<Rightarrow> 's \<Rightarrow> 's \<times> (storage_error + bool)"
  sp_now_ms :: "'s \<Rightarrow> 's \<times> int"
  sp_max_id_len :: nat
  sp_key_valid :: "string \<Rightarrow> storage_error option"
  sp_sha256 :: "string \<Rightarrow> string"
  sp_base32 :: "string \<Rightarrow> string"
  sp_parse_json :: "string \<Rightarrow> source_error + json"
  sp_print_json :: "json \<Rightarrow> string"
  sp_shape_error :: "json \<Rightarrow> source_error"

text \<open>\<open>StoragePorts::run\<close>: a port's failure becomes the crate's, under the action attempted.\<close>

definition at_port :: "string \<Rightarrow> 's \<times> (storage_error + 'a) \<Rightarrow> 's \<times> (error + 'a)" where
  "at_port action x = (case x of
     (s, Inl err) \<Rightarrow> (s, Inl (Store_Failure action (storage_source err)))
   | (s, Inr a) \<Rightarrow> (s, Inr a))"

lemma at_port_simps [simp]:
  "at_port action (s, Inl err) = (s, Inl (Store_Failure action (storage_source err)))"
  "at_port action (s, Inr a) = (s, Inr a)"
  by (simp_all add: at_port_def)

lemma at_port_Inr [simp]: "at_port action x = (s, Inr a) \<longleftrightarrow> x = (s, Inr a)"
  by (cases x; cases "snd x") auto

definition servers_coll :: string where "servers_coll = ''mcp.servers''"
definition server_names_coll :: string where "server_names_coll = ''mcp.server_names''"
definition registry_cache_coll :: string where "registry_cache_coll = ''mcp.registry_cache''"
definition tool_cache_coll :: string where "tool_cache_coll = ''mcp.tool_cache''"

lemma collections_distinct [simp]:
  "servers_coll \<noteq> server_names_coll" "server_names_coll \<noteq> servers_coll"
  "tool_cache_coll \<noteq> servers_coll" "servers_coll \<noteq> tool_cache_coll"
  "tool_cache_coll \<noteq> server_names_coll" "server_names_coll \<noteq> tool_cache_coll"
  by (simp_all add: servers_coll_def server_names_coll_def tool_cache_coll_def)

section \<open>Document identifiers\<close>

definition escape_char :: "bool \<Rightarrow> char \<Rightarrow> string" where
  "escape_char leading c =
     (if c = CHR ''%'' then ''%25''
      else if c = CHR ''/'' then ''%2F''
      else if c = CHR 0x00 then ''%00''
      else if c = CHR ''~'' \<and> leading then ''%7E''
      else [c])"

definition escape_part :: "bool \<Rightarrow> string \<Rightarrow> string" where
  "escape_part first part = (case part of
     [] \<Rightarrow> [] | c # cs \<Rightarrow> escape_char first c @ concat (map (escape_char False) cs))"

definition encode_parts :: "string list \<Rightarrow> string" where
  "encode_parts parts = (case parts of
     [] \<Rightarrow> [] | p # ps \<Rightarrow> join ''/'' (escape_part True p # map (escape_part False) ps))"

definition composite_key :: "'s storage_ports \<Rightarrow> string list \<Rightarrow> storage_error + string" where
  "composite_key P parts =
     (if parts = []
      then Inl (Fault \<lparr>rendered = ''a key needs at least one part'', source_timeout = False\<rparr>)
      else
        let encoded = encode_parts parts;
            encoded = (if length encoded > sp_max_id_len P
                       then CHR ''~'' # lowercase (sp_base32 P (sp_sha256 P encoded)) else encoded)
        in case sp_key_valid P encoded of Some err \<Rightarrow> Inl err | None \<Rightarrow> Inr encoded)"

definition doc_id :: "'s storage_ports \<Rightarrow> string list \<Rightarrow> storage_error + string" where
  "doc_id P parts = composite_key P parts"

text \<open>The escaping is undone by reading \<open>%XY\<close> back, so two parts with one encoding are one part,
  whichever position they stand in.\<close>

fun unescape :: "string \<Rightarrow> string" where
  "unescape (c # a # b # s) =
     (if c \<noteq> CHR ''%'' then c # unescape (a # b # s)
      else (if [a, b] = ''25'' then CHR ''%'' # unescape s
            else if [a, b] = ''2F'' then CHR ''/'' # unescape s
            else if [a, b] = ''00'' then CHR 0x00 # unescape s
            else CHR ''~'' # unescape s))"
| "unescape s = s"

lemma unescape_char: "unescape (escape_char b c @ s) = c # unescape s"
  by (cases s rule: unescape.cases) (auto simp: escape_char_def)

lemma unescape_chars: "unescape (concat (map (escape_char False) s)) = s"
  by (induction s) (simp_all add: unescape_char)

lemma unescape_part: "unescape (escape_part b s) = s"
  by (cases s) (simp_all add: escape_part_def unescape_char unescape_chars)

lemma escape_part_no_slash: "CHR ''/'' \<notin> set (escape_part b s)"
  by (cases s) (auto simp: escape_part_def escape_char_def)

lemma escape_part_no_tilde: "hd (escape_part True s @ [CHR ''x'']) \<noteq> CHR ''~''"
  by (cases s) (auto simp: escape_part_def escape_char_def)

lemma split_on_sep: "\<forall>c \<in> set a. \<not> p c \<Longrightarrow> p x \<Longrightarrow> split_on p (a @ x # b) = a # split_on p b"
  by (induction a) auto

lemma split_join: "list_all (\<lambda>p. x \<notin> set p) ps \<Longrightarrow> ps \<noteq> [] \<Longrightarrow>
    split_on (\<lambda>c. c = x) (join [x] ps) = ps"
proof (induction ps rule: induct_list012)
  case (2 p)
  then have "\<forall>c \<in> set p. c \<noteq> x" by auto
  then show ?case by (simp add: split_on_trivial)
next
  case (3 p y zs)
  then have "\<forall>c \<in> set p. c \<noteq> x" by auto
  with 3 show ?case by (simp add: split_on_sep)
qed simp

definition decode_parts :: "string \<Rightarrow> string list" where
  "decode_parts key = map unescape (split_on (\<lambda>c. c = CHR ''/'') key)"

lemma decode_encode_parts: "parts \<noteq> [] \<Longrightarrow> decode_parts (encode_parts parts) = parts"
proof (cases parts)
  case (Cons p ps)
  have "list_all (\<lambda>p. CHR ''/'' \<notin> set p) (escape_part True p # map (escape_part False) ps)"
    by (simp add: list_all_iff escape_part_no_slash)
  then have "split_on (\<lambda>c. c = CHR ''/'') (encode_parts parts) = escape_part True p # map (escape_part False) ps"
    by (simp add: Cons encode_parts_def split_join)
  then show ?thesis by (simp add: decode_parts_def Cons unescape_part comp_def)
qed simp

lemma encode_parts_no_tilde: "encode_parts (p # ps) \<noteq> CHR ''~'' # s"
proof -
  have "hd (escape_part True p @ [CHR ''/'']) \<noteq> CHR ''~''"
    by (cases p) (auto simp: escape_part_def escape_char_def)
  then show ?thesis
    by (cases "escape_part True p"; cases ps) (auto simp: encode_parts_def)
qed


section \<open>Read, change, write\<close>

text \<open>The write is conditional on the version read; a lost swap reads again. Pauses between the
  attempts are not modelled.\<close>

definition retry_attempts :: nat where "retry_attempts = 32"

fun repo_update :: "nat \<Rightarrow> 's storage_ports \<Rightarrow> string \<Rightarrow> (json \<Rightarrow> source_error + 'a) \<Rightarrow> ('a \<Rightarrow> json) \<Rightarrow>
    string \<Rightarrow> ('a option \<Rightarrow> storage_error + 'a option) \<Rightarrow> 's \<Rightarrow>
    's \<times> (storage_error + ('a \<times> nat) option)" where
  "repo_update 0 P coll dec enc i f s =
     (s, Inl (Fault \<lparr>rendered = ''no attempts'', source_timeout = False\<rparr>))"
| "repo_update (Suc attempts) P coll dec enc i f s =
     (case sp_get P coll i s of
        (s, Inl err) \<Rightarrow> (s, Inl err)
      | (s, Inr found) \<Rightarrow>
          (case (case found of None \<Rightarrow> Inr (AbsentOnly, None)
                 | Some v \<Rightarrow> (case dec (v_doc v) of
                     Inl src \<Rightarrow> Inl (Fault src) | Inr a \<Rightarrow> Inr (AtVersion (v_version v), Some a))) of
             Inl err \<Rightarrow> (s, Inl err)
           | Inr (precondition, current) \<Rightarrow>
               (case f current of
                  Inl err \<Rightarrow> (s, Inl err)
                | Inr None \<Rightarrow> (s, Inr None)
                | Inr (Some next_value) \<Rightarrow>
                    (case sp_put P coll i (enc next_value) precondition s of
                       (s, Inr version) \<Rightarrow> (s, Inr (Some (next_value, version)))
                     | (s, Inl (Conflict src)) \<Rightarrow>
                         (if attempts = 0 then (s, Inl (Conflict src))
                          else repo_update attempts P coll dec enc i f s)
                     | (s, Inl (Fault src)) \<Rightarrow> (s, Inl (Fault src))))))"

section \<open>What the ports promise\<close>

text \<open>
  What is documented of the document port, in terms of the documents it holds: a read returns
  what is there; a conditional write or delete goes through only when its condition holds at that
  moment and is a conflict otherwise; a write gives its document a version later than any the
  store has given; whatever is refused changes nothing. Faults may strike any call and are also
  without effect.
\<close>

definition put_law :: "('s \<Rightarrow> string \<Rightarrow> string \<Rightarrow> versioned option) \<Rightarrow> ('s \<Rightarrow> nat) \<Rightarrow> string \<Rightarrow> string \<Rightarrow>
    json \<Rightarrow> precondition \<Rightarrow> 's \<Rightarrow> 's \<Rightarrow> storage_error + nat \<Rightarrow> bool" where
  "put_law docs vtop c i d p s s' r = (case r of
     Inr version \<Rightarrow> vtop s \<le> version \<and> version < vtop s' \<and>
       docs s' = (docs s)(c := (docs s c)(i \<mapsto> \<lparr>v_doc = d, v_version = version\<rparr>)) \<and>
       (case p of AnyVersion \<Rightarrow> True | AbsentOnly \<Rightarrow> docs s c i = None
        | AtVersion n \<Rightarrow> map_option v_version (docs s c i) = Some n)
   | Inl (Conflict _) \<Rightarrow> docs s' = docs s \<and> vtop s' = vtop s \<and>
       (case p of AnyVersion \<Rightarrow> False | AbsentOnly \<Rightarrow> docs s c i \<noteq> None
        | AtVersion n \<Rightarrow> map_option v_version (docs s c i) \<noteq> Some n)
   | Inl (Fault _) \<Rightarrow> docs s' = docs s \<and> vtop s' = vtop s)"

definition delete_law :: "('s \<Rightarrow> string \<Rightarrow> string \<Rightarrow> versioned option) \<Rightarrow> ('s \<Rightarrow> nat) \<Rightarrow> string \<Rightarrow> string \<Rightarrow>
    precondition \<Rightarrow> 's \<Rightarrow> 's \<Rightarrow> storage_error + bool \<Rightarrow> bool" where
  "delete_law docs vtop c i p s s' r = (case r of
     Inr removed \<Rightarrow> vtop s' = vtop s \<and> docs s' = (docs s)(c := (docs s c)(i := None)) \<and>
       removed = (docs s c i \<noteq> None) \<and>
       (case p of AtVersion n \<Rightarrow> docs s c i = None \<or> map_option v_version (docs s c i) = Some n | _ \<Rightarrow> True)
   | Inl (Conflict _) \<Rightarrow> docs s' = docs s \<and> vtop s' = vtop s \<and> docs s c i \<noteq> None \<and>
       (case p of AnyVersion \<Rightarrow> False | AbsentOnly \<Rightarrow> True
        | AtVersion n \<Rightarrow> map_option v_version (docs s c i) \<noteq> Some n)
   | Inl (Fault _) \<Rightarrow> docs s' = docs s \<and> vtop s' = vtop s)"

definition lawful_ports :: "'s storage_ports \<Rightarrow> ('s \<Rightarrow> string \<Rightarrow> string \<Rightarrow> versioned option) \<Rightarrow>
    ('s \<Rightarrow> nat) \<Rightarrow> bool" where
  "lawful_ports P docs vtop \<longleftrightarrow>
     (\<forall>s c i. docs (fst (sp_get P c i s)) = docs s \<and> vtop (fst (sp_get P c i s)) = vtop s) \<and>
     (\<forall>s c i s' found. sp_get P c i s = (s', Inr found) \<longrightarrow> found = docs s c i) \<and>
     (\<forall>s c i d p s' r. sp_put P c i d p s = (s', r) \<longrightarrow> put_law docs vtop c i d p s s' r) \<and>
     (\<forall>s c i p s' r. sp_delete P c i p s = (s', r) \<longrightarrow> delete_law docs vtop c i p s s' r) \<and>
     (\<forall>s c q. docs (fst (sp_query P c q s)) = docs s \<and> vtop (fst (sp_query P c q s)) = vtop s) \<and>
     (\<forall>s. docs (fst (sp_now_ms P s)) = docs s \<and> vtop (fst (sp_now_ms P s)) = vtop s)"

text \<open>The laws, one by one.\<close>

lemma lawful_get:
  assumes "lawful_ports P docs vtop" "sp_get P c i s = (s', r)"
  shows "docs s' = docs s" "vtop s' = vtop s" "r = Inr found \<Longrightarrow> found = docs s c i"
proof -
  have "docs (fst (sp_get P c i s)) = docs s" "vtop (fst (sp_get P c i s)) = vtop s"
    using assms(1) by (simp_all add: lawful_ports_def)
  with assms(2) show "docs s' = docs s" "vtop s' = vtop s" by simp_all
  show "r = Inr found \<Longrightarrow> found = docs s c i" using assms by (simp add: lawful_ports_def)
qed

lemma lawful_query:
  assumes "lawful_ports P docs vtop" "sp_query P c q s = (s', r)"
  shows "docs s' = docs s" "vtop s' = vtop s"
proof -
  have "docs (fst (sp_query P c q s)) = docs s" "vtop (fst (sp_query P c q s)) = vtop s"
    using assms(1) by (simp_all add: lawful_ports_def)
  with assms(2) show "docs s' = docs s" "vtop s' = vtop s" by simp_all
qed

lemma lawful_now:
  assumes "lawful_ports P docs vtop" "sp_now_ms P s = (s', now)"
  shows "docs s' = docs s" "vtop s' = vtop s"
proof -
  have "docs (fst (sp_now_ms P s)) = docs s" "vtop (fst (sp_now_ms P s)) = vtop s"
    using assms(1) by (simp_all add: lawful_ports_def)
  with assms(2) show "docs s' = docs s" "vtop s' = vtop s" by simp_all
qed

lemma lawful_put:
  assumes "lawful_ports P docs vtop" "sp_put P c i d p s = (s', r)"
  shows "put_law docs vtop c i d p s s' r"
  using assms by (simp add: lawful_ports_def)

lemma lawful_delete:
  assumes "lawful_ports P docs vtop" "sp_delete P c i p s = (s', r)"
  shows "delete_law docs vtop c i p s s' r"
  using assms by (simp add: lawful_ports_def)

lemma lawful_delete_vtop:
  "lawful_ports P docs vtop \<Longrightarrow> sp_delete P c i p s = (s', r) \<Longrightarrow> vtop s' = vtop s"
  using lawful_delete [of P docs vtop c i p s s' r] by (auto simp: delete_law_def split: sum.splits storage_error.splits)

lemma lawful_put_vtop:
  "lawful_ports P docs vtop \<Longrightarrow> sp_put P c i d p s = (s', r) \<Longrightarrow> vtop s \<le> vtop s'"
  using lawful_put [of P docs vtop c i d p s s' r]
  by (auto simp: put_law_def split: sum.splits storage_error.splits)

text \<open>The secret port holds one value per name, apart from the documents.\<close>

definition lawful_secrets :: "'s storage_ports \<Rightarrow> ('s \<Rightarrow> string \<Rightarrow> string \<Rightarrow> versioned option) \<Rightarrow>
    ('s \<Rightarrow> string \<Rightarrow> string option) \<Rightarrow> bool" where
  "lawful_secrets P docs secrets \<longleftrightarrow>
     (\<forall>s n s' r. sp_secret_delete P n s = (s', r) \<longrightarrow> docs s' = docs s \<and>
        secrets s' = (case r of Inl _ \<Rightarrow> secrets s | Inr _ \<Rightarrow> (secrets s)(n := None))) \<and>
     (\<forall>s n x s' r. sp_secret_set P n x s = (s', r) \<longrightarrow> docs s' = docs s \<and>
        secrets s' = (case r of Inl _ \<Rightarrow> secrets s | Inr _ \<Rightarrow> (secrets s)(n \<mapsto> x))) \<and>
     (\<forall>s c i. secrets (fst (sp_get P c i s)) = secrets s) \<and>
     (\<forall>s c i p. secrets (fst (sp_delete P c i p s)) = secrets s)"

lemma lawful_secret_delete:
  assumes "lawful_secrets P docs secrets" "sp_secret_delete P n s = (s', r)"
  shows "docs s' = docs s" "secrets s' = (case r of Inl _ \<Rightarrow> secrets s | Inr _ \<Rightarrow> (secrets s)(n := None))"
  using assms by (simp_all add: lawful_secrets_def)

lemma lawful_secrets_frame:
  assumes "lawful_secrets P docs secrets"
  shows "sp_get P c i s = (s', r) \<Longrightarrow> secrets s' = secrets s"
    and "sp_delete P c i p s = (s', r') \<Longrightarrow> secrets s' = secrets s"
proof -
  have "secrets (fst (sp_get P c i s)) = secrets s" "secrets (fst (sp_delete P c i p s)) = secrets s"
    using assms by (simp_all add: lawful_secrets_def)
  then show "sp_get P c i s = (s', r) \<Longrightarrow> secrets s' = secrets s"
    and "sp_delete P c i p s = (s', r') \<Longrightarrow> secrets s' = secrets s" by simp_all
qed

lemma lawful_put_doc:
  assumes "lawful_ports P docs vtop" "sp_put P c i d p s = (s', r)"
  shows "docs s' c' i' = (case r of
     Inr version \<Rightarrow> if c' = c \<and> i' = i then Some \<lparr>v_doc = d, v_version = version\<rparr> else docs s c' i'
   | Inl _ \<Rightarrow> docs s c' i')"
  using lawful_put [OF assms] by (auto simp: put_law_def split: sum.splits storage_error.splits)

lemma lawful_delete_doc:
  assumes "lawful_ports P docs vtop" "sp_delete P c i p s = (s', r)"
  shows "docs s' c' i' = (case r of
     Inr _ \<Rightarrow> if c' = c \<and> i' = i then None else docs s c' i' | Inl _ \<Rightarrow> docs s c' i')"
  using lawful_delete [OF assms] by (auto simp: delete_law_def split: sum.splits storage_error.splits)

section \<open>Ports in memory\<close>

text \<open>Ports over documents in memory, on which statements about the ports are run.\<close>

record mem =
  mem_secrets :: "string \<Rightarrow> string option"
  mem_rows :: "string \<Rightarrow> (string \<times> versioned) list"
  mem_next :: nat
  mem_now :: int

definition mem_docs :: "mem \<Rightarrow> string \<Rightarrow> string \<Rightarrow> versioned option" where
  "mem_docs m c = map_of (mem_rows m c)"

definition conflict :: storage_error where
  "conflict = Conflict \<lparr>rendered = ''conflict'', source_timeout = False\<rparr>"

fun holds_at :: "precondition \<Rightarrow> versioned option \<Rightarrow> bool" where
  "holds_at AnyVersion _ = True"
| "holds_at AbsentOnly found = (found = None)"
| "holds_at (AtVersion n) found = (map_option v_version found = Some n)"

fun matches :: "doc_filter \<Rightarrow> json \<Rightarrow> bool" where
  "matches AllDocs _ = True"
| "matches (FieldEq f x) d = (field_str f d = Some x)"
| "matches (FieldRange f lo hi) d = (case field_str f d of None \<Rightarrow> False | Some x \<Rightarrow> lo \<le> x \<and> x < hi)"

definition memory_ports :: "mem storage_ports" where
  "memory_ports = \<lparr>
     sp_get = (\<lambda>c i m. (m, Inr (mem_docs m c i))),
     sp_put = (\<lambda>c i d p m. if holds_at p (mem_docs m c i)
        then (m\<lparr>mem_rows := (mem_rows m)(c := (i, \<lparr>v_doc = d, v_version = mem_next m\<rparr>) # AList.delete i (mem_rows m c)),
                mem_next := Suc (mem_next m)\<rparr>, Inr (mem_next m))
        else (m, Inl conflict)),
     sp_delete = (\<lambda>c i p m. if mem_docs m c i = None \<or> holds_at p (mem_docs m c i)
        then (m\<lparr>mem_rows := (mem_rows m)(c := AList.delete i (mem_rows m c))\<rparr>, Inr (mem_docs m c i \<noteq> None))
        else (m, Inl conflict)),
     sp_query = (\<lambda>c q m. (m, Inr (filter (matches (q_filter q)) (map (v_doc \<circ> snd) (mem_rows m c))))),
     sp_secret_get = (\<lambda>n m. (m, Inr (mem_secrets m n))),
     sp_secret_set = (\<lambda>n x m. (m\<lparr>mem_secrets := (mem_secrets m)(n \<mapsto> x)\<rparr>, Inr ())),
     sp_secret_delete = (\<lambda>n m. (m\<lparr>mem_secrets := (mem_secrets m)(n := None)\<rparr>, Inr (mem_secrets m n \<noteq> None))),
     sp_now_ms = (\<lambda>m. (m, mem_now m)),
     sp_max_id_len = 512, sp_key_valid = (\<lambda>_. None), sp_sha256 = id, sp_base32 = id,
     sp_parse_json = (\<lambda>_. Inr JNull), sp_print_json = (\<lambda>_. []),
     sp_shape_error = (\<lambda>_. \<lparr>rendered = [], source_timeout = False\<rparr>)\<rparr>"

lemma memory_lawful: "lawful_ports memory_ports mem_docs mem_next"
proof -
  have put: "put_law mem_docs mem_next c i d p s s' r" if "sp_put memory_ports c i d p s = (s', r)" for c i d p s s' r
    using that by (cases p) (auto simp: memory_ports_def put_law_def mem_docs_def fun_eq_iff delete_conv'
        conflict_def split: if_splits)
  have delete: "delete_law mem_docs mem_next c i p s s' r" if "sp_delete memory_ports c i p s = (s', r)" for c i p s s' r
    using that by (cases p) (auto simp: memory_ports_def delete_law_def mem_docs_def fun_eq_iff delete_conv'
        conflict_def split: if_splits)
  show ?thesis using put delete by (auto simp: lawful_ports_def memory_ports_def)
qed

lemma memory_secrets: "lawful_secrets memory_ports mem_docs mem_secrets"
  by (auto simp: lawful_secrets_def memory_ports_def mem_docs_def fun_eq_iff)


end
