(* ===== verification/Store.thy ===== *)
theory Store
  imports Storage_Ports
begin

text \<open>
  \<open>registry/store/types.rs\<close>: installed servers, their credentials and the browse cache, written
  through the storage ports. The conditional insert is a machine of one port call per step, so
  that installers can be interleaved; the store's own call runs it to its end.
\<close>

section \<open>Rows\<close>

record server_doc =
  sd_server_id :: string
  sd_qualified_name :: string
  sd_display_name :: string
  sd_description :: "string option"
  sd_icon_url :: "string option"
  sd_command_kind :: string
  sd_command :: string
  sd_args :: "string list"
  sd_env_keys :: "string list"
  sd_config :: "json option"
  sd_installed_ms :: int
  sd_last_connected_ms :: "int option"
  sd_transport :: string
  sd_deployment_url :: "string option"
  sd_enabled :: bool
  sd_catalog_managed :: bool

definition kind_parse :: "string \<Rightarrow> command_kind" where
  "kind_parse raw = (if raw = ''python'' then Python else if raw = ''binary'' then Binary else Node)"

definition transport_parse :: "string \<Rightarrow> string option \<Rightarrow> transport" where
  "transport_parse kind url =
     (if kind = ''http_remote'' then HttpRemote (case url of None \<Rightarrow> [] | Some u \<Rightarrow> u) else Stdio)"

definition encode :: "installed_server \<Rightarrow> bool \<Rightarrow> server_doc" where
  "encode server managed = \<lparr>sd_server_id = server_id server, sd_qualified_name = qualified_name server,
     sd_display_name = display_name server, sd_description = description server,
     sd_icon_url = icon_url server, sd_command_kind = command_kind_str (launch_kind server),
     sd_command = launch_command server, sd_args = launch_args server, sd_env_keys = env_keys server,
     sd_config = install_config server, sd_installed_ms = installed_at server,
     sd_last_connected_ms = last_connected_at server, sd_transport = dispatch_kind (dial server),
     sd_deployment_url = deployment_url (dial server), sd_enabled = enabled server,
     sd_catalog_managed = managed\<rparr>"

definition decode :: "server_doc \<Rightarrow> installed_server" where
  "decode d = \<lparr>server_id = sd_server_id d, qualified_name = sd_qualified_name d,
     display_name = sd_display_name d, description = sd_description d, icon_url = sd_icon_url d,
     launch_kind = kind_parse (sd_command_kind d), launch_command = sd_command d,
     launch_args = sd_args d, env_keys = sd_env_keys d, install_config = sd_config d,
     installed_at = sd_installed_ms d, last_connected_at = sd_last_connected_ms d,
     dial = transport_parse (sd_transport d) (sd_deployment_url d), enabled = sd_enabled d\<rparr>"

definition skip_none :: "string \<Rightarrow> ('a \<Rightarrow> json) \<Rightarrow> 'a option \<Rightarrow> (string \<times> json) list" where
  "skip_none k f x = (case x of None \<Rightarrow> [] | Some a \<Rightarrow> [(k, f a)])"

definition enc_server_doc :: "server_doc \<Rightarrow> json" where
  "enc_server_doc d = jobject
     ([(''server_id'', JStr (sd_server_id d)), (''qualified_name'', JStr (sd_qualified_name d)),
       (''display_name'', JStr (sd_display_name d))] @
      skip_none ''description'' JStr (sd_description d) @ skip_none ''icon_url'' JStr (sd_icon_url d) @
      [(''command_kind'', JStr (sd_command_kind d)), (''command'', JStr (sd_command d)),
       (''args'', JArr (map JStr (sd_args d))), (''env_keys'', JArr (map JStr (sd_env_keys d)))] @
      skip_none ''config'' id (sd_config d) @ [(''installed_ms'', JInt (sd_installed_ms d))] @
      skip_none ''last_connected_ms'' JInt (sd_last_connected_ms d) @
      [(''transport'', JStr (sd_transport d))] @
      skip_none ''deployment_url'' JStr (sd_deployment_url d) @
      [(''enabled'', JBool (sd_enabled d)), (''catalog_managed'', JBool (sd_catalog_managed d))])"

definition dec_server_doc :: "json \<Rightarrow> server_doc option" where
  "dec_server_doc j =
     Option.bind (required ''server_id'' as_str j) (\<lambda>sid.
     Option.bind (required ''qualified_name'' as_str j) (\<lambda>qn.
     Option.bind (required ''display_name'' as_str j) (\<lambda>dn.
     Option.bind (optional ''description'' as_str j) (\<lambda>de.
     Option.bind (optional ''icon_url'' as_str j) (\<lambda>ic.
     Option.bind (required ''command_kind'' as_str j) (\<lambda>ck.
     Option.bind (required ''command'' as_str j) (\<lambda>cm.
     Option.bind (defaulted ''args'' [] dec_strings j) (\<lambda>ar.
     Option.bind (defaulted ''env_keys'' [] dec_strings j) (\<lambda>ek.
     Option.bind (optional ''config'' Some j) (\<lambda>cf.
     Option.bind (required ''installed_ms'' as_i64 j) (\<lambda>im.
     Option.bind (optional ''last_connected_ms'' as_i64 j) (\<lambda>lc.
     Option.bind (defaulted ''transport'' [] as_str j) (\<lambda>tr.
     Option.bind (optional ''deployment_url'' as_str j) (\<lambda>du.
     Option.bind (defaulted ''enabled'' True as_bool j) (\<lambda>en.
     Option.bind (defaulted ''catalog_managed'' False as_bool j) (\<lambda>cg.
       Some \<lparr>sd_server_id = sid, sd_qualified_name = qn, sd_display_name = dn, sd_description = de,
         sd_icon_url = ic, sd_command_kind = ck, sd_command = cm, sd_args = ar, sd_env_keys = ek,
         sd_config = cf, sd_installed_ms = im, sd_last_connected_ms = lc, sd_transport = tr,
         sd_deployment_url = du, sd_enabled = en, sd_catalog_managed = cg\<rparr>))))))))))))))))"

definition decode_server :: "'s storage_ports \<Rightarrow> json \<Rightarrow> error + installed_server" where
  "decode_server P doc = (case dec_server_doc doc of
     None \<Rightarrow> Inl (Serialization (sp_shape_error P doc)) | Some d \<Rightarrow> Inr (decode d))"

definition key :: "'s storage_ports \<Rightarrow> string list \<Rightarrow> error + string" where
  "key P parts = (case doc_id P parts of
     Inl err \<Rightarrow> Inl (Store_Failure ''building a document id'' (storage_source err)) | Inr k \<Rightarrow> Inr k)"

section \<open>Reading\<close>

definition is_catalog_server :: "'s storage_ports \<Rightarrow> string \<Rightarrow> 's \<Rightarrow> 's \<times> (error + bool)" where
  "is_catalog_server P sid s =
     sbind (s, key P [sid]) (\<lambda>k s.
     sbind (at_port ''reading catalog provenance'' (sp_get P servers_coll k s)) (\<lambda>found s.
       (s, Inr (case Option.bind found (\<lambda>v. Option.bind (jget ''catalog_managed'' (v_doc v)) as_bool) of
                  None \<Rightarrow> False | Some b \<Rightarrow> b))))"

definition list_servers :: "'s storage_ports \<Rightarrow> 's \<Rightarrow> 's \<times> (error + installed_server list)" where
  "list_servers P s =
     sbind (at_port ''listing servers'' (sp_query P servers_coll
         \<lparr>q_filter = AllDocs, q_sort = [(''installed_ms'', True)], q_limit = None\<rparr> s)) (\<lambda>rows s.
       (s, collect (decode_server P) rows))"

definition find_server :: "'s storage_ports \<Rightarrow> string \<Rightarrow> 's \<Rightarrow> 's \<times> (error + installed_server option)" where
  "find_server P sid s =
     sbind (s, key P [sid]) (\<lambda>k s.
     sbind (at_port ''looking a server up'' (sp_get P servers_coll k s)) (\<lambda>found s.
       (s, case found of None \<Rightarrow> Inr None
           | Some row \<Rightarrow> rbind (decode_server P (v_doc row)) (\<lambda>server. Inr (Some server)))))"

definition get_server :: "'s storage_ports \<Rightarrow> string \<Rightarrow> 's \<Rightarrow> 's \<times> (error + installed_server)" where
  "get_server P sid s =
     sbind (find_server P sid s) (\<lambda>found s. (s, ok_or (UnknownServer sid) found))"

definition find_server_by_qualified_name :: "'s storage_ports \<Rightarrow> string \<Rightarrow> 's \<Rightarrow>
    's \<times> (error + installed_server option)" where
  "find_server_by_qualified_name P name s =
     sbind (at_port ''looking a server up by qualified name'' (sp_query P servers_coll
         \<lparr>q_filter = FieldEq ''qualified_name'' name, q_sort = [(''installed_ms'', True)], q_limit = Some 1\<rparr> s))
       (\<lambda>rows s. (s, case rows of [] \<Rightarrow> Inr None
           | row # _ \<Rightarrow> rbind (decode_server P row) (\<lambda>server. Inr (Some server))))"

section \<open>Installing\<close>

definition insert_server :: "'s storage_ports \<Rightarrow> installed_server \<Rightarrow> 's \<Rightarrow> 's \<times> (error + unit)" where
  "insert_server P server s =
     sbind (s, key P [server_id server]) (\<lambda>k s.
     sbind (at_port ''inserting a server''
         (sp_put P servers_coll k (enc_server_doc (encode server False)) AbsentOnly s)) (\<lambda>_ s. (s, Inr ())))"

definition claim_lease_ms :: int where "claim_lease_ms = 60000"

definition name_claim :: "string \<Rightarrow> string \<Rightarrow> int \<Rightarrow> json" where
  "name_claim qname sid claimed_ms = jobject
     [(''qualified_name'', JStr qname), (''server_id'', JStr sid), (''claimed_ms'', JInt claimed_ms)]"

lemma name_claim_fields [simp]:
  "field_str ''server_id'' (name_claim qname sid ms) = Some sid"
  "jget ''claimed_ms'' (name_claim qname sid ms) = Some (JInt ms)"
  by (simp_all add: name_claim_def field_str_def jget_jobject)

record insert_job =
  ij_server_id :: string
  ij_name :: string
  ij_server_key :: string
  ij_claim_id :: string
  ij_doc :: json
  ij_claim :: json

text \<open>Where an insert stands between two port calls.\<close>

datatype insert_phase =
    Looking
  | Claiming
  | ReadingClaim
  | ProbingHolder versioned
  | CheckingLease versioned
  | TakingOver versioned
  | Writing
  | Releasing storage_error
  | DroppingClaim storage_error nat
  | Confirming
  | BackingOut
  | Finished "storage_error + bool"

definition owns_claim :: "string \<Rightarrow> versioned option \<Rightarrow> versioned option" where
  "owns_claim sid held = (case held of None \<Rightarrow> None
     | Some v \<Rightarrow> if field_str ''server_id'' (v_doc v) = Some sid then Some v else None)"

definition sat_i64 :: "int \<Rightarrow> int" where "sat_i64 i = max (- (2 ^ 63)) (min i (2 ^ 63 - 1))"

definition claim_held_since :: "versioned \<Rightarrow> int" where
  "claim_held_since v = (case Option.bind (jget ''claimed_ms'' (v_doc v)) as_i64 of None \<Rightarrow> 0 | Some ms \<Rightarrow> ms)"

definition insert_step :: "'s storage_ports \<Rightarrow> insert_job \<Rightarrow> insert_phase \<Rightarrow> 's \<Rightarrow> 's \<times> insert_phase" where
  "insert_step P job phase s = (case phase of
     Looking \<Rightarrow>
       (case sp_query P servers_coll \<lparr>q_filter = FieldEq ''qualified_name'' (ij_name job),
                q_sort = [], q_limit = Some 1\<rparr> s of
          (s, Inl err) \<Rightarrow> (s, Finished (Inl err))
        | (s, Inr rows) \<Rightarrow> (s, if rows \<noteq> [] then Finished (Inr False) else Claiming))
   | Claiming \<Rightarrow>
       (case sp_put P server_names_coll (ij_claim_id job) (ij_claim job) AbsentOnly s of
          (s, Inr _) \<Rightarrow> (s, Writing)
        | (s, Inl (Conflict _)) \<Rightarrow> (s, ReadingClaim)
        | (s, Inl err) \<Rightarrow> (s, Finished (Inl err)))
   | ReadingClaim \<Rightarrow>
       (case sp_get P server_names_coll (ij_claim_id job) s of
          (s, Inl err) \<Rightarrow> (s, Finished (Inl err))
        | (s, Inr None) \<Rightarrow> (s, Finished (Inr False))
        | (s, Inr (Some held)) \<Rightarrow> (s, ProbingHolder held))
   | ProbingHolder held \<Rightarrow>
       (case doc_id P [case field_str ''server_id'' (v_doc held) of None \<Rightarrow> [] | Some h \<Rightarrow> h] of
          Inl err \<Rightarrow> (s, Finished (Inl err))
        | Inr k \<Rightarrow> (case sp_get P servers_coll k s of
            (s, Inl err) \<Rightarrow> (s, Finished (Inl err))
          | (s, Inr (Some _)) \<Rightarrow> (s, Finished (Inr False))
          | (s, Inr None) \<Rightarrow> (s, CheckingLease held)))
   | CheckingLease held \<Rightarrow>
       (case sp_now_ms P s of (s, now) \<Rightarrow>
          (s, if sat_i64 (now - claim_held_since held) < claim_lease_ms then Finished (Inr False)
              else TakingOver held))
   | TakingOver held \<Rightarrow>
       (case sp_put P server_names_coll (ij_claim_id job) (ij_claim job) (AtVersion (v_version held)) s of
          (s, Inr _) \<Rightarrow> (s, Writing)
        | (s, Inl (Conflict _)) \<Rightarrow> (s, Finished (Inr False))
        | (s, Inl err) \<Rightarrow> (s, Finished (Inl err)))
   | Writing \<Rightarrow>
       (case sp_put P servers_coll (ij_server_key job) (ij_doc job) AbsentOnly s of
          (s, Inr _) \<Rightarrow> (s, Confirming)
        | (s, Inl err) \<Rightarrow> (s, Releasing err))
   | Releasing err \<Rightarrow>
       (case sp_get P server_names_coll (ij_claim_id job) s of
          (s, Inl _) \<Rightarrow> (s, Finished (Inl err))
        | (s, Inr held) \<Rightarrow> (case owns_claim (ij_server_id job) held of
            None \<Rightarrow> (s, Finished (Inl err))
          | Some own \<Rightarrow> (s, DroppingClaim err (v_version own))))
   | DroppingClaim err version \<Rightarrow>
       (case sp_delete P server_names_coll (ij_claim_id job) (AtVersion version) s of
          (s, _) \<Rightarrow> (s, Finished (Inl err)))
   | Confirming \<Rightarrow>
       (case sp_get P server_names_coll (ij_claim_id job) s of
          (s, Inl err) \<Rightarrow> (s, Finished (Inl err))
        | (s, Inr held) \<Rightarrow>
            (s, if owns_claim (ij_server_id job) held \<noteq> None then Finished (Inr True) else BackingOut))
   | BackingOut \<Rightarrow>
       (case sp_delete P servers_coll (ij_server_key job) AnyVersion s of
          (s, Inl err) \<Rightarrow> (s, Finished (Inl err))
        | (s, Inr _) \<Rightarrow> (s, Finished (Inr False)))
   | Finished r \<Rightarrow> (s, Finished r))"

text \<open>Every step brings the end nearer.\<close>

fun remaining :: "insert_phase \<Rightarrow> nat" where
  "remaining Looking = 9"
| "remaining Claiming = 8"
| "remaining ReadingClaim = 7"
| "remaining (ProbingHolder _) = 6"
| "remaining (CheckingLease _) = 5"
| "remaining (TakingOver _) = 4"
| "remaining Writing = 3"
| "remaining (Releasing _) = 2"
| "remaining (DroppingClaim _ _) = 1"
| "remaining Confirming = 2"
| "remaining BackingOut = 1"
| "remaining (Finished _) = 0"

fun outcome_of :: "insert_phase \<Rightarrow> (storage_error + bool) option" where
  "outcome_of (Finished r) = Some r"
| "outcome_of _ = None"

lemma insert_step_decreases:
  "outcome_of phase = None \<Longrightarrow> remaining (snd (insert_step P job phase s)) < remaining phase"
  by (cases phase) (simp_all add: insert_step_def split: prod.split sum.split option.split storage_error.split)

function run_insert :: "'s storage_ports \<Rightarrow> insert_job \<Rightarrow> insert_phase \<Rightarrow> 's \<Rightarrow> 's \<times> (storage_error + bool)" where
  "run_insert P job phase s =
     (case outcome_of phase of
        Some r \<Rightarrow> (s, r)
      | None \<Rightarrow> run_insert P job (snd (insert_step P job phase s)) (fst (insert_step P job phase s)))"
  by pat_completeness auto
termination
  by (relation "measure (\<lambda>(P, job, phase, s). remaining phase)") (simp_all add: insert_step_decreases)

declare run_insert.simps [simp del]

definition insert_job_of :: "'s storage_ports \<Rightarrow> installed_server \<Rightarrow> bool \<Rightarrow> int \<Rightarrow> error + insert_job" where
  "insert_job_of P server managed now =
     rbind (key P [server_id server]) (\<lambda>server_key.
     rbind (key P [qualified_name server]) (\<lambda>claim_id.
       Inr \<lparr>ij_server_id = server_id server, ij_name = qualified_name server,
         ij_server_key = server_key, ij_claim_id = claim_id,
         ij_doc = enc_server_doc (encode server managed),
         ij_claim = name_claim (qualified_name server) (server_id server) now\<rparr>))"

definition insert_server_if_absent_with_origin :: "'s storage_ports \<Rightarrow> installed_server \<Rightarrow> bool \<Rightarrow> 's \<Rightarrow>
    's \<times> (error + bool)" where
  "insert_server_if_absent_with_origin P server managed s =
     (let (s, now) = sp_now_ms P s
      in sbind (s, insert_job_of P server managed now) (\<lambda>job s.
           at_port ''inserting a server if absent'' (run_insert P job Looking s)))"

definition insert_server_if_absent :: "'s storage_ports \<Rightarrow> installed_server \<Rightarrow> 's \<Rightarrow> 's \<times> (error + bool)" where
  "insert_server_if_absent P server s = insert_server_if_absent_with_origin P server False s"

definition insert_catalog_server_if_absent :: "'s storage_ports \<Rightarrow> installed_server \<Rightarrow> 's \<Rightarrow>
    's \<times> (error + bool)" where
  "insert_catalog_server_if_absent P server s = insert_server_if_absent_with_origin P server True s"

section \<open>Credentials\<close>

definition env_secret_prefix :: string where "env_secret_prefix = ''mcp_client_env/''"

definition env_secret_name :: "string \<Rightarrow> string" where "env_secret_name sid = env_secret_prefix @ sid"

definition enc_env :: "(string, string) btree \<Rightarrow> json" where
  "enc_env m = JObj (map (\<lambda>(k, v). (k, JStr v)) m)"

definition dec_env :: "json \<Rightarrow> (string, string) btree option" where
  "dec_env j = (case as_object j of None \<Rightarrow> None
     | Some m \<Rightarrow> all_some (map (\<lambda>(k, v). map_option (Pair k) (as_str v)) m))"

definition set_env_values :: "'s storage_ports \<Rightarrow> string \<Rightarrow> (string, string) btree \<Rightarrow> 's \<Rightarrow> 's \<times> (error + unit)" where
  "set_env_values P sid m s =
     (let bytes = sp_print_json P (enc_env m)
      in at_port ''storing credentials''
           (if bytes = ''{}'' then sbind (sp_secret_delete P (env_secret_name sid) s) (\<lambda>_ s. (s, Inr ()))
            else sp_secret_set P (env_secret_name sid) bytes s))"

definition load_env_values :: "'s storage_ports \<Rightarrow> string \<Rightarrow> 's \<Rightarrow> 's \<times> (error + (string, string) btree)" where
  "load_env_values P sid s =
     sbind (at_port ''loading credentials'' (sp_secret_get P (env_secret_name sid) s)) (\<lambda>bytes s.
       (s, case bytes of None \<Rightarrow> Inr []
           | Some text \<Rightarrow> (case sp_parse_json P text of
               Inl src \<Rightarrow> Inl (Serialization src)
             | Inr j \<Rightarrow> ok_or (Serialization (sp_shape_error P j)) (dec_env j))))"

section \<open>Changing and deleting rows\<close>

definition update_server :: "'s storage_ports \<Rightarrow> string \<Rightarrow> string \<Rightarrow> (server_doc \<Rightarrow> server_doc) \<Rightarrow> 's \<Rightarrow>
    's \<times> (error + unit)" where
  "update_server P action sid change s =
     sbind (s, key P [sid]) (\<lambda>k s.
     sbind (at_port action (repo_update retry_attempts P servers_coll
          (\<lambda>j. ok_or (sp_shape_error P j) (dec_server_doc j)) enc_server_doc k
          (\<lambda>current. Inr (map_option change current)) s)) (\<lambda>_ s. (s, Inr ())))"

definition update_env_keys :: "'s storage_ports \<Rightarrow> string \<Rightarrow> string list \<Rightarrow> 's \<Rightarrow> 's \<times> (error + unit)" where
  "update_env_keys P sid names =
     update_server P ''updating a server's environment keys'' sid (\<lambda>d. d\<lparr>sd_env_keys := names\<rparr>)"

definition update_config :: "'s storage_ports \<Rightarrow> string \<Rightarrow> json option \<Rightarrow> 's \<Rightarrow> 's \<times> (error + unit)" where
  "update_config P sid config =
     update_server P ''updating a server's configuration'' sid (\<lambda>d. d\<lparr>sd_config := config\<rparr>)"

definition update_enabled :: "'s storage_ports \<Rightarrow> string \<Rightarrow> bool \<Rightarrow> 's \<Rightarrow> 's \<times> (error + unit)" where
  "update_enabled P sid on =
     update_server P ''updating a server's enabled flag'' sid (\<lambda>d. d\<lparr>sd_enabled := on\<rparr>)"

definition touch_last_connected :: "'s storage_ports \<Rightarrow> string \<Rightarrow> 's \<Rightarrow> 's \<times> (error + unit)" where
  "touch_last_connected P sid s =
     (let (s, now) = sp_now_ms P s
      in update_server P ''recording a successful connection'' sid (\<lambda>d. d\<lparr>sd_last_connected_ms := Some now\<rparr>) s)"

definition release_name :: "'s storage_ports \<Rightarrow> string \<Rightarrow> string \<Rightarrow> 's \<Rightarrow> 's \<times> (storage_error + unit)" where
  "release_name P sid name s =
     sbind (s, doc_id P [name]) (\<lambda>claim_id s.
     sbind (sp_get P server_names_coll claim_id s) (\<lambda>held s.
       case owns_claim sid held of
         None \<Rightarrow> (s, Inr ())
       | Some claim \<Rightarrow>
           (case sp_delete P server_names_coll claim_id (AtVersion (v_version claim)) s of
              (s, Inr _) \<Rightarrow> (s, Inr ())
            | (s, Inl (Conflict _)) \<Rightarrow> (s, Inr ())
            | (s, Inl err) \<Rightarrow> (s, Inl err))))"

definition delete_server :: "'s storage_ports \<Rightarrow> string \<Rightarrow> 's \<Rightarrow> 's \<times> (error + bool)" where
  "delete_server P sid s =
     sbind (s, key P [sid]) (\<lambda>k s. at_port ''deleting a server''
       (sbind (sp_get P servers_coll k s) (\<lambda>existing s.
        sbind (sp_delete P servers_coll k AnyVersion s) (\<lambda>removed s.
        sbind (sp_delete P tool_cache_coll k AnyVersion s) (\<lambda>_ s.
        sbind (sp_secret_delete P (env_secret_name sid) s) (\<lambda>_ s.
          case Option.bind existing (\<lambda>row. field_str ''qualified_name'' (v_doc row)) of
            None \<Rightarrow> (s, Inr removed)
          | Some name \<Rightarrow> sbind (release_name P sid name s) (\<lambda>_ s. (s, Inr removed))))))))"

section \<open>The browse cache\<close>

definition cache_ttl_ms :: int where "cache_ttl_ms = 10 * 60 * 1000"

record cache_doc =
  cd_cache_key :: string
  cd_body :: json
  cd_cached_ms :: int

definition enc_cache_doc :: "cache_doc \<Rightarrow> json" where
  "enc_cache_doc d = jobject [(''cache_key'', JStr (cd_cache_key d)), (''body'', cd_body d),
     (''cached_ms'', JInt (cd_cached_ms d))]"

definition dec_cache_doc :: "json \<Rightarrow> cache_doc option" where
  "dec_cache_doc j =
     Option.bind (required ''cache_key'' as_str j) (\<lambda>k.
     Option.bind (required ''body'' Some j) (\<lambda>b.
     Option.bind (required ''cached_ms'' as_i64 j) (\<lambda>ms.
       Some \<lparr>cd_cache_key = k, cd_body = b, cd_cached_ms = ms\<rparr>)))"

definition dec_cache_row :: "'s storage_ports \<Rightarrow> json \<Rightarrow> error + cache_doc" where
  "dec_cache_row P j = ok_or (Serialization (sp_shape_error P j)) (dec_cache_doc j)"

definition read_cache :: "'s storage_ports \<Rightarrow> string \<Rightarrow> 's \<Rightarrow> 's \<times> (error + cache_doc option)" where
  "read_cache P cache_key s =
     sbind (s, key P [cache_key]) (\<lambda>k s.
     sbind (at_port ''reading the browse cache'' (sp_get P registry_cache_coll k s)) (\<lambda>found s.
       (s, case found of None \<Rightarrow> Inr None
           | Some row \<Rightarrow> rbind (dec_cache_row P (v_doc row)) (\<lambda>d. Inr (Some d)))))"

definition cached :: "'s storage_ports \<Rightarrow> string \<Rightarrow> 's \<Rightarrow> 's \<times> (error + string option)" where
  "cached P cache_key s =
     sbind (read_cache P cache_key s) (\<lambda>entry s.
       case entry of None \<Rightarrow> (s, Inr None)
       | Some d \<Rightarrow> (let (s, now) = sp_now_ms P s
           in (s, Inr (if now - cd_cached_ms d < cache_ttl_ms then Some (sp_print_json P (cd_body d)) else None))))"

definition cached_stale :: "'s storage_ports \<Rightarrow> string \<Rightarrow> 's \<Rightarrow> 's \<times> (error + string option)" where
  "cached_stale P cache_key s =
     sbind (read_cache P cache_key s) (\<lambda>entry s.
       (s, Inr (map_option (\<lambda>d. sp_print_json P (cd_body d)) entry)))"

text \<open>U+10FFFF in UTF-8, which no key extends past the prefix exceeds.\<close>

definition last_char :: string where
  "last_char = [char_of (244::nat), char_of (143::nat), char_of (191::nat), char_of (191::nat)]"

definition cached_with_prefix :: "'s storage_ports \<Rightarrow> string \<Rightarrow> 's \<Rightarrow> 's \<times> (error + string list)" where
  "cached_with_prefix P pre s =
     sbind (at_port ''reading the browse cache'' (sp_query P registry_cache_coll
         \<lparr>q_filter = FieldRange ''cache_key'' pre (pre @ last_char),
          q_sort = [(''cached_ms'', False), (''cache_key'', True)], q_limit = None\<rparr> s)) (\<lambda>rows s.
       (s, rbind (collect (dec_cache_row P) rows) (\<lambda>ds.
          Inr (map (\<lambda>d. sp_print_json P (cd_body d)) (filter (\<lambda>d. starts_with pre (cd_cache_key d)) ds)))))"

definition write_cache :: "'s storage_ports \<Rightarrow> string \<Rightarrow> string \<Rightarrow> int \<Rightarrow> 's \<Rightarrow> 's \<times> (error + unit)" where
  "write_cache P cache_key body cached_ms s =
     sbind (s, key P [cache_key]) (\<lambda>k s.
       case sp_parse_json P body of
         Inl src \<Rightarrow> (s, Inl (Serialization src))
       | Inr j \<Rightarrow> sbind (at_port ''writing to the browse cache'' (sp_put P registry_cache_coll k
             (enc_cache_doc \<lparr>cd_cache_key = cache_key, cd_body = j, cd_cached_ms = cached_ms\<rparr>) AnyVersion s))
           (\<lambda>_ s. (s, Inr ())))"

definition cache :: "'s storage_ports \<Rightarrow> string \<Rightarrow> string \<Rightarrow> 's \<Rightarrow> 's \<times> (error + unit)" where
  "cache P cache_key body s =
     (let (s, now) = sp_now_ms P s in write_cache P cache_key body now s)"

end
