(* ===== verification/Naming.thy ===== *)
theory Naming
  imports Text
begin

text \<open>
  \<open>crates/tinymcp/src/agent_tools/naming.rs\<close>: the names a model sees. SHA-256 is an argument
  (\<open>sha\<close>), of which only the length of a digest is ever assumed. A name is built of ASCII, so
  a character of the input that is not ASCII is its lead byte here, its continuation bytes being
  separators like it or, in the legacy scheme, dropped.
\<close>

section \<open>Slugs\<close>

definition us :: char where "us = CHR ''_''"

definition max_tool_name_len :: nat where "max_tool_name_len = 64"
definition tool_name_prefix :: string where "tool_name_prefix = ''mcp_''"
definition max_server_slug_len :: nat where "max_server_slug_len = 24"
definition suffix_hex_len :: nat where "suffix_hex_len = 6"
definition noise_words :: "string list" where "noise_words = [''mcp'', ''server'']"

definition ends_us :: "string \<Rightarrow> bool" where "ends_us s = (s \<noteq> [] \<and> last s = us)"

definition trim_us_end :: "string \<Rightarrow> string" where
  "trim_us_end s = rev (dropWhile (\<lambda>c. c = us) (rev s))"

fun slug_loop :: "bool \<Rightarrow> char option \<Rightarrow> string \<Rightarrow> string \<Rightarrow> string" where
  "slug_loop split_camel previous out [] = out"
| "slug_loop split_camel previous out (ch # rest) =
     (if is_alnum ch then
        let boundary = split_camel \<and> is_upper ch \<and>
              (case previous of None \<Rightarrow> False | Some p \<Rightarrow> is_lower p \<or> is_digit p);
            out = (if boundary \<and> \<not> ends_us out then out @ [us] else out)
        in slug_loop split_camel (Some ch) (out @ [to_lower ch]) rest
      else slug_loop split_camel (Some ch) (if out \<noteq> [] \<and> \<not> ends_us out then out @ [us] else out) rest)"

definition slug_with :: "string \<Rightarrow> bool \<Rightarrow> string" where
  "slug_with input split_camel = trim_us_end (slug_loop split_camel None [] input)"

definition slug :: "string \<Rightarrow> string" where "slug input = slug_with input True"

definition truncate_slug :: "string \<Rightarrow> nat \<Rightarrow> string" where
  "truncate_slug s n = trim_us_end (take n s)"

definition non_empty :: "string \<Rightarrow> string \<Rightarrow> string" where
  "non_empty v fallback = (if v = [] then fallback else v)"

definition last_segment :: "string \<Rightarrow> string" where
  "last_segment label = last (split_on (\<lambda>c. c = CHR ''/'') label)"

definition server_slug :: "string \<Rightarrow> string" where
  "server_slug label =
     (let segment = last_segment label;
          base = slug_with (dropWhile (\<lambda>c. c = CHR ''@'') segment) False;
          ws = filter (\<lambda>w. w \<noteq> []) (split_on (\<lambda>c. c = us) base);
          meaningful = filter (\<lambda>w. w \<notin> set noise_words) ws;
          chosen = (if meaningful = [] then ws else meaningful);
          joined = truncate_slug (join [us] chosen) max_server_slug_len
      in if joined = [] then ''server'' else joined)"

section \<open>Names\<close>

definition hex_digit :: "nat \<Rightarrow> char" where "hex_digit n = ''0123456789abcdef'' ! n"

definition hex :: "string \<Rightarrow> string" where
  "hex bytes = concat (map (\<lambda>b. [hex_digit (byte b div 16), hex_digit (byte b mod 16)]) bytes)"

definition nul :: char where "nul = char_of (0::nat)"

definition digest :: "(string \<Rightarrow> string) \<Rightarrow> string list \<Rightarrow> string" where
  "digest sha parts = take suffix_hex_len (hex (sha (join [nul] parts)))"

definition with_suffix :: "string \<Rightarrow> string \<Rightarrow> string \<Rightarrow> string" where
  "with_suffix server tool sfx =
     (let fixed = length tool_name_prefix + length server + 1 + 1 + length sfx;
          room = max_tool_name_len - fixed;
          tool = non_empty (truncate_slug tool room) ''tool''
      in tool_name_prefix @ server @ [us] @ tool @ [us] @ sfx)"

definition tool_name_for :: "(string \<Rightarrow> string) \<Rightarrow> string \<Rightarrow> string \<Rightarrow> string" where
  "tool_name_for sha server_label tool =
     (let server = server_slug server_label;
          tool_part = non_empty (slug tool) ''tool'';
          plain = tool_name_prefix @ server @ [us] @ tool_part
      in if length plain \<le> max_tool_name_len then plain
         else with_suffix server tool_part (digest sha [server_label, tool]))"

definition disambiguated_tool_name :: "(string \<Rightarrow> string) \<Rightarrow> string \<Rightarrow> string \<Rightarrow> string \<Rightarrow> string" where
  "disambiguated_tool_name sha server_id server_label tool =
     with_suffix (server_slug server_label) (non_empty (slug tool) ''tool'')
       (digest sha [server_id, tool])"

definition legacy_tool_name :: "(string \<Rightarrow> string) \<Rightarrow> string \<Rightarrow> string \<Rightarrow> string" where
  "legacy_tool_name sha server_id tool =
     (let raw = take 42 (map (\<lambda>c. if is_alnum c then to_lower c else us) (filter (\<lambda>c. \<not> is_cont c) tool));
          trimmed = trim_us_end (dropWhile (\<lambda>c. c = us) raw);
          trimmed = (if trimmed = [] then ''tool'' else trimmed);
          full = hex (sha (server_id @ [nul] @ tool))
      in tool_name_prefix @ trimmed @ [us] @ take 12 full)"

section \<open>The shape of a slug\<close>

definition slug_char :: "char \<Rightarrow> bool" where "slug_char c = (is_lower c \<or> is_digit c)"
definition safe_char :: "char \<Rightarrow> bool" where "safe_char c = (slug_char c \<or> c = us)"

text \<open>Words of letters and digits with single underscores between them: \<open>b\<close> says whether an
  underscore may come next.\<close>

fun spaced :: "bool \<Rightarrow> string \<Rightarrow> bool" where
  "spaced b [] = True"
| "spaced b (c # cs) = (if c = us then b \<and> spaced False cs else slug_char c \<and> spaced True cs)"

fun after_text :: "bool \<Rightarrow> string \<Rightarrow> bool" where
  "after_text b [] = b"
| "after_text b (c # cs) = after_text (c \<noteq> us) cs"

lemma spaced_append: "spaced b (xs @ ys) \<longleftrightarrow> spaced b xs \<and> spaced (after_text b xs) ys"
  by (induction b xs rule: spaced.induct) auto

lemma after_text_last: "after_text False s \<longleftrightarrow> s \<noteq> [] \<and> \<not> ends_us s"
proof -
  have "after_text b s = (if s = [] then b else last s \<noteq> us)" for b
    by (induction b s rule: after_text.induct) auto
  then show ?thesis by (auto simp: ends_us_def)
qed

lemma spaced_safe: "spaced b s \<Longrightarrow> c \<in> set s \<Longrightarrow> safe_char c"
  by (induction b s rule: spaced.induct) (auto simp: safe_char_def split: if_splits)

lemma us_not_alnum [simp]: "\<not> is_alnum us" "\<not> slug_char us"
  by (simp_all add: us_def is_alnum_def slug_char_def is_lower_def is_upper_def is_digit_def byte_def)

lemma alnum_lower: "is_alnum c \<Longrightarrow> slug_char (to_lower c) \<and> to_lower c \<noteq> us"
proof -
  assume "is_alnum c"
  then have "is_alnum (to_lower c)" by simp
  then have "slug_char (to_lower c)" by (auto simp: is_alnum_def slug_char_def)
  then show ?thesis by auto
qed

lemma slug_char_fix: "slug_char c \<Longrightarrow> is_alnum c \<and> to_lower c = c \<and> \<not> is_upper c \<and> c \<noteq> us"
proof -
  assume c: "slug_char c"
  then have "\<not> is_upper c" by (auto simp: slug_char_def is_lower_def is_digit_def is_upper_def)
  moreover from c have "c \<noteq> us" by (metis us_not_alnum(2))
  ultimately show ?thesis using c by (auto simp: slug_char_def is_alnum_def to_lower_def)
qed

lemma slug_loop_spaced:
  "spaced False out \<Longrightarrow> (\<And>p. prev = Some p \<Longrightarrow> is_alnum p \<Longrightarrow> out \<noteq> []) \<Longrightarrow>
   spaced False (slug_loop sp prev out s)"
proof (induction s arbitrary: prev out)
  case (Cons ch rest)
  show ?case
  proof (cases "is_alnum ch")
    case True
    let ?b = "sp \<and> is_upper ch \<and> (case prev of None \<Rightarrow> False | Some p \<Rightarrow> is_lower p \<or> is_digit p)"
    let ?out = "if ?b \<and> \<not> ends_us out then out @ [us] else out"
    have "?b \<Longrightarrow> out \<noteq> []"
      using Cons.prems(2) by (auto simp: is_alnum_def split: option.splits)
    then have "spaced False (?out @ [to_lower ch])"
      using Cons.prems(1) alnum_lower [OF True] by (auto simp: spaced_append after_text_last)
    then have "spaced False (slug_loop sp (Some ch) (?out @ [to_lower ch]) rest)"
      by (rule Cons.IH) simp
    with True show ?thesis by (simp add: Let_def)
  next
    case False
    let ?out = "if out \<noteq> [] \<and> \<not> ends_us out then out @ [us] else out"
    have "spaced False ?out" using Cons.prems(1) by (simp add: spaced_append after_text_last)
    then have "spaced False (slug_loop sp (Some ch) ?out rest)"
      by (rule Cons.IH) (use False in simp)
    with False show ?thesis by simp
  qed
qed simp

lemma trim_us_end_eq: "\<exists>n. s = trim_us_end s @ replicate n us \<and> \<not> ends_us (trim_us_end s)"
proof -
  have "\<exists>n. r = replicate n us @ dropWhile (\<lambda>c. c = us) r" for r
    by (induction r) (auto intro: exI [of _ 0] exI [of _ "Suc _"])
  then obtain n where "rev s = replicate n us @ dropWhile (\<lambda>c. c = us) (rev s)" by blast
  then have "rev (rev s) = rev (replicate n us @ dropWhile (\<lambda>c. c = us) (rev s))" by simp
  then have "s = trim_us_end s @ replicate n us" by (simp add: trim_us_end_def)
  moreover have "\<not> ends_us (trim_us_end s)"
    using hd_dropWhile [of "\<lambda>c. c = us" "rev s"]
    by (auto simp: ends_us_def trim_us_end_def last_rev)
  ultimately show ?thesis by blast
qed

lemma trim_us_end_id: "\<not> ends_us s \<Longrightarrow> trim_us_end s = s"
  by (cases s rule: rev_cases) (auto simp: ends_us_def trim_us_end_def)

lemma trim_us_end_spaced: "spaced False s \<Longrightarrow> spaced False (trim_us_end s) \<and> \<not> ends_us (trim_us_end s)"
  using trim_us_end_eq [of s] by (metis spaced_append)

lemma trim_us_end_length: "length (trim_us_end s) \<le> length s"
  by (simp add: trim_us_end_def length_dropWhile_le [of _ "rev s", simplified])

lemma trim_us_end_prefix: "prefix (trim_us_end s) s"
  using trim_us_end_eq [of s] by (metis prefixI)

definition is_slug :: "string \<Rightarrow> bool" where "is_slug s = (spaced False s \<and> \<not> ends_us s)"

lemma slug_with_is_slug: "is_slug (slug_with s sp)"
  unfolding is_slug_def slug_with_def
  by (rule trim_us_end_spaced, rule slug_loop_spaced) simp_all

lemma truncate_is_slug: "is_slug s \<Longrightarrow> is_slug (truncate_slug s n)"
proof -
  assume "is_slug s"
  then have "spaced False (take n s @ drop n s)" by (simp add: is_slug_def)
  then have "spaced False (take n s)" by (simp only: spaced_append)
  then show ?thesis unfolding is_slug_def truncate_slug_def by (rule trim_us_end_spaced)
qed

lemma length_truncate: "length (truncate_slug s n) \<le> n"
  unfolding truncate_slug_def using trim_us_end_length [of "take n s"] by simp

lemma slug_loop_fix:
  "spaced (after_text False out) s \<Longrightarrow> slug_loop sp prev out s = out @ s"
proof (induction s arbitrary: prev out)
  case (Cons c cs)
  have at: "after_text False (out @ [c]) = (c \<noteq> us)" for c
    by (simp add: after_text_last ends_us_def)
  show ?case
  proof (cases "c = us")
    case True
    then show ?thesis using Cons at [of us] by (auto simp: after_text_last)
  next
    case False
    with Cons.prems slug_char_fix [of c] Cons.IH [of "out @ [c]" "Some c"] at [of c]
    show ?thesis by (auto simp: Let_def)
  qed
qed simp

lemma slug_with_fix: "is_slug s \<Longrightarrow> slug_with s sp = s"
  by (simp add: slug_with_def slug_loop_fix is_slug_def trim_us_end_id)

text \<open>
  A slug is what the contract says: lower-case letters and digits in words separated by
  single underscores, with none at either end; and it is canonical, so slugging a slug, with or
  without the camel-case split, changes nothing.
\<close>

theorem slug_canonical:
  "is_slug (slug_with s sp) \<and> list_all safe_char (slug_with s sp) \<and>
   slug_with (slug_with s sp) sp' = slug_with s sp"
  using slug_with_is_slug [of s sp] slug_with_fix [OF slug_with_is_slug] spaced_safe
  by (auto simp: is_slug_def list_all_iff)

section \<open>Names are provider-safe\<close>

lemma spaced_word: "\<forall>c \<in> set w. slug_char c \<Longrightarrow> spaced b w"
  by (induction w arbitrary: b) (auto dest: slug_char_fix)

lemma word_no_us: "\<forall>c \<in> set w. slug_char c \<Longrightarrow> \<not> ends_us w"
  unfolding ends_us_def using last_in_set slug_char_fix by metis

lemma join_words_slug:
  "\<forall>w \<in> set ws. w \<noteq> [] \<and> (\<forall>c \<in> set w. slug_char c) \<Longrightarrow> is_slug (join [us] ws)"
proof (induction "[us]" ws rule: join.induct)
  case (2 w)
  then show ?case by (simp add: is_slug_def spaced_word word_no_us)
next
  case (3 w v ws)
  have "join [us] (v # ws) \<noteq> []" using 3(2) by (cases ws) auto
  moreover have "after_text False w" using 3(2) word_no_us by (simp add: after_text_last)
  moreover have "hd (join [us] (v # ws)) \<noteq> us \<and> spaced False (join [us] (v # ws))"
    using 3 slug_char_fix by (cases ws; cases v) (auto simp: is_slug_def)
  ultimately show ?case
    using 3 by (auto simp: is_slug_def spaced_append spaced_word ends_us_def)
qed (simp add: is_slug_def ends_us_def)

lemma set_split_on: "x \<in> set (split_on p s) \<Longrightarrow> set x \<subseteq> set s"
proof (induction s arbitrary: x)
  case (Cons y ys)
  obtain z zs where sp: "split_on p ys = z # zs"
    using split_on_nonempty by (metis list.exhaust)
  show ?case using Cons.prems Cons.IH [of x] Cons.IH [of z] by (auto simp: sp split: if_splits)
qed auto

lemma safe_of_slug: "is_slug s \<Longrightarrow> list_all safe_char s"
  by (auto simp: is_slug_def list_all_iff dest: spaced_safe)

lemma server_slug_props: "is_slug (server_slug l) \<and> server_slug l \<noteq> [] \<and> length (server_slug l) \<le> 24"
proof -
  define base where "base = slug_with (dropWhile (\<lambda>c. c = CHR ''@'') (last_segment l)) False"
  define ws where "ws = filter (\<lambda>w. w \<noteq> []) (split_on (\<lambda>c. c = us) base)"
  define chosen where "chosen = (let m = filter (\<lambda>w. w \<notin> set noise_words) ws in if m = [] then ws else m)"
  have "w \<noteq> [] \<and> (\<forall>c \<in> set w. slug_char c)" if "w \<in> set chosen" for w
  proof -
    have w: "w \<in> set (split_on (\<lambda>c. c = us) base)" "w \<noteq> []"
      using that by (auto simp: chosen_def ws_def Let_def split: if_splits)
    have "safe_char c" if "c \<in> set w" for c
      using that set_split_on [OF w(1)] safe_of_slug [OF slug_with_is_slug]
      by (auto simp: list_all_iff base_def)
    then show ?thesis using w split_on_no_sep [OF w(1)] by (auto simp: safe_char_def)
  qed
  then have "is_slug (join [us] chosen)" by (intro join_words_slug) blast
  then have "is_slug (truncate_slug (join [us] chosen) 24)" by (rule truncate_is_slug)
  moreover have "is_slug ''server''"
    by (simp add: is_slug_def ends_us_def us_def slug_char_def is_lower_def is_digit_def byte_def)
  moreover have "server_slug l = non_empty (truncate_slug (join [us] chosen) 24) ''server''"
    unfolding server_slug_def Let_def base_def ws_def chosen_def max_server_slug_len_def non_empty_def ..
  ultimately show ?thesis
    using length_truncate [of "join [us] chosen" 24] by (simp add: non_empty_def)
qed

lemma hex_digit_slug: "n < 16 \<Longrightarrow> slug_char (hex_digit n)"
proof -
  assume "n < 16"
  then have "hex_digit n \<in> set ''0123456789abcdef''" unfolding hex_digit_def by (intro nth_mem) simp
  then show ?thesis by (auto simp: slug_char_def is_lower_def is_digit_def byte_def)
qed

lemma hex_props: "\<forall>c \<in> set (hex b). slug_char c" "length (hex b) = 2 * length b"
proof -
  have "byte c div 16 < 16" for c using byte_less [of c] by linarith
  then show "\<forall>c \<in> set (hex b). slug_char c" by (auto simp: hex_def intro: hex_digit_slug)
  show "length (hex b) = 2 * length b" by (induction b) (simp_all add: hex_def)
qed

lemma tool_part_props: "is_slug (non_empty (slug t) ''tool'') \<and> non_empty (slug t) ''tool'' \<noteq> []"
proof -
  have "is_slug ''tool''"
    by (simp add: is_slug_def ends_us_def us_def slug_char_def is_lower_def is_digit_def byte_def)
  then show ?thesis by (simp add: non_empty_def slug_def slug_with_is_slug)
qed

lemma prefix_safe: "list_all safe_char tool_name_prefix"
  by (simp add: tool_name_prefix_def safe_char_def slug_char_def is_lower_def is_digit_def byte_def us_def)

lemma with_suffix_props:
  assumes "is_slug server" "length server \<le> 24" "is_slug tool" "length sfx = 6" "\<forall>c \<in> set sfx. slug_char c"
  shows "length (with_suffix server tool sfx) \<le> 64" "list_all safe_char (with_suffix server tool sfx)"
    "prefix tool_name_prefix (with_suffix server tool sfx)"
    "drop (length (with_suffix server tool sfx) - 6) (with_suffix server tool sfx) = sfx"
proof -
  define room where "room = max_tool_name_len - (length tool_name_prefix + length server + 1 + 1 + length sfx)"
  define t where "t = non_empty (truncate_slug tool room) ''tool''"
  have w: "with_suffix server tool sfx = tool_name_prefix @ server @ [us] @ t @ [us] @ sfx"
    by (simp add: with_suffix_def room_def t_def)
  have room: "room = 52 - length server" using assms(4)
    by (simp add: room_def max_tool_name_len_def tool_name_prefix_def)
  have "length t \<le> room" using assms(2) room length_truncate [of tool room]
    by (auto simp: t_def non_empty_def)
  then show "length (with_suffix server tool sfx) \<le> 64"
    using assms(2,4) room by (simp add: w tool_name_prefix_def)
  have "is_slug ''tool''"
    by (simp add: is_slug_def ends_us_def us_def slug_char_def is_lower_def is_digit_def byte_def)
  then have "is_slug t" using truncate_is_slug [OF assms(3)] by (simp add: t_def non_empty_def)
  then show "list_all safe_char (with_suffix server tool sfx)"
    using safe_of_slug [of t] safe_of_slug [OF assms(1)] assms(5) prefix_safe
    by (auto simp: w list_all_iff safe_char_def)
  show "prefix tool_name_prefix (with_suffix server tool sfx)" by (simp add: w)
  show "drop (length (with_suffix server tool sfx) - 6) (with_suffix server tool sfx) = sfx"
    using assms(4) by (simp add: w)
qed

lemma digest_props:
  assumes "\<forall>m. length (sha m) = 32"
  shows "length (digest sha ps) = 6" "\<forall>c \<in> set (digest sha ps). slug_char c"
  using assms hex_props(1) by (auto simp: digest_def hex_props suffix_hex_len_def dest: in_set_takeD)

text \<open>
  C37. Every name of either scheme is accepted by every provider and recognisable: at most 64
  bytes, only \<open>[a-z0-9_]\<close>, and prefixed \<open>mcp_\<close>, whatever the server and the tool are called.
\<close>

theorem names_provider_safe:
  assumes "\<forall>m. length (sha m) = 32"
  shows "length (tool_name_for sha label tool) \<le> 64 \<and> list_all safe_char (tool_name_for sha label tool) \<and>
    prefix tool_name_prefix (tool_name_for sha label tool) \<and>
    length (disambiguated_tool_name sha sid label tool) \<le> 64 \<and>
    list_all safe_char (disambiguated_tool_name sha sid label tool) \<and>
    prefix tool_name_prefix (disambiguated_tool_name sha sid label tool)"
proof -
  note S = server_slug_props [of label] and T = tool_part_props [of tool]
  have d: "length (digest sha ps) = 6" "\<forall>c \<in> set (digest sha ps). slug_char c" for ps
    using digest_props [OF assms] by auto
  note W = with_suffix_props [OF _ _ _ d, of "server_slug label" "non_empty (slug tool) ''tool''"]
  have plain: "list_all safe_char (tool_name_prefix @ server_slug label @ [us] @ non_empty (slug tool) ''tool'')"
    using S T prefix_safe by (simp add: safe_of_slug safe_char_def)
  show ?thesis
    using S T W plain
    by (auto simp: tool_name_for_def disambiguated_tool_name_def Let_def max_tool_name_len_def)
qed

theorem names_provider_safe_witness:
  "length (tool_name_for (\<lambda>m. replicate 32 CHR ''x'') ''@s/GitHub-MCP'' ''readGoals'') \<le> 64"
  using names_provider_safe [of "\<lambda>m. replicate 32 CHR ''x''"] by simp

text \<open>
  Disambiguated names are only ever shared by accident of the digest: if two registrations,
  of different servers or of different tools of one server, get the same name, then the digests
  of two different messages agree on their first six hex digits. No other registration has a
  say in a name, so adding a server cannot rename a tool.
\<close>

theorem disambiguated_collision:
  assumes "\<forall>m. length (sha m) = 32"
    and "disambiguated_tool_name sha sid label tool = disambiguated_tool_name sha sid' label' tool'"
    and "(sid, tool) \<noteq> (sid', tool')" "nul \<notin> set sid" "nul \<notin> set sid'"
  shows "\<exists>m m'. m \<noteq> m' \<and> take 6 (hex (sha m)) = take 6 (hex (sha m')) \<and>
    m = sid @ [nul] @ tool \<and> m' = sid' @ [nul] @ tool'"
proof -
  have d: "length (digest sha ps) = 6" "\<forall>c \<in> set (digest sha ps). slug_char c" for ps
    using digest_props [OF assms(1)] by auto
  have "drop (length (disambiguated_tool_name sha sid label tool) - 6) (disambiguated_tool_name sha sid label tool) =
      digest sha [sid, tool]" for sid label tool
    unfolding disambiguated_tool_name_def
    using server_slug_props [of label] tool_part_props [of tool] d by (intro with_suffix_props) auto
  then have "digest sha [sid, tool] = digest sha [sid', tool']" using assms(2) by metis
  moreover have "sid @ [nul] @ tool \<noteq> sid' @ [nul] @ tool'"
  proof
    assume "sid @ [nul] @ tool = sid' @ [nul] @ tool'"
    then have "split_once nul (sid @ nul # tool) = split_once nul (sid' @ nul # tool')" by simp
    then show False using assms(3-5) by (simp add: split_once_append)
  qed
  ultimately show ?thesis by (auto simp: digest_def suffix_hex_len_def)
qed

lemma nul_neq: "nul \<noteq> CHR ''a''" "nul \<noteq> CHR ''b''"
proof -
  have "byte nul = 0" "byte CHR ''a'' = 97" "byte CHR ''b'' = 98" by (simp_all add: nul_def byte_def)
  then show "nul \<noteq> CHR ''a''" "nul \<noteq> CHR ''b''" by auto
qed

theorem disambiguated_collision_witness:
  "\<exists>m m'. m \<noteq> m' \<and> take 6 (hex ((\<lambda>x. replicate 32 CHR ''x'') m)) = take 6 (hex ((\<lambda>x. replicate 32 CHR ''x'') m')) \<and>
    m = ''a'' @ [nul] @ ''t'' \<and> m' = ''b'' @ [nul] @ ''t''"
proof (rule disambiguated_collision [where label = "''S''" and label' = "''S''"])
  show "disambiguated_tool_name (\<lambda>x. replicate 32 CHR ''x'') ''a'' ''S'' ''t'' =
      disambiguated_tool_name (\<lambda>x. replicate 32 CHR ''x'') ''b'' ''S'' ''t''"
    by (simp add: disambiguated_tool_name_def digest_def)
qed (use nul_neq in simp_all)

end
