(* ===== verification/Tool_Cache.thy ===== *)
theory Tool_Cache
  imports Store Naming "HOL-Library.Multiset"
begin

text \<open>
  \<open>registry/store/tool_cache.rs\<close>: what each server advertised when it was last listed, kept
  under a keyed fingerprint of the server's definition; and the key itself, which
  \<open>registry/store/types.rs\<close> loads or creates when a store is opened. SHA-256 is the ports'.
\<close>

unbundle bit_operations_syntax

section \<open>Tools as documents\<close>

definition enc_tool :: "mcp_tool \<Rightarrow> json" where
  "enc_tool t = jobject
     ([(''name'', JStr (tool_name t)), (''description'', enc_opt JStr (tool_description t)),
       (''input_schema'', input_schema t)] @ skip_none ''_meta'' id (tool_meta t))"

definition dec_tool :: "json \<Rightarrow> mcp_tool option" where
  "dec_tool j =
     Option.bind (required ''name'' as_str j) (\<lambda>name.
     Option.bind (optional ''description'' as_str j) (\<lambda>descr.
     Option.bind (defaulted ''input_schema'' JNull Some j) (\<lambda>schema.
     Option.bind (optional ''_meta'' Some j) (\<lambda>meta.
       Some \<lparr>tool_name = name, tool_description = descr, input_schema = schema, tool_meta = meta\<rparr>))))"

definition dec_tools :: "json \<Rightarrow> mcp_tool list option" where
  "dec_tools j = (case as_array j of None \<Rightarrow> None | Some xs \<Rightarrow> all_some (map dec_tool xs))"

text \<open>A null \<open>_meta\<close> is written and read back as none.\<close>

definition storable :: "mcp_tool \<Rightarrow> bool" where "storable t = (tool_meta t \<noteq> Some JNull)"

lemma dec_enc_tool: "storable t \<Longrightarrow> dec_tool (enc_tool t) = Some t"
proof -
  assume "storable t"
  moreover have "optional k Some j = Some m" if "jget k j = m" "m \<noteq> Some JNull" for k j m
    using that by (auto simp: optional_def split: option.splits json.splits)
  ultimately show ?thesis
    by (cases "tool_meta t"; cases "tool_description t")
      (auto simp: dec_tool_def enc_tool_def storable_def required_def defaulted_def optional_def skip_none_def
        enc_opt_def jget_jobject split: json.splits)
qed

lemma dec_enc_tools: "list_all storable ts \<Longrightarrow> dec_tools (JArr (map enc_tool ts)) = Some ts"
proof -
  assume "list_all storable ts"
  then have "map dec_tool (map enc_tool ts) = map (\<lambda>t. Some (id t)) ts"
    by (auto simp: list_all_iff dec_enc_tool)
  then show ?thesis unfolding dec_tools_def by (simp only: as_array_simps option.case all_some_map_Some) simp
qed

section \<open>Fingerprints\<close>

definition static_key_prefix :: string where "static_key_prefix = ''static:''"

definition static_cache_key :: "string \<Rightarrow> string" where
  "static_cache_key name = static_key_prefix @ trim name"

text \<open>The eight little-endian bytes of a length.\<close>

fun le_bytes :: "nat \<Rightarrow> nat \<Rightarrow> string" where
  "le_bytes 0 n = []"
| "le_bytes (Suc k) n = char_of (n mod 256) # le_bytes k (n div 256)"

definition digest_input :: "string list \<Rightarrow> string" where
  "digest_input parts = concat (map (\<lambda>part. le_bytes 8 (length part mod 2 ^ 64) @ part) parts)"

definition fingerprint :: "(string \<Rightarrow> string) \<Rightarrow> string list \<Rightarrow> string" where
  "fingerprint sha parts = hex (sha (digest_input parts))"

definition definition_parts :: "installed_server \<Rightarrow> string list" where
  "definition_parts server =
     [dispatch_kind (dial server), (case deployment_url (dial server) of None \<Rightarrow> [] | Some u \<Rightarrow> u),
      command_kind_str (launch_kind server), launch_command server,
      join [CHR 0x00] (launch_args server), join [CHR 0x00] (sort (env_keys server))]"

definition installed_fingerprint :: "(string \<Rightarrow> string) \<Rightarrow> installed_server \<Rightarrow> string" where
  "installed_fingerprint sha server = fingerprint sha (definition_parts server)"

definition xor_byte :: "char \<Rightarrow> char \<Rightarrow> char" where
  "xor_byte a b = char_of (of_char a XOR of_char b :: nat)"

definition block_bytes :: nat where "block_bytes = 64"

definition keyed_pad :: "char \<Rightarrow> string \<Rightarrow> string" where
  "keyed_pad pad fkey = map (\<lambda>k. xor_byte pad k) fkey @ replicate (block_bytes - length fkey) pad"

definition keyed_fingerprint :: "(string \<Rightarrow> string) \<Rightarrow> string \<Rightarrow> string \<Rightarrow> string" where
  "keyed_fingerprint sha fkey val =
     hex (sha (keyed_pad (CHR 0x5C) fkey @ sha (keyed_pad (CHR 0x36) fkey @ val)))"

section \<open>The key\<close>

definition key_bytes :: nat where "key_bytes = 32"

definition cache_key_secret :: string where "cache_key_secret = ''mcp_cache_fingerprint_key''"

text \<open>\<open>u8::from_str_radix\<close> on two bytes: a plus sign may stand before the digits.\<close>

definition hex_value :: "char \<Rightarrow> nat option" where
  "hex_value c = (if is_digit c then Some (byte c - 48)
     else if 97 \<le> byte c \<and> byte c \<le> 102 then Some (byte c - 87)
     else if 65 \<le> byte c \<and> byte c \<le> 70 then Some (byte c - 55) else None)"

definition hex_pair :: "char \<Rightarrow> char \<Rightarrow> char option" where
  "hex_pair a b = (if a = CHR ''+'' then map_option char_of (hex_value b)
     else case (hex_value a, hex_value b) of (Some x, Some y) \<Rightarrow> Some (char_of (16 * x + y)) | _ \<Rightarrow> None)"

fun hex_pairs :: "string \<Rightarrow> string option" where
  "hex_pairs (a # b # s) = (case hex_pair a b of None \<Rightarrow> None | Some c \<Rightarrow> map_option ((#) c) (hex_pairs s))"
| "hex_pairs _ = Some []"

definition decode_hex_key :: "string \<Rightarrow> string option" where
  "decode_hex_key text = (if length text \<noteq> key_bytes * 2 \<or> list_ex (\<lambda>c. 128 \<le> byte c) text then None
     else hex_pairs text)"

text \<open>The candidate is made before the store is asked; whatever the secret holds afterwards is the
  key.\<close>

definition load_cache_fingerprint_key :: "'s storage_ports \<Rightarrow> string \<Rightarrow> 's \<Rightarrow> 's \<times> (error + string)" where
  "load_cache_fingerprint_key P fresh_key s =
     (let candidate = hex fresh_key in
      sbind (at_port ''loading the cache key''
          (sbind (sp_secret_get P cache_key_secret s) (\<lambda>found s. case found of
             Some bytes \<Rightarrow> (s, Inr bytes)
           | None \<Rightarrow> sbind (sp_secret_set P cache_key_secret candidate s) (\<lambda>_ s.
               sbind (sp_secret_get P cache_key_secret s) (\<lambda>now s.
                 (s, Inr (case now of None \<Rightarrow> candidate | Some bytes \<Rightarrow> bytes))))))) (\<lambda>stored s.
        (s, ok_or (Store_Failure ''loading the cache key''
                     \<lparr>rendered = ''the stored cache fingerprint key is malformed'', source_timeout = False\<rparr>)
                  (decode_hex_key stored))))"

section \<open>The cache\<close>

record cached_listing =
  ct_tools :: "mcp_tool list"
  ct_at :: int

definition tool_cache_doc :: "string \<Rightarrow> string \<Rightarrow> mcp_tool list \<Rightarrow> int \<Rightarrow> json" where
  "tool_cache_doc server_key fp tools at = jobject
     [(''server_key'', JStr server_key), (''fingerprint'', JStr fp),
      (''tools'', JArr (map enc_tool tools)), (''cached_ms'', JInt at)]"

definition dec_tool_cache_doc :: "json \<Rightarrow> (string \<times> string \<times> json \<times> int) option" where
  "dec_tool_cache_doc j =
     Option.bind (required ''server_key'' as_str j) (\<lambda>k.
     Option.bind (required ''fingerprint'' as_str j) (\<lambda>fp.
     Option.bind (required ''tools'' Some j) (\<lambda>tools.
     Option.bind (required ''cached_ms'' as_i64 j) (\<lambda>at. Some (k, fp, tools, at)))))"

definition write_cached_tools :: "'s storage_ports \<Rightarrow> string \<Rightarrow> string \<Rightarrow> string \<Rightarrow> mcp_tool list \<Rightarrow> int \<Rightarrow> 's \<Rightarrow>
    's \<times> (error + unit)" where
  "write_cached_tools P fkey server_key fp tools at s =
     sbind (s, key P [server_key]) (\<lambda>i s.
     sbind (at_port ''writing the tool cache''
         (sp_put P tool_cache_coll i (tool_cache_doc server_key (keyed_fingerprint (sp_sha256 P) fkey fp) tools at)
            AnyVersion s)) (\<lambda>_ s. (s, Inr ())))"

definition put_cached_tools :: "'s storage_ports \<Rightarrow> string \<Rightarrow> string \<Rightarrow> string \<Rightarrow> mcp_tool list \<Rightarrow> 's \<Rightarrow>
    's \<times> (error + unit)" where
  "put_cached_tools P fkey server_key fp tools s =
     (let (s, now) = sp_now_ms P s in write_cached_tools P fkey server_key fp tools now s)"

definition cached_tools :: "'s storage_ports \<Rightarrow> string \<Rightarrow> string \<Rightarrow> string \<Rightarrow> 's \<Rightarrow>
    's \<times> (error + cached_listing option)" where
  "cached_tools P fkey server_key fp s =
     sbind (s, key P [server_key]) (\<lambda>i s.
     sbind (at_port ''reading the tool cache'' (sp_get P tool_cache_coll i s)) (\<lambda>found s.
       (s, case found of None \<Rightarrow> Inr None
           | Some v \<Rightarrow>
               rbind (ok_or (Serialization (sp_shape_error P (v_doc v))) (dec_tool_cache_doc (v_doc v)))
                 (\<lambda>(_, row_fp, tools, at).
                    if row_fp \<noteq> keyed_fingerprint (sp_sha256 P) fkey fp then Inr None
                    else rbind (ok_or (Serialization (sp_shape_error P tools)) (dec_tools tools))
                           (\<lambda>ts. Inr (Some \<lparr>ct_tools = ts, ct_at = at\<rparr>))))))"

definition forget_cached_tools :: "'s storage_ports \<Rightarrow> string \<Rightarrow> 's \<Rightarrow> 's \<times> (error + bool)" where
  "forget_cached_tools P server_key s =
     sbind (s, key P [server_key]) (\<lambda>i s.
       at_port ''forgetting cached tools'' (sp_delete P tool_cache_coll i AnyVersion s))"

section \<open>Fingerprints tell definitions apart\<close>

lemma hex_value_digit: "n < 16 \<Longrightarrow> hex_value (hex_digit n) = Some n"
proof -
  have "list_all (\<lambda>n. hex_value (hex_digit n) = Some n) [0..<16]" by code_simp
  then show "n < 16 \<Longrightarrow> ?thesis" by (simp add: list_all_iff)
qed

lemma hex_digit_plus: "n < 16 \<Longrightarrow> hex_digit n \<noteq> CHR ''+'' \<and> byte (hex_digit n) < 128"
proof -
  have "list_all (\<lambda>n. hex_digit n \<noteq> CHR ''+'' \<and> byte (hex_digit n) < 128) [0..<16]" by code_simp
  then show "n < 16 \<Longrightarrow> ?thesis" by (simp add: list_all_iff)
qed

lemma hex_Cons: "hex (c # s) = hex_digit (byte c div 16) # hex_digit (byte c mod 16) # hex s"
  by (simp add: hex_def)

lemma hex_pairs_hex: "hex_pairs (hex s) = Some s"
proof (induction s)
  case (Cons c s)
  have "byte c div 16 < 16" "byte c mod 16 < 16" using byte_less [of c] by (simp_all add: less_mult_imp_div_less)
  then have "hex_pair (hex_digit (byte c div 16)) (hex_digit (byte c mod 16)) = Some c"
    by (simp add: hex_pair_def hex_value_digit hex_digit_plus byte_def)
  with Cons show ?case by (simp add: hex_Cons)
qed (simp add: hex_def)

lemma hex_inject [simp]: "hex a = hex b \<longleftrightarrow> a = b"
  by (metis hex_pairs_hex option.inject)

lemma decode_hex_key_hex: "length k = key_bytes \<Longrightarrow> decode_hex_key (hex k) = Some k"
proof -
  have len: "length (hex k) = length k * 2" by (induction k) (simp_all add: hex_Cons, simp add: hex_def)
  have "\<not> list_ex (\<lambda>c. 128 \<le> byte c) (hex k)"
  proof (induction k)
    case (Cons c k)
    have "byte c div 16 < 16" "byte c mod 16 < 16" using byte_less [of c] by (simp_all add: less_mult_imp_div_less)
    with Cons show ?case by (simp add: hex_Cons hex_digit_plus not_le)
  qed (simp add: hex_def)
  with len show "length k = key_bytes \<Longrightarrow> ?thesis" by (simp add: decode_hex_key_def hex_pairs_hex)
qed

lemma keyed_inject: "inj sha \<Longrightarrow> keyed_fingerprint sha fkey a = keyed_fingerprint sha fkey b \<longleftrightarrow> a = b"
  by (auto simp: keyed_fingerprint_def inj_eq)

lemma length_le_bytes [simp]: "length (le_bytes k n) = k"
  by (induction k n rule: le_bytes.induct) simp_all

lemma le_bytes_inject: "m < 256 ^ k \<Longrightarrow> n < 256 ^ k \<Longrightarrow> le_bytes k m = le_bytes k n \<Longrightarrow> m = n"
proof (induction k arbitrary: m n)
  case (Suc k)
  have "m div 256 < 256 ^ k" "n div 256 < 256 ^ k"
    using Suc.prems(1,2) by (simp_all add: less_mult_imp_div_less mult.commute)
  with Suc have "m div 256 = n div 256" by simp
  moreover have "of_char (char_of (m mod 256) :: char) = (of_char (char_of (n mod 256) :: char) :: nat)"
    using Suc.prems(3) by simp
  then have "m mod 256 = n mod 256" by simp
  ultimately show ?case by (metis div_mult_mod_eq)
qed simp

definition short_part :: "string \<Rightarrow> bool" where "short_part p = (length p < 2 ^ 64)"

lemma digest_input_inject:
  "list_all short_part ps \<Longrightarrow> list_all short_part qs \<Longrightarrow> digest_input ps = digest_input qs \<Longrightarrow> ps = qs"
proof (induction ps arbitrary: qs)
  case Nil
  then show ?case by (cases qs) (auto simp: digest_input_def dest: arg_cong [where f = length])
next
  case (Cons p ps)
  then obtain q qs' where qs: "qs = q # qs'"
    by (cases qs) (auto simp: digest_input_def dest: arg_cong [where f = length])
  have len: "length p < 2 ^ 64" "length q < 2 ^ 64" using Cons.prems by (simp_all add: qs short_part_def)
  from Cons.prems(3) have eq: "le_bytes 8 (length p) @ p @ digest_input ps = le_bytes 8 (length q) @ q @ digest_input qs'"
    using len by (simp add: digest_input_def qs)
  then have "le_bytes 8 (length p) = le_bytes 8 (length q)" by (simp add: append_eq_append_conv)
  then have "length p = length q" using le_bytes_inject [of "length p" 8 "length q"] len by simp
  with eq have "p = q" "digest_input ps = digest_input qs'" by (simp_all add: append_eq_append_conv)
  with Cons qs show ?case by simp
qed

text \<open>The arguments and the keys are joined by NUL bytes, so they are told apart as long as none is
  empty or holds one.\<close>

definition nul_free :: "string list \<Rightarrow> bool" where
  "nul_free xs = list_all (\<lambda>x. x \<noteq> [] \<and> CHR 0x00 \<notin> set x) xs"

lemma join_inject: "nul_free xs \<Longrightarrow> nul_free ys \<Longrightarrow> join [CHR 0x00] xs = join [CHR 0x00] ys \<Longrightarrow> xs = ys"
proof -
  assume free: "nul_free xs" "nul_free ys" and eq: "join [CHR 0x00] xs = join [CHR 0x00] ys"
  have nonempty: "join [CHR 0x00] (z # zs) \<noteq> []" if "z \<noteq> []" for z zs
    using that by (cases zs) simp_all
  have empty: "zs = []" if "nul_free zs" "join [CHR 0x00] zs = []" for zs
  proof (cases zs)
    case (Cons z zs')
    with that nonempty [of z zs'] show ?thesis by (simp add: nul_free_def)
  qed
  have splits: "split_on (\<lambda>c. c = CHR 0x00) (join [CHR 0x00] zs) = zs" if "nul_free zs" "zs \<noteq> []" for zs
    using that by (intro split_join) (simp_all add: nul_free_def list_all_iff)
  show ?thesis
  proof (cases "xs = []")
    case True
    then have "join [CHR 0x00] ys = []" using eq by simp
    then show ?thesis using empty [OF free(2)] True by blast
  next
    case False
    then have "ys \<noteq> []" using eq empty [OF free(1)] by (metis join.simps(1))
    with splits [OF free(1) False] splits [OF free(2)] eq show ?thesis by metis
  qed
qed

definition same_definition :: "installed_server \<Rightarrow> installed_server \<Rightarrow> bool" where
  "same_definition a b \<longleftrightarrow> dial a = dial b \<and> launch_kind a = launch_kind b \<and>
     launch_command a = launch_command b \<and> launch_args a = launch_args b \<and> mset (env_keys a) = mset (env_keys b)"

definition tidy_definition :: "installed_server \<Rightarrow> bool" where
  "tidy_definition a \<longleftrightarrow> nul_free (launch_args a) \<and> nul_free (env_keys a) \<and> list_all short_part (definition_parts a)"

lemma definition_parts_eq:
  assumes "tidy_definition a" "tidy_definition b"
  shows "definition_parts a = definition_parts b \<longleftrightarrow> same_definition a b"
proof -
  have sorted: "nul_free (sort xs) = nul_free xs" for xs by (simp add: nul_free_def list_all_iff)
  have dials: "dispatch_kind s = dispatch_kind t \<and>
      (case deployment_url s of None \<Rightarrow> [] | Some u \<Rightarrow> u) = (case deployment_url t of None \<Rightarrow> [] | Some u \<Rightarrow> u) \<longleftrightarrow> s = t" for s t
    by (cases s; cases t) auto
  have kinds: "command_kind_str k = command_kind_str l \<longleftrightarrow> k = l" for k l by (cases k; cases l) auto
  have joins: "join [CHR 0x00] xs = join [CHR 0x00] ys \<longleftrightarrow> xs = ys" if "nul_free xs" "nul_free ys" for xs ys
    using join_inject that by blast
  have sorts: "sort xs = sort ys \<longleftrightarrow> mset xs = mset ys" for xs ys :: "string list"
    by (metis mset_sort properties_for_sort sorted_sort)
  show ?thesis
    using assms dials [of "dial a" "dial b"]
    by (simp add: definition_parts_def same_definition_def tidy_definition_def joins sorted sorts kinds) blast
qed

lemma installed_fingerprint_eq:
  assumes "inj sha" "tidy_definition a" "tidy_definition b"
  shows "installed_fingerprint sha a = installed_fingerprint sha b \<longleftrightarrow> same_definition a b"
proof -
  have "digest_input (definition_parts a) = digest_input (definition_parts b) \<longleftrightarrow> definition_parts a = definition_parts b"
    using assms(2,3) digest_input_inject by (auto simp: tidy_definition_def)
  then show ?thesis
    by (simp add: installed_fingerprint_def fingerprint_def inj_eq [OF assms(1)] definition_parts_eq [OF assms(2,3)])
qed

section \<open>What a read can return\<close>

lemma put_cached_tools_Inr:
  assumes "lawful_ports P docs vtop" "put_cached_tools P fkey server_key fp tools s = (s1, Inr ())"
  obtains i n at where "key P [server_key] = Inr i" "at = snd (sp_now_ms P s)"
    "docs s1 tool_cache_coll i = Some \<lparr>v_doc =
       tool_cache_doc server_key (keyed_fingerprint (sp_sha256 P) fkey fp) tools at, v_version = n\<rparr>"
proof -
  obtain s0 at where now: "sp_now_ms P s = (s0, at)" by fastforce
  from assms(2) obtain i n where k: "key P [server_key] = Inr i"
    and put: "sp_put P tool_cache_coll i (tool_cache_doc server_key (keyed_fingerprint (sp_sha256 P) fkey fp) tools at)
      AnyVersion s0 = (s1, Inr n)"
    by (auto simp: put_cached_tools_def write_cached_tools_def now sbind_eq_Inr)
  from that k now lawful_put_doc [OF assms(1) put] show thesis by simp
qed

lemma dec_tool_cache_doc_written:
  "dec_tool_cache_doc (tool_cache_doc k fp tools at) =
     map_option (\<lambda>at. (k, fp, JArr (map enc_tool tools), at)) (as_i64 (JInt at))"
  by (simp add: dec_tool_cache_doc_def tool_cache_doc_def required_def jget_jobject as_i64_def)


definition sample_listed :: "string \<Rightarrow> installed_server" where
  "sample_listed cmd = \<lparr>server_id = ''a'', qualified_name = ''q'', display_name = ''d'', description = None,
     icon_url = None, launch_kind = Node, launch_command = cmd, launch_args = [''x''], env_keys = [''K'', ''B''],
     install_config = None, installed_at = 0, last_connected_at = None, dial = Stdio, enabled = True\<rparr>"

definition empty_mem :: mem where
  "empty_mem = \<lparr>mem_secrets = (\<lambda>_. None), mem_rows = (\<lambda>_. []), mem_next = 0, mem_now = 7\<rparr>"


section \<open>The key is kept\<close>

text \<open>What a read of a secret promises, beside the laws of its writes.\<close>

definition secret_reads :: "'s storage_ports \<Rightarrow> ('s \<Rightarrow> string \<Rightarrow> string option) \<Rightarrow> bool" where
  "secret_reads P secrets \<longleftrightarrow> (\<forall>s n s' r. sp_secret_get P n s = (s', r) \<longrightarrow> secrets s' = secrets s \<and>
     (\<forall>x. r = Inr x \<longrightarrow> x = secrets s n))"

lemma secret_readsD:
  assumes "secret_reads P secrets" "sp_secret_get P n s = (s', r)"
  shows "secrets s' = secrets s" "r = Inr x \<Longrightarrow> x = secrets s n"
  using assms by (auto simp: secret_reads_def)

lemma loaded_key_is_stored:
  assumes "lawful_secrets P docs secrets" "secret_reads P secrets"
    and "load_cache_fingerprint_key P fresh_key s = (s', Inr k)"
  shows "\<exists>x. secrets s' cache_key_secret = Some x \<and> decode_hex_key x = Some k \<and>
    (secrets s cache_key_secret = Some x \<or> secrets s cache_key_secret = None \<and> x = hex fresh_key)"
proof -
  obtain s1 r1 where get: "sp_secret_get P cache_key_secret s = (s1, r1)" by fastforce
  from assms(3) obtain found where r1: "r1 = Inr found"
    by (cases r1) (auto simp: load_cache_fingerprint_key_def Let_def get)
  have s1: "secrets s1 = secrets s" and found: "found = secrets s cache_key_secret"
    using secret_readsD [OF assms(2) get] r1 by auto
  show ?thesis
  proof (cases found)
    case (Some stored)
    then have "s' = s1" "decode_hex_key stored = Some k"
      using assms(3) by (auto simp: load_cache_fingerprint_key_def Let_def get r1)
    with Some found s1 show ?thesis by auto
  next
    case None
    obtain s2 r2 where put: "sp_secret_set P cache_key_secret (hex fresh_key) s1 = (s2, r2)" by fastforce
    obtain s3 r3 where again: "sp_secret_get P cache_key_secret s2 = (s3, r3)" by fastforce
    from assms(3) None obtain u now where r: "r2 = Inr u" "r3 = Inr now"
      by (cases r2; cases r3) (auto simp: load_cache_fingerprint_key_def Let_def get r1 put again)
    have "secrets s2 = (secrets s1)(cache_key_secret \<mapsto> hex fresh_key)"
      using assms(1) put r(1) by (auto simp: lawful_secrets_def split: sum.splits)
    moreover have "secrets s3 = secrets s2" "now = secrets s2 cache_key_secret"
      using secret_readsD [OF assms(2) again] r(2) by auto
    ultimately have "s' = s3 \<and> decode_hex_key (hex fresh_key) = Some k \<and> secrets s3 cache_key_secret = Some (hex fresh_key)"
      using assms(3) None by (auto simp: load_cache_fingerprint_key_def Let_def get r1 put again r)
    with None found show ?thesis by auto
  qed
qed

text \<open>
  Once a store has been opened, every later opening finds the same key, so tool lists written
  through one are readable through the other; a store opened for the first time uses the fresh
  key it was given.
\<close>

theorem cache_key_kept:
  assumes "lawful_secrets P docs secrets" "secret_reads P secrets"
    and "load_cache_fingerprint_key P fresh_key s = (s1, Inr k)"
    and "secrets s2 cache_key_secret = secrets s1 cache_key_secret"
    and "load_cache_fingerprint_key P other_key s2 = (s3, Inr k')"
  shows "k' = k \<and> (secrets s cache_key_secret = None \<and> length fresh_key = key_bytes \<longrightarrow> k = fresh_key)"
  using loaded_key_is_stored [OF assms(1,2,3)] loaded_key_is_stored [OF assms(1,2,5)] assms(4)
  by (auto simp: decode_hex_key_hex)

end
