(* ===== verification/Setup_Vault.thy ===== *)
theory Setup_Vault
  imports Errors
begin

text \<open>
  \<open>registry/setup/types.rs\<close>: the handles a guided setup hands to a model in place of
  credentials, and the vault that holds what the user answered. Instants are milliseconds of a
  monotonic clock; the identifiers handles are minted from are an argument.
\<close>

section \<open>Handles\<close>

definition request_timeout_ms :: nat where "request_timeout_ms = 300 * 1000"
definition idle_ttl_ms :: nat where "idle_ttl_ms = 900 * 1000"
definition secret_scheme :: string where "secret_scheme = ''secret://''"
definition handle_length :: nat where "handle_length = 12"

datatype secret_ref = SecretRef (handle_str: string)

definition strip_scheme :: "string \<Rightarrow> string" where
  "strip_scheme s = (case strip_prefix secret_scheme s of None \<Rightarrow> s | Some r \<Rightarrow> r)"

definition parse_ref :: "string \<Rightarrow> secret_ref option" where
  "parse_ref raw =
     (let h = trim (strip_scheme (trim raw))
      in if h = [] \<or> \<not> list_all is_hex h then None else Some (SecretRef (secret_scheme @ h)))"

definition mint :: "string \<Rightarrow> secret_ref" where
  "mint raw = SecretRef (secret_scheme @ (if length raw < handle_length then raw else take handle_length raw))"

section \<open>The vault\<close>

record secret_entry =
  se_key_name :: string
  se_value :: "string option"
  se_touched :: nat
  se_waiting :: bool

type_synonym vault = "secret_ref \<rightharpoonup> secret_entry"

definition vault_new :: vault where "vault_new = Map.empty"

definition request_secret :: "string \<Rightarrow> string \<Rightarrow> nat \<Rightarrow> vault \<Rightarrow> vault \<times> secret_ref" where
  "request_secret raw key_name now v =
     (v(mint raw \<mapsto> \<lparr>se_key_name = key_name, se_value = None, se_touched = now, se_waiting = True\<rparr>), mint raw)"

definition submit :: "secret_ref \<Rightarrow> string \<Rightarrow> nat \<Rightarrow> vault \<Rightarrow> vault \<times> bool" where
  "submit h x now v = (case v h of
     None \<Rightarrow> (v, False)
   | Some e \<Rightarrow> if se_value e \<noteq> None then (v, False)
       else (v(h \<mapsto> e\<lparr>se_value := Some x, se_touched := now, se_waiting := False\<rparr>), True))"

definition forget :: "secret_ref \<Rightarrow> vault \<Rightarrow> vault \<times> bool" where
  "forget h v = (v(h := None), v h \<noteq> None)"

text \<open>How the wait on a handle ended.\<close>

datatype wait_outcome = Answered | Cancelled | Unanswered

definition await_fulfillment :: "secret_ref \<Rightarrow> wait_outcome \<Rightarrow> vault \<Rightarrow> vault \<times> (error + unit)" where
  "await_fulfillment h outcome v = (case outcome of
     Answered \<Rightarrow> (v, Inr ())
   | Cancelled \<Rightarrow> (fst (forget h v),
       Inl (MalformedResponse (''the request for '' @ handle_str h @ '' was cancelled before the user answered'')))
   | Unanswered \<Rightarrow> (fst (forget h v),
       Inl (MalformedResponse (''the request for '' @ handle_str h @ '' went unanswered for 300 seconds''))))"

text \<open>The map of handles is walked in its own order, the order of the list.\<close>

fun resolve_locked :: "nat \<Rightarrow> (string \<times> secret_ref) list \<Rightarrow> vault \<Rightarrow> vault \<times> (error + (string \<times> string) list)" where
  "resolve_locked now [] v = (v, Inr [])"
| "resolve_locked now ((key_name, h) # hs) v = (case v h of
     None \<Rightarrow> (v, Inl (MalformedResponse (''no such secret handle: '' @ handle_str h)))
   | Some e \<Rightarrow> (case se_value e of
       None \<Rightarrow> (v, Inl (MalformedResponse (''the secret handle '' @ handle_str h @ '' has not been answered yet'')))
     | Some x \<Rightarrow>
         (case resolve_locked now hs (v(h \<mapsto> e\<lparr>se_touched := now\<rparr>)) of
            (v, Inl err) \<Rightarrow> (v, Inl err)
          | (v, Inr rest) \<Rightarrow> (v, Inr ((key_name, x) # rest)))))"

definition resolve :: "nat \<Rightarrow> (string \<times> secret_ref) list \<Rightarrow> vault \<Rightarrow> vault \<times> (error + (string \<times> string) list)" where
  "resolve now hs v = resolve_locked now hs v"

definition consume :: "nat \<Rightarrow> (string \<times> secret_ref) list \<Rightarrow> vault \<Rightarrow> vault \<times> (error + (string \<times> string) list)" where
  "consume now hs v = (case resolve_locked now hs v of
     (v, Inl err) \<Rightarrow> (v, Inl err)
   | (v, Inr resolved) \<Rightarrow> (v |` (- snd ` set hs), Inr resolved))"

definition live_entry :: "nat \<Rightarrow> secret_entry \<Rightarrow> bool" where
  "live_entry now e = (now - se_touched e < idle_ttl_ms)"

definition sweep :: "nat \<Rightarrow> vault \<Rightarrow> vault" where
  "sweep now v = (\<lambda>h. case v h of None \<Rightarrow> None | Some e \<Rightarrow> if live_entry now e then Some e else None)"

definition swept_count :: "nat \<Rightarrow> vault \<Rightarrow> nat" where
  "swept_count now v = card (dom v) - card (dom (sweep now v))"

definition vault_len :: "vault \<Rightarrow> nat" where "vault_len v = card (dom v)"
definition vault_is_empty :: "vault \<Rightarrow> bool" where "vault_is_empty v = (vault_len v = 0)"

definition key_name_of :: "secret_ref \<Rightarrow> vault \<Rightarrow> string option" where
  "key_name_of h v = map_option se_key_name (v h)"

section \<open>Histories\<close>

datatype vault_op =
    Request string string nat
  | Submit secret_ref string nat
  | Await secret_ref wait_outcome
  | Resolve "(string \<times> secret_ref) list" nat
  | Consume "(string \<times> secret_ref) list" nat
  | Forget secret_ref
  | Sweep nat

fun vault_step :: "vault \<Rightarrow> vault_op \<Rightarrow> vault" where
  "vault_step v (Request raw name now) = fst (request_secret raw name now v)"
| "vault_step v (Submit h x now) = fst (submit h x now v)"
| "vault_step v (Await h outcome) = fst (await_fulfillment h outcome v)"
| "vault_step v (Resolve hs now) = fst (resolve now hs v)"
| "vault_step v (Consume hs now) = fst (consume now hs v)"
| "vault_step v (Forget h) = fst (forget h v)"
| "vault_step v (Sweep now) = sweep now v"

section \<open>Resolving\<close>

definition value_at :: "vault \<Rightarrow> secret_ref \<Rightarrow> string option option" where
  "value_at v h = map_option se_value (v h)"

lemma value_at_touch [simp]:
  "v h = Some e \<Longrightarrow> value_at (v(h \<mapsto> e\<lparr>se_touched := now\<rparr>)) = value_at v"
  by (auto simp: value_at_def fun_eq_iff)

lemma resolve_locked_values:
  "resolve_locked now hs v = (v', r) \<Longrightarrow> value_at v' = value_at v \<and>
     (\<forall>rs. r = Inr rs \<longrightarrow> list_all2 (\<lambda>(k, h) (k', x). k' = k \<and> value_at v h = Some (Some x)) hs rs)"
proof (induction now hs v arbitrary: v' r rule: resolve_locked.induct)
  case (2 now k h hs v)
  show ?case
  proof (cases "\<exists>e x. v h = Some e \<and> se_value e = Some x")
    case True
    then obtain e x where e: "v h = Some e" "se_value e = Some x" by blast
    obtain w q where run: "resolve_locked now hs (v(h \<mapsto> e\<lparr>se_touched := now\<rparr>)) = (w, q)" by fastforce
    have ih: "value_at w = value_at v"
      "\<forall>rs. q = Inr rs \<longrightarrow> list_all2 (\<lambda>(k, h) (k', x). k' = k \<and> value_at v h = Some (Some x)) hs rs"
      using 2(1) [OF e run] value_at_touch [of v h e now, OF e(1)] by metis+
    moreover have "value_at v h = Some (Some x)" using e by (simp add: value_at_def)
    ultimately show ?thesis using 2(2) e run by (cases q) auto
  qed (use 2(2) in \<open>auto split: option.splits\<close>)
qed simp

text \<open>
  C35. Consuming is all or nothing. When some handle is unknown or unanswered the call fails and
  every handle keeps its place and its answer; otherwise each name comes back with the answer of
  its handle, exactly the handles named are gone, and the others keep theirs.
\<close>

theorem consume_all_or_nothing:
  "case consume now hs v of
     (v', Inl _) \<Rightarrow> value_at v' = value_at v
   | (v', Inr resolved) \<Rightarrow>
       map fst resolved = map fst hs \<and>
       map (Some \<circ> Some \<circ> snd) resolved = map (value_at v \<circ> snd) hs \<and>
       value_at v' = (\<lambda>h. if h \<in> snd ` set hs then None else value_at v h)"
proof -
  obtain w r where run: "resolve_locked now hs v = (w, r)" by fastforce
  have vals: "value_at w = value_at v"
    and rs: "r = Inr rs \<Longrightarrow> list_all2 (\<lambda>(k, h) (k', x). k' = k \<and> value_at v h = Some (Some x)) hs rs" for rs
    using resolve_locked_values [OF run] by blast+
  have maps: "map fst rs = map fst ks \<and> map (Some \<circ> Some \<circ> snd) rs = map (value_at v \<circ> snd) ks"
    if "list_all2 (\<lambda>(k, h) (k', x). k' = k \<and> value_at v h = Some (Some x)) ks rs" for ks rs
    using that by (induction rule: list_all2_induct) auto
  have "value_at (w |` (- snd ` set hs)) = (\<lambda>h. if h \<in> snd ` set hs then None else value_at v h)"
    using fun_cong [OF vals] by (auto simp: value_at_def fun_eq_iff restrict_map_def)
  then show ?thesis using vals rs maps by (cases r) (auto simp: consume_def run)
qed

section \<open>An answer is final\<close>

text \<open>No request of the history mints the handle again.\<close>

fun mints :: "secret_ref \<Rightarrow> vault_op \<Rightarrow> bool" where
  "mints h (Request raw _ _) = (mint raw = h)"
| "mints h _ = False"

lemma resolve_value: "value_at (fst (resolve_locked now hs v)) = value_at v"
  using resolve_locked_values [of now hs v] by (cases "resolve_locked now hs v") simp

lemma consume_value: "value_at (fst (consume now hs v)) h = value_at v h \<or> value_at (fst (consume now hs v)) h = None"
proof (cases "resolve_locked now hs v")
  case (Pair w r)
  have "value_at w = value_at v" using resolve_value [of now hs v] by (simp add: Pair)
  then show ?thesis by (cases r) (auto simp: consume_def Pair value_at_def restrict_map_def fun_eq_iff)
qed

lemma step_value:
  assumes "\<not> mints h op"
  shows "value_at v h = None \<Longrightarrow> value_at (vault_step v op) h = None"
    and "value_at v h \<in> {None, Some (Some x)} \<Longrightarrow> value_at (vault_step v op) h \<in> {None, Some (Some x)}"
proof -
  have others: "value_at (vault_step v op) h = value_at v h \<or> value_at (vault_step v op) h = None \<or>
      value_at v h = Some None"
  proof (cases op)
    case (Resolve hs now)
    then show ?thesis by (simp add: resolve_def resolve_value)
  next
    case (Consume hs now)
    then show ?thesis using consume_value [of now hs v h] by auto
  qed (use assms in \<open>auto simp: request_secret_def submit_def forget_def await_fulfillment_def sweep_def value_at_def
        split: option.splits wait_outcome.splits\<close>)
  then show "value_at v h \<in> {None, Some (Some x)} \<Longrightarrow> value_at (vault_step v op) h \<in> {None, Some (Some x)}" by auto
  from others show "value_at v h = None \<Longrightarrow> value_at (vault_step v op) h = None" by auto
qed

interpretation vault_answer: op_machine
  "\<lambda>v op. if mints h op then v else vault_step v op" "\<lambda>v. value_at v h \<in> {None, Some (Some x)}" vault_new for h x
  by unfold_locales (use step_value(2) in \<open>auto simp: vault_new_def value_at_def\<close>)

interpretation vault_gone: op_machine
  "\<lambda>v op. if mints h op then v else vault_step v op" "\<lambda>v. value_at v h = None" vault_new for h
  by unfold_locales (use step_value(1) in \<open>auto simp: vault_new_def value_at_def\<close>)

lemma run_unminted:
  "list_all (\<lambda>op. \<not> mints h op) ops \<Longrightarrow>
   run_ops vault_step v ops = run_ops (\<lambda>v op. if mints h op then v else vault_step v op) v ops"
  by (induction ops arbitrary: v) simp_all

lemma resolve_needs_value:
  assumes "resolve_locked now hs v = (v', Inr rs)" "(k, h) \<in> set hs"
  shows "\<exists>x. value_at v h = Some (Some x) \<and> (k, x) \<in> set rs"
proof -
  have "list_all2 (\<lambda>(k, h) (k', x). k' = k \<and> value_at v h = Some (Some x)) hs rs"
    using resolve_locked_values [OF assms(1)] by blast
  then show ?thesis using assms(2) by (induction rule: list_all2_induct) auto
qed

text \<open>
  C17. The user's answer is final. Once a submission against a handle was accepted, whatever
  submissions, waits, sweeps and calls come later, as long as no new request mints the same
  handle: a resolution that names the handle fails or returns that very answer, and once one
  consumption has named it, no further one does.
\<close>

theorem vault_answer_is_final:
  assumes "submit h x now v = (v1, True)" "list_all (\<lambda>op. \<not> mints h op) ops"
    and "resolve_locked later hs (run_ops vault_step v1 ops) = (v2, Inr rs)" "(k, h) \<in> set hs"
  shows "(k, x) \<in> set rs \<and>
    (\<forall>before after ks t. ops = before @ Consume ks t # after \<longrightarrow> h \<in> snd ` set ks \<longrightarrow>
       (\<forall>spent. snd (consume t ks (run_ops vault_step v1 before)) \<noteq> Inr spent))"
proof (intro conjI allI impI notI)
  obtain y where y: "value_at (run_ops vault_step v1 ops) h = Some (Some y)" "(k, y) \<in> set rs"
    using resolve_needs_value [OF assms(3,4)] by blast
  have "value_at v1 h \<in> {None, Some (Some x)}"
    using assms(1) by (auto simp: submit_def value_at_def split: option.splits if_splits)
  then have "value_at (run_ops vault_step v1 ops) h \<in> {None, Some (Some x)}"
    unfolding run_unminted [OF assms(2)] by (rule vault_answer.inv_run)
  with y show "(k, x) \<in> set rs" by simp
  fix before after ks t spent
  assume ops: "ops = before @ Consume ks t # after" and h: "h \<in> snd ` set ks"
    and spent: "snd (consume t ks (run_ops vault_step v1 before)) = Inr spent"
  have "value_at (vault_step (run_ops vault_step v1 before) (Consume ks t)) h = None"
    using spent h by (auto simp: consume_def value_at_def restrict_map_def split: prod.splits sum.splits)
  moreover have "list_all (\<lambda>op. \<not> mints h op) after" using assms(2) by (simp add: ops)
  ultimately have "value_at (run_ops vault_step v1 ops) h = None"
    unfolding ops run_ops_append run_ops_simps run_unminted [OF \<open>list_all _ after\<close>]
    by (intro vault_gone.inv_run)
  with y show False by simp
qed

theorem vault_answer_is_final_witness:
  "\<exists>v1 v2. submit (SecretRef ''s'') ''pw'' 1 [SecretRef ''s'' \<mapsto> \<lparr>se_key_name = ''K'', se_value = None, se_touched = 0,
       se_waiting = True\<rparr>] = (v1, True) \<and>
     resolve_locked 5 [(''K'', SecretRef ''s'')] (run_ops vault_step v1 [Submit (SecretRef ''s'') ''other'' 2, Sweep 3]) =
       (v2, Inr [(''K'', ''pw'')])"
proof -
  let ?v = "[SecretRef ''s'' \<mapsto> \<lparr>se_key_name = ''K'', se_value = None, se_touched = 0, se_waiting = True\<rparr>]"
  have first: "submit (SecretRef ''s'') ''pw'' 1 ?v = (fst (submit (SecretRef ''s'') ''pw'' 1 ?v), True)"
    by (simp add: submit_def)
  let ?v1 = "fst (submit (SecretRef ''s'') ''pw'' 1 ?v)"
  let ?ops = "[Submit (SecretRef ''s'') ''other'' 2, Sweep 3]"
  have quiet: "list_all (\<lambda>op. \<not> mints (SecretRef ''s'') op) ?ops" by simp
  have "\<exists>v2 y. resolve_locked 5 [(''K'', SecretRef ''s'')] (run_ops vault_step ?v1 ?ops) = (v2, Inr [(''K'', y)])"
    by (simp add: submit_def sweep_def live_entry_def idle_ttl_ms_def)
  then obtain v2 y where run: "resolve_locked 5 [(''K'', SecretRef ''s'')] (run_ops vault_step ?v1 ?ops) = (v2, Inr [(''K'', y)])"
    by blast
  have "(''K'', ''pw'') \<in> set [(''K'', y)]"
    using vault_answer_is_final [OF first quiet run, of "''K''"] by simp
  with first run show ?thesis by auto
qed

end
