(* ===== verification/Registry.thy ===== *)
theory Registry
  imports Arguments Connections OAuth Install Tool_Cache Setup_Vault Protocol
begin

text \<open>
  \<open>registry/ops/types.rs\<close>: what a host can ask of the registry, composed of the store, the
  connections, the sign-in flow, the catalogs and the setup vault. Here the store stands behind
  the connections and the sign-in: what those components read and write of an install is what
  the store's functions read and write through the storage ports. The catalogs, the network
  and the launching of processes stay parameters. Searching the catalogs and
  their settings are not modelled.
\<close>

section \<open>Names\<close>

definition source_mcp_official :: string where "source_mcp_official = ''mcp_official''"
definition source_smithery :: string where "source_smithery = ''smithery''"

definition source_separator :: string where "source_separator = ''::''"

fun split_once_str :: "string \<Rightarrow> string \<Rightarrow> (string \<times> string) option" where
  "split_once_str sep [] = (if sep = [] then Some ([], []) else None)"
| "split_once_str sep (c # s) = (case strip_prefix sep (c # s) of
     Some rest \<Rightarrow> Some ([], rest)
   | None \<Rightarrow> map_option (\<lambda>(a, b). (c # a, b)) (split_once_str sep s))"

definition split_routing_name :: "string \<Rightarrow> string \<times> string" where
  "split_routing_name name = (case split_once_str source_separator name of
     Some (source, bare) \<Rightarrow> (source, bare) | None \<Rightarrow> (source_mcp_official, name))"

definition require_non_empty :: "string \<Rightarrow> string \<Rightarrow> error + string" where
  "require_non_empty raw what =
     (let trimmed = trim raw in if trimmed = [] then Inl (UnknownServer (''<blank '' @ what @ ''>'')) else Inr trimmed)"

section \<open>The registry\<close>

record ('c, 'n, 'i) registry =
  rg_ports :: "'n storage_ports"
  rg_cache_key :: string
  rg_network :: "('c, 'n, 'i) env"
  rg_flow :: oauth_flow
  rg_sign_in :: "'n oauth_env"
  rg_identity :: 'i
  rg_catalog :: "string \<Rightarrow> string \<Rightarrow> 'n \<Rightarrow> 'n \<times> (error + registry_detail)"
  rg_uuid :: "'n \<Rightarrow> 'n \<times> string"
  rg_parse_full :: "string \<Rightarrow> full_url option"
  rg_parse_ip :: "string \<Rightarrow> ip option"
  rg_resource :: "'c \<Rightarrow> string \<Rightarrow> 'n \<Rightarrow> 'n \<times> (error + resource_contents list)"

text \<open>The store as the sign-in flow's credential store: \<open>impl OAuthCredentialStore for Store\<close>.\<close>

definition store_credentials :: "'n storage_ports \<Rightarrow> string \<Rightarrow> (string, string) btree \<Rightarrow> 'n \<Rightarrow> 'n \<times> (error + unit)" where
  "store_credentials P sid credentials n =
     sbind (set_env_values P sid credentials n) (\<lambda>_ n. update_env_keys P sid (bt_keys credentials) n)"

definition store_remote_url :: "'n storage_ports \<Rightarrow> string \<Rightarrow> 'n \<Rightarrow> 'n \<times> (error + string option)" where
  "store_remote_url P sid n = sbind (get_server P sid n) (\<lambda>server n.
     (n, Inr (case dial server of HttpRemote url \<Rightarrow> (if url \<noteq> [] then Some url else None) | Stdio \<Rightarrow> None)))"

definition sign_in_env :: "('c, 'n, 'i) registry \<Rightarrow> 'n oauth_env" where
  "sign_in_env R = (rg_sign_in R)\<lparr>oe_remote_url := store_remote_url (rg_ports R),
     oe_load := load_env_values (rg_ports R), oe_save := store_credentials (rg_ports R)\<rparr>"

text \<open>The store as the connections see it.\<close>

definition store_env :: "('c, 'n, 'i) registry \<Rightarrow> ('c, 'n, 'i) env" where
  "store_env R = (let P = rg_ports R in (rg_network R)\<lparr>
     env_list_servers := \<lambda>n. snd (list_servers P n),
     env_get_server := \<lambda>sid n. snd (get_server P sid n),
     env_load_env := \<lambda>sid n. snd (load_env_values P sid n),
     env_is_catalog := \<lambda>sid n. snd (is_catalog_server P sid n),
     env_validate := validate_catalog_command,
     env_touch := \<lambda>sid n. fst (touch_last_connected P sid n),
     env_put_tools := \<lambda>server tools n. fst (put_cached_tools P (rg_cache_key R) (server_id server)
        (installed_fingerprint (sp_sha256 P) server) tools n),
     env_refresh := \<lambda>sid n. fst (refresh_if_expired (sign_in_env R) (flow_http (rg_flow R)) sid n)\<rparr>)"

section \<open>Installs\<close>

record install_outcome =
  io_server :: installed_server
  io_already :: bool

definition installed_list :: "('c, 'n, 'i) registry \<Rightarrow> ('c, 'n) connections \<Rightarrow>
    ('c, 'n) connections \<times> (error + installed_server list)" where
  "installed_list R s = outer (list_servers (rg_ports R)) s"

definition refresh_credentials :: "('c, 'n, 'i) registry \<Rightarrow> installed_server \<Rightarrow> (string, string) btree \<Rightarrow>
    ('c, 'n) connections \<Rightarrow> ('c, 'n) connections \<times> (error + installed_server)" where
  "refresh_credentials R existing env s =
     (if env = [] then (s, Inr existing)
      else
        let P = rg_ports R; sid = server_id existing in
        sbind (outer (load_env_values P sid) s) (\<lambda>stored s.
          let changed = list_ex (\<lambda>(k, v). bt_get stored k \<noteq> Some v) env;
              merged = bt_extend stored env
          in sbind (outer (set_env_values P sid merged) s) (\<lambda>_ s.
             sbind (if changed then sbind (outer (forget_cached_tools P sid) s) (\<lambda>_ s. (s, Inr ())) else (s, Inr ()))
               (\<lambda>_ s.
                  let names = bt_keys merged in
                  if env_keys existing \<noteq> names
                  then sbind (outer (update_env_keys P sid names) s) (\<lambda>_ s. (s, Inr (existing\<lparr>env_keys := names\<rparr>)))
                  else (s, Inr existing)))))"

definition refresh_install :: "('c, 'n, 'i) registry \<Rightarrow> installed_server \<Rightarrow> (string, string) btree \<Rightarrow> json option \<Rightarrow>
    ('c, 'n) connections \<Rightarrow> ('c, 'n) connections \<times> (error + install_outcome)" where
  "refresh_install R existing env config s =
     sbind (refresh_credentials R existing env s) (\<lambda>existing s.
       case config of
         None \<Rightarrow> (s, Inr \<lparr>io_server = existing, io_already = True\<rparr>)
       | Some c \<Rightarrow>
           sbind (outer (update_config (rg_ports R) (server_id existing) (Some c)) s) (\<lambda>_ s.
             (s, Inr \<lparr>io_server = existing\<lparr>install_config := Some c\<rparr>, io_already = True\<rparr>)))"

text \<open>What a catalog entry would have installed.\<close>

definition planned_install :: "('c, 'n, 'i) registry \<Rightarrow> string \<Rightarrow> registry_detail \<Rightarrow> string \<Rightarrow>
    error + transport \<times> command_kind \<times> string \<times> string list" where
  "planned_install R canonical detail action =
     (case pick_connection (rd_connections detail) of
        None \<Rightarrow> Inl (MalformedResponse (''`'' @ canonical @ ''` offers neither a hosted endpoint nor a package'' @ action))
      | Some picked \<Rightarrow> build_install_transport (rg_parse_full R) (rg_parse_ip R) canonical picked)"

definition install :: "('c, 'n, 'i) registry \<Rightarrow> string \<Rightarrow> (string, string) btree \<Rightarrow> json option \<Rightarrow>
    ('c, 'n) connections \<Rightarrow> ('c, 'n) connections \<times> (error + install_outcome)" where
  "install R raw env config s =
     sbind (s, require_non_empty raw ''qualified_name'') (\<lambda>name s.
       let P = rg_ports R; (source, canonical) = split_routing_name name in
       sbind (outer (find_server_by_qualified_name P canonical) s) (\<lambda>found s. case found of
         Some existing \<Rightarrow> refresh_install R existing env config s
       | None \<Rightarrow>
           sbind (outer (rg_catalog R source canonical) s) (\<lambda>detail s.
           sbind (s, planned_install R canonical detail ''; there is nothing to install'') (\<lambda>(transport, kind, command, args) s.
             let (s, sid) = outer (rg_uuid R) s; (s, now) = outer (sp_now_ms P) s;
                 server = \<lparr>server_id = sid, qualified_name = canonical, display_name = rd_display_name detail,
                   description = rd_description detail, icon_url = rd_icon_url detail, launch_kind = kind,
                   launch_command = command, launch_args = args, env_keys = bt_keys env, install_config = config,
                   installed_at = now, last_connected_at = None, dial = transport, enabled = True\<rparr>
             in sbind (outer (insert_catalog_server_if_absent P server) s) (\<lambda>inserted s.
                  if \<not> inserted then
                    sbind (outer (find_server_by_qualified_name P canonical) s) (\<lambda>winner s. case winner of
                      None \<Rightarrow> (s, Inl (MalformedResponse ''an install lost a race but the winning record is gone''))
                    | Some w \<Rightarrow> refresh_install R w env (install_config server) s)
                  else
                    sbind (outer (set_env_values P sid env) s) (\<lambda>_ s.
                      (s, Inr \<lparr>io_server = server, io_already = False\<rparr>)))))))"

definition uninstall :: "('c, 'n, 'i) registry \<Rightarrow> string \<Rightarrow> ('c, 'n) connections \<Rightarrow>
    ('c, 'n) connections \<times> (error + bool)" where
  "uninstall R raw s =
     sbind (s, require_non_empty raw ''server_id'') (\<lambda>sid s.
       let (s, _) = disconnect (store_env R) sid s in outer (delete_server (rg_ports R) sid) s)"

definition set_enabled :: "('c, 'n, 'i) registry \<Rightarrow> string \<Rightarrow> bool \<Rightarrow> ('c, 'n) connections \<Rightarrow>
    ('c, 'n) connections \<times> (error + unit)" where
  "set_enabled R raw on s =
     sbind (s, require_non_empty raw ''server_id'') (\<lambda>sid s.
     sbind (outer (get_server (rg_ports R) sid) s) (\<lambda>_ s.
     sbind (outer (update_enabled (rg_ports R) sid on) s) (\<lambda>_ s.
       if on then (s, Inr ())
       else
         let (s, _) = disconnect (store_env R) sid s; s = clear_last_error sid s in
         sbind (outer (forget_cached_tools (rg_ports R) sid) s) (\<lambda>_ s. (s, Inr ())))))"

datatype update_env_status = EnvConnected | EnvDisabled | EnvUnauthorized | EnvDisconnected

record update_env_outcome =
  ue_server_id :: string
  ue_status :: update_env_status
  ue_env_keys :: "string list"
  ue_tools :: "mcp_tool list"
  ue_auth_hint :: "auth_hint option"
  ue_error :: "string option"

definition update_env :: "('c, 'n, 'i) registry \<Rightarrow> string \<Rightarrow> (string, string) btree \<Rightarrow> ('c, 'n) connections \<Rightarrow>
    ('c, 'n) connections \<times> (error + update_env_outcome)" where
  "update_env R raw env s =
     sbind (s, require_non_empty raw ''server_id'') (\<lambda>sid s.
       let P = rg_ports R in
       sbind (outer (load_env_values P sid) s) (\<lambda>stored s.
         let merged = bt_extend stored env in
         sbind (outer (set_env_values P sid merged) s) (\<lambda>_ s.
         sbind (outer (forget_cached_tools P sid) s) (\<lambda>_ s.
           let (s, _) = disconnect (store_env R) sid s in
           sbind (outer (get_server P sid) s) (\<lambda>server s.
             let names = bt_keys merged in
             sbind (if env_keys server \<noteq> names
                    then sbind (outer (update_env_keys P sid names) s) (\<lambda>_ s. (s, Inr (server\<lparr>env_keys := names\<rparr>)))
                    else (s, Inr server)) (\<lambda>server s.
               let outcome = \<lparr>ue_server_id = sid, ue_status = EnvDisabled, ue_env_keys = env_keys server,
                     ue_tools = [], ue_auth_hint = None, ue_error = None\<rparr>
               in if \<not> enabled server then (s, Inr outcome)
                  else (case connect (store_env R) (rg_identity R) server s of
                    (s, Inr tools) \<Rightarrow> (s, Inr (outcome\<lparr>ue_status := EnvConnected, ue_tools := tools\<rparr>))
                  | (s, Inl err) \<Rightarrow>
                      let hint = auth_hint_of s sid
                      in (s, Inr (outcome\<lparr>ue_status := (if hint \<noteq> None then EnvUnauthorized else EnvDisconnected),
                            ue_error := (if hint = None then Some (error_text err) else None),
                            ue_auth_hint := hint\<rparr>)))))))))"

section \<open>Connections\<close>

record connect_outcome =
  co_server_id :: string
  co_tools :: "mcp_tool list"

definition registry_connect :: "('c, 'n, 'i) registry \<Rightarrow> string \<Rightarrow> ('c, 'n) connections \<Rightarrow>
    ('c, 'n) connections \<times> (error + connect_outcome)" where
  "registry_connect R raw s =
     sbind (s, require_non_empty raw ''server_id'') (\<lambda>sid s.
     sbind (outer (get_server (rg_ports R) sid) s) (\<lambda>server s.
       if \<not> enabled server then (s, Inl (ServerDisabled sid))
       else sbind (connect (store_env R) (rg_identity R) server s) (\<lambda>tools s.
              (s, Inr \<lparr>co_server_id = sid, co_tools = tools\<rparr>))))"

definition registry_disconnect :: "('c, 'n, 'i) registry \<Rightarrow> string \<Rightarrow> ('c, 'n) connections \<Rightarrow>
    ('c, 'n) connections \<times> (error + bool)" where
  "registry_disconnect R raw s =
     sbind (s, require_non_empty raw ''server_id'') (\<lambda>sid s.
       let (s, was_live) = disconnect (store_env R) sid s in (s, Inr was_live))"

definition status :: "('c, 'n, 'i) registry \<Rightarrow> ('c, 'n) connections \<Rightarrow> error + conn_status list" where
  "status R s = all_status (store_env R) s"

text \<open>Rows that cannot be read are skipped; each live overview is used once.\<close>

fun cached_rows :: "('c, 'n, 'i) registry \<Rightarrow> connected_overview list \<Rightarrow> installed_server list \<Rightarrow> 'n \<Rightarrow>
    'n \<times> connected_overview list" where
  "cached_rows R overviews [] n = (n, [])"
| "cached_rows R overviews (server # servers) n =
     (if \<not> enabled server then cached_rows R overviews servers n
      else case find (\<lambda>ov. ov_server_id ov = server_id server) (rev overviews) of
        Some ov \<Rightarrow>
          (let (n, rows) = cached_rows R (filter (\<lambda>ov. ov_server_id ov \<noteq> server_id server) overviews) servers n
           in (n, ov # rows))
      | None \<Rightarrow>
          (case cached_tools (rg_ports R) (rg_cache_key R) (server_id server)
                  (installed_fingerprint (sp_sha256 (rg_ports R)) server) n of
             (n, Inr (Some listing)) \<Rightarrow>
               (let (n, rows) = cached_rows R overviews servers n
                in (n, \<lparr>ov_server_id = server_id server, ov_qualified_name = qualified_name server,
                        ov_display_name = display_name server, ov_description = description server,
                        ov_instructions = None, ov_tools = ct_tools listing\<rparr> # rows))
           | (n, _) \<Rightarrow> cached_rows R overviews servers n))"

definition cached_overview :: "('c, 'n, 'i) registry \<Rightarrow> string list \<Rightarrow> ('c, 'n) connections \<Rightarrow>
    ('c, 'n) connections \<times> (error + connected_overview list)" where
  "cached_overview R order s =
     sbind (outer (list_servers (rg_ports R)) s) (\<lambda>servers s.
       let (s, rows) = outer (cached_rows R (Connections.connected_overview order s) servers) s
       in (s, Inr (sort_key ov_qualified_name rows)))"

section \<open>Signing in\<close>

definition detect_auth :: "('c, 'n, 'i) registry \<Rightarrow> string \<Rightarrow> ('c, 'n) connections \<Rightarrow>
    ('c, 'n) connections \<times> (error + auth_detection)" where
  "detect_auth R raw s =
     sbind (s, require_non_empty raw ''server_id'') (\<lambda>sid s. outer (detect (rg_flow R) (sign_in_env R) sid) s)"

definition oauth_begin :: "('c, 'n, 'i) registry \<Rightarrow> string \<Rightarrow> string \<Rightarrow> ('c, 'n) connections \<Rightarrow>
    ('c, 'n) connections \<times> (error + string)" where
  "oauth_begin R raw redirect_uri s =
     sbind (s, require_non_empty raw ''server_id'') (\<lambda>sid s.
       outer (begin_flow (rg_flow R) (sign_in_env R) sid redirect_uri) s)"

text \<open>A connect that fails afterwards leaves the outcome without tools.\<close>

definition connect_or_empty :: "('c, 'n, 'i) registry \<Rightarrow> string \<Rightarrow> ('c, 'n) connections \<Rightarrow>
    ('c, 'n) connections \<times> (error + connect_outcome)" where
  "connect_or_empty R sid s = (case registry_connect R sid s of
     (s, Inr outcome) \<Rightarrow> (s, Inr outcome)
   | (s, Inl _) \<Rightarrow> (s, Inr \<lparr>co_server_id = sid, co_tools = []\<rparr>))"

definition oauth_complete :: "('c, 'n, 'i) registry \<Rightarrow> string \<Rightarrow> string \<Rightarrow> ('c, 'n) connections \<Rightarrow>
    ('c, 'n) connections \<times> (error + connect_outcome)" where
  "oauth_complete R state code s =
     sbind (outer (complete (rg_flow R) (sign_in_env R) state code) s) (\<lambda>sid s.
     sbind (outer (forget_cached_tools (rg_ports R) sid) s) (\<lambda>_ s. connect_or_empty R sid s))"

section \<open>Tools and resources\<close>

definition registry_list_tools :: "string \<Rightarrow> ('c, 'n) connections \<Rightarrow> error + mcp_tool list" where
  "registry_list_tools raw s =
     rbind (require_non_empty raw ''server_id'') (\<lambda>sid. ok_or (NotConnected sid) (tools_for s sid))"

record tool_call_outcome =
  tc_result :: json
  tc_is_error :: bool
  tc_rendered :: tool_result

definition tool_call_outcome_of :: "(json \<Rightarrow> string) \<Rightarrow> json \<Rightarrow> tool_call_outcome" where
  "tool_call_outcome_of print result =
     (let rendered = render_tool_result print result
      in \<lparr>tc_result = result, tc_is_error = tr_is_error rendered, tc_rendered = rendered\<rparr>)"

definition tool_call :: "('c, 'n, 'i) registry \<Rightarrow> string \<Rightarrow> string \<Rightarrow> json \<Rightarrow> ('c, 'n) connections \<Rightarrow>
    ('c, 'n) connections \<times> (error + tool_call_outcome)" where
  "tool_call R raw_server raw_tool arguments s =
     sbind (s, require_non_empty raw_server ''server_id'') (\<lambda>sid s.
     sbind (s, require_non_empty raw_tool ''tool_name'') (\<lambda>tool s.
       case normalize_tool_arguments (sp_parse_json (rg_ports R)) (Some arguments) of
         Inl reason \<Rightarrow> (s, Inl (InvalidArguments tool reason))
       | Inr m \<Rightarrow> sbind (Connections.call_tool (store_env R) sid tool (JObj m) s) (\<lambda>result s.
           (s, Inr (tool_call_outcome_of (sp_print_json (rg_ports R)) result)))))"

definition registry_read_resource :: "('c, 'n, 'i) registry \<Rightarrow> string \<Rightarrow> string \<Rightarrow> ('c, 'n) connections \<Rightarrow>
    ('c, 'n) connections \<times> (error + resource_contents list)" where
  "registry_read_resource R raw uri s =
     sbind (s, require_non_empty raw ''server_id'') (\<lambda>sid s.
       case live s sid of None \<Rightarrow> (s, Inl (NotConnected sid))
       | Some c \<Rightarrow> outer (rg_resource R (conn_client c) uri) s)"

section \<open>The catalog and the guided setup\<close>

definition registry_get :: "('c, 'n, 'i) registry \<Rightarrow> string \<Rightarrow> 'n \<Rightarrow> 'n \<times> (error + registry_detail \<times> string list)" where
  "registry_get R raw n =
     sbind (n, require_non_empty raw ''qualified_name'') (\<lambda>name n.
       let (source, canonical) = split_routing_name name in
       sbind (rg_catalog R source canonical n) (\<lambda>detail n. (n, Inr (detail, collect_required_env_keys detail))))"

definition setup_request_secret :: "string \<Rightarrow> nat \<Rightarrow> string \<Rightarrow> vault \<Rightarrow> vault \<times> (error + string)" where
  "setup_request_secret uuid now raw v =
     sbind (v, require_non_empty raw ''key_name'') (\<lambda>name v.
       let (v, h) = request_secret uuid name now v in (v, Inr (handle_str h)))"

definition setup_submit_secret :: "nat \<Rightarrow> string \<Rightarrow> string \<Rightarrow> vault \<Rightarrow> vault \<times> (error + bool)" where
  "setup_submit_secret now raw x v =
     (case parse_ref raw of
        None \<Rightarrow> (v, Inl (MalformedResponse (''`'' @ raw @ ''` is not a secret handle'')))
      | Some h \<Rightarrow> (let (v, accepted) = submit h x now v in (v, Inr accepted)))"

definition setup_test_connection :: "('c, 'n, 'i) registry \<Rightarrow> nat \<Rightarrow> string \<Rightarrow> (string \<times> secret_ref) list \<Rightarrow>
    vault \<times> 'n \<Rightarrow> (vault \<times> 'n) \<times> (error + mcp_tool list)" where
  "setup_test_connection R now raw handles = (\<lambda>(v, n).
     case require_non_empty raw ''qualified_name'' of
       Inl err \<Rightarrow> ((v, n), Inl err)
     | Inr name \<Rightarrow>
         (case resolve now handles v of
            (v, Inl err) \<Rightarrow> ((v, n), Inl err)
          | (v, Inr values) \<Rightarrow>
              let (source, canonical) = split_routing_name name; env = bt_of_list values; E = rg_network R;
                  (n, tools) =
                    sbind (rg_catalog R source canonical n) (\<lambda>detail n.
                    sbind (n, planned_install R canonical detail '' to test'') (\<lambda>(transport, _, command, args) n.
                    sbind (case transport of
                             HttpRemote url \<Rightarrow> sbind (env_guard E url n) (\<lambda>pinned n.
                               env_http E (rg_identity R) url (build_http_auth env) (Some pinned) n)
                           | Stdio \<Rightarrow> env_spawn E (rg_identity R) command args env n) (\<lambda>client n.
                    sbind (env_list_tools E client n) (\<lambda>tools n.
                      (env_close E client n, Inr (map mcp_tool_of tools))))))
              in ((v, n), tools)))"

definition setup_install_and_connect :: "('c, 'n, 'i) registry \<Rightarrow> nat \<Rightarrow> string \<Rightarrow> (string \<times> secret_ref) list \<Rightarrow>
    json option \<Rightarrow> vault \<times> ('c, 'n) connections \<Rightarrow> (vault \<times> ('c, 'n) connections) \<times> (error + connect_outcome)" where
  "setup_install_and_connect R now raw handles config = (\<lambda>(v, s).
     case consume now handles v of
       (v, Inl err) \<Rightarrow> ((v, s), Inl err)
     | (v, Inr values) \<Rightarrow>
         let (s, outcome) = sbind (install R raw (bt_of_list values) config s) (\<lambda>installed s.
               connect_or_empty R (server_id (io_server installed)) s)
         in ((v, s), outcome))"

end
