(* ===== verification/Store_Rows.thy ===== *)
theory Store_Rows
  imports Store
begin

text \<open>
  What the store's operations do to the rows: a stored row reads back as the install it was
  written from, an update changes its one column, a delete leaves nothing behind, and an insert
  always comes to an end.
\<close>

section \<open>Rows read back\<close>

lemma decode_encode [simp]: "decode (encode server managed) = server"
proof -
  have "kind_parse (command_kind_str k) = k" for k by (cases k) (simp_all add: kind_parse_def)
  moreover have "transport_parse (dispatch_kind t) (deployment_url t) = t" for t
    by (cases t) (simp_all add: transport_parse_def)
  ultimately show ?thesis by (simp add: decode_def encode_def)
qed

definition doc_ok :: "server_doc \<Rightarrow> bool" where
  "doc_ok d = (i64_ok (sd_installed_ms d) \<and>
     (case sd_last_connected_ms d of None \<Rightarrow> True | Some t \<Rightarrow> i64_ok t) \<and> sd_config d \<noteq> Some JNull)"

lemma doc_ok_encode [simp]: "doc_ok (encode server managed) = installed_ok server"
  by (simp add: doc_ok_def encode_def installed_ok_def)

lemma map_of_skip_none [simp]:
  "(m ++ map_of (rev (skip_none k f x))) k' = (if k' = k \<and> x \<noteq> None then map_option f x else m k')"
  by (auto simp: skip_none_def split: option.splits)

lemma enc_server_doc_get:
  "jget ''server_id'' (enc_server_doc d) = Some (JStr (sd_server_id d))"
  "jget ''qualified_name'' (enc_server_doc d) = Some (JStr (sd_qualified_name d))"
  "jget ''display_name'' (enc_server_doc d) = Some (JStr (sd_display_name d))"
  "jget ''description'' (enc_server_doc d) = map_option JStr (sd_description d)"
  "jget ''icon_url'' (enc_server_doc d) = map_option JStr (sd_icon_url d)"
  "jget ''command_kind'' (enc_server_doc d) = Some (JStr (sd_command_kind d))"
  "jget ''command'' (enc_server_doc d) = Some (JStr (sd_command d))"
  "jget ''args'' (enc_server_doc d) = Some (JArr (map JStr (sd_args d)))"
  "jget ''env_keys'' (enc_server_doc d) = Some (JArr (map JStr (sd_env_keys d)))"
  "jget ''config'' (enc_server_doc d) = map_option id (sd_config d)"
  "jget ''installed_ms'' (enc_server_doc d) = Some (JInt (sd_installed_ms d))"
  "jget ''last_connected_ms'' (enc_server_doc d) = map_option JInt (sd_last_connected_ms d)"
  "jget ''transport'' (enc_server_doc d) = Some (JStr (sd_transport d))"
  "jget ''deployment_url'' (enc_server_doc d) = map_option JStr (sd_deployment_url d)"
  "jget ''enabled'' (enc_server_doc d) = Some (JBool (sd_enabled d))"
  "jget ''catalog_managed'' (enc_server_doc d) = Some (JBool (sd_catalog_managed d))"
  by (simp_all add: enc_server_doc_def jget_jobject)

lemma optional_skip:
  assumes "jget k j = map_option enc x" and "\<And>a. x = Some a \<Longrightarrow> enc a \<noteq> JNull \<and> dec (enc a) = Some a"
  shows "optional k dec j = Some x"
  using assms by (cases x) (auto simp: optional_def split: json.splits)

lemma dec_enc_server_doc [simp]:
  assumes "doc_ok d"
  shows "dec_server_doc (enc_server_doc d) = Some d"
proof -
  note get = enc_server_doc_get
  have opt: "optional ''description'' as_str (enc_server_doc d) = Some (sd_description d)"
    "optional ''icon_url'' as_str (enc_server_doc d) = Some (sd_icon_url d)"
    "optional ''config'' Some (enc_server_doc d) = Some (sd_config d)"
    "optional ''last_connected_ms'' as_i64 (enc_server_doc d) = Some (sd_last_connected_ms d)"
    "optional ''deployment_url'' as_str (enc_server_doc d) = Some (sd_deployment_url d)"
    using assms
    by (intro optional_skip [OF get(4)] optional_skip [OF get(5)] optional_skip [OF get(10)]
        optional_skip [OF get(12)] optional_skip [OF get(14)]; auto simp: doc_ok_def)+
  have int: "as_i64 (JInt (sd_installed_ms d)) = Some (sd_installed_ms d)"
    using assms by (simp add: doc_ok_def)
  show ?thesis
    by (simp add: dec_server_doc_def opt int get(1-3,6,7,11) [THEN required_enc]
        get(8,9,13,15,16) [THEN defaulted_enc])
qed

text \<open>
  An install written to the store reads back as itself, whoever wrote it and whichever of
  its optional columns are absent.
\<close>

theorem stored_row_roundtrip:
  assumes "installed_ok server"
  shows "decode_server P (enc_server_doc (encode server managed)) = Inr server"
  using assms by (simp add: decode_server_def)

lemma stored_row_roundtrip_witness:
  fixes server defines "server \<equiv> \<lparr>server_id = ''s'', qualified_name = ''n'', display_name = ''N'',
     description = None, icon_url = Some ''i'', launch_kind = Python, launch_command = ''uvx'',
     launch_args = [''a''], env_keys = [], install_config = None, installed_at = 5,
     last_connected_at = None, dial = HttpRemote ''https://h/'', enabled = False\<rparr>"
  shows "decode_server memory_ports (enc_server_doc (encode server True)) = Inr server"
  by (rule stored_row_roundtrip) (simp add: server_def installed_ok_def i64_ok_def)

section \<open>Inserting ends\<close>

abbreviation insert_call :: "'s storage_ports \<Rightarrow> insert_job \<Rightarrow> 's \<times> insert_phase \<Rightarrow> 's \<times> insert_phase" where
  "insert_call P job \<equiv> (\<lambda>(s, phase). insert_step P job phase s)"

lemma insert_call_Finished: "((insert_call P job) ^^ n) (s, Finished r) = (s, Finished r)"
  by (induction n) (simp_all add: insert_step_def)

lemma insert_calls_run:
  "remaining phase \<le> n \<Longrightarrow> \<exists>r. snd (((insert_call P job) ^^ n) (s, phase)) = Finished r \<and>
     run_insert P job phase s = (fst (((insert_call P job) ^^ n) (s, phase)), r)"
proof (induction n arbitrary: phase s)
  case 0
  then obtain r where "phase = Finished r" by (cases phase) auto
  then show ?case by (simp add: run_insert.simps)
next
  case (Suc n)
  show ?case
  proof (cases "outcome_of phase")
    case None
    from insert_step_decreases [OF None, of P job s] Suc.prems
    have "remaining (snd (insert_step P job phase s)) \<le> n" by simp
    from Suc.IH [OF this, of "fst (insert_step P job phase s)"] show ?thesis
      by (simp add: funpow_Suc_right run_insert.simps [of P job phase] None del: funpow.simps)
  next
    case (Some r)
    then have "phase = Finished r" by (cases phase) auto
    then show ?thesis by (simp add: insert_call_Finished run_insert.simps del: funpow.simps)
  qed
qed


section \<open>Changing one column\<close>

lemma repo_update_lawful:
  assumes "lawful_ports P docs vtop" "repo_update attempts P coll dec enc i (\<lambda>x. Inr (map_option f x)) s = (s', Inr out)"
  shows "case docs s coll i of None \<Rightarrow> docs s' = docs s \<and> out = None
    | Some v \<Rightarrow> \<exists>a version. dec (v_doc v) = Inr a \<and> out = Some (f a, version) \<and>
        docs s' = (docs s)(coll := (docs s coll)(i \<mapsto> \<lparr>v_doc = enc (f a), v_version = version\<rparr>))"
  using assms(2)
proof (induction attempts arbitrary: s)
  case (Suc attempts)
  obtain s1 r where get: "sp_get P coll i s = (s1, r)" by fastforce
  with Suc.prems obtain found where r: "r = Inr found" by (cases r) auto
  have docs1: "docs s1 = docs s" "found = docs s coll i" using lawful_get [OF assms(1) get] r by simp_all
  show ?case
  proof (cases found)
    case None
    then show ?thesis using Suc.prems docs1 by (simp add: get r)
  next
    case (Some v)
    with Suc.prems obtain a where dec: "dec (v_doc v) = Inr a" by (cases "dec (v_doc v)") (auto simp: get r)
    obtain s2 w where put: "sp_put P coll i (enc (f a)) (AtVersion (v_version v)) s1 = (s2, w)" by fastforce
    show ?thesis
    proof (cases w)
      case (Inl err)
      show ?thesis
      proof (cases err)
        case (Conflict src)
        have "docs s2 = docs s"
          using lawful_put [OF assms(1) put] docs1 by (simp add: Inl Conflict put_law_def)
        moreover have "repo_update attempts P coll dec enc i (\<lambda>x. Inr (map_option f x)) s2 = (s', Inr out)"
          using Suc.prems by (simp add: get r Some dec put Inl Conflict split: if_splits)
        ultimately show ?thesis using Suc.IH [of s2] by (simp cong: option.case_cong)
      qed (use Suc.prems in \<open>simp add: get r Some dec put Inl\<close>)
    next
      case (Inr version)
      then show ?thesis using Suc.prems lawful_put [OF assms(1) put] docs1
        by (auto simp: get r Some dec put put_law_def)
    qed
  qed
qed simp

lemma read_i64_ok:
  "required k as_i64 j = Some i \<Longrightarrow> i64_ok i" "optional k as_i64 j = Some (Some i) \<Longrightarrow> i64_ok i"
  "optional k Some j \<noteq> Some (Some JNull)"
  by (auto simp: required_def optional_def as_i64_def i64_ok_def split: option.splits json.splits if_splits)

lemma dec_server_doc_ok:
  assumes "dec_server_doc j = Some d"
  shows "doc_ok d"
proof -
  have "required ''installed_ms'' as_i64 j = Some (sd_installed_ms d)"
    "optional ''last_connected_ms'' as_i64 j = Some (sd_last_connected_ms d)"
    "optional ''config'' Some j = Some (sd_config d)"
    using assms unfolding dec_server_doc_def bind_eq_Some_conv by auto
  then show ?thesis using read_i64_ok [of _ j] by (auto simp: doc_ok_def split: option.split)
qed

text \<open>Any change of one column that keeps the row writable: the row is rewritten in place and reads
  back changed, and an install that is not there is not created.\<close>

lemma update_server_row:
  assumes "lawful_ports P docs vtop" "key P [sid] = Inr k" "update_server P action sid change s = (s', Inr ())"
    and "\<forall>d. doc_ok d \<longrightarrow> doc_ok (change d)"
  shows "case docs s servers_coll k of None \<Rightarrow> docs s' = docs s
    | Some v \<Rightarrow> \<exists>d n. dec_server_doc (v_doc v) = Some d \<and> dec_server_doc (enc_server_doc (change d)) = Some (change d) \<and>
        docs s' = (docs s)(servers_coll := (docs s servers_coll)(k \<mapsto> \<lparr>v_doc = enc_server_doc (change d), v_version = n\<rparr>))"
proof -
  obtain out where "repo_update retry_attempts P servers_coll (\<lambda>j. ok_or (sp_shape_error P j) (dec_server_doc j))
      enc_server_doc k (\<lambda>x. Inr (map_option change x)) s = (s', Inr out)"
    using assms(2,3) by (auto simp: update_server_def sbind_eq_Inr)
  note exact = repo_update_lawful [OF assms(1) this]
  show ?thesis
  proof (cases "docs s servers_coll k")
    case (Some v)
    with exact obtain d n where d: "dec_server_doc (v_doc v) = Some d"
      and s': "docs s' = (docs s)(servers_coll := (docs s servers_coll)(k \<mapsto>
          \<lparr>v_doc = enc_server_doc (change d), v_version = n\<rparr>))" by auto
    have "dec_server_doc (enc_server_doc (change d)) = Some (change d)"
      using dec_server_doc_ok [OF d] assms(4) by simp
    with Some d s' show ?thesis by auto
  qed (use exact in simp)
qed

text \<open>
  Enabling or disabling an install rewrites its one row and nothing else: the row reads back
  as the same install with the flag set, its catalog provenance is kept, and an install that is
  not there is not created.
\<close>

theorem update_enabled_exact:
  assumes "lawful_ports P docs vtop" "key P [sid] = Inr k" "update_enabled P sid on s = (s', Inr ())"
  shows "case docs s servers_coll k of None \<Rightarrow> docs s' = docs s
    | Some v \<Rightarrow> \<exists>d v'. dec_server_doc (v_doc v) = Some d \<and>
        docs s' = (docs s)(servers_coll := (docs s servers_coll)(k \<mapsto> v')) \<and>
        decode_server P (v_doc v') = Inr ((decode d)\<lparr>enabled := on\<rparr>) \<and>
        jget ''catalog_managed'' (v_doc v') = Some (JBool (sd_catalog_managed d))"
proof -
  have "\<forall>d. doc_ok d \<longrightarrow> doc_ok (d\<lparr>sd_enabled := on\<rparr>)" by (simp add: doc_ok_def)
  note exact = update_server_row [OF assms(1,2) assms(3) [unfolded update_enabled_def] this]
  show ?thesis
  proof (cases "docs s servers_coll k")
    case (Some v)
    with exact obtain d n where d: "dec_server_doc (v_doc v) = Some d"
      and reread: "dec_server_doc (enc_server_doc (d\<lparr>sd_enabled := on\<rparr>)) = Some (d\<lparr>sd_enabled := on\<rparr>)"
      and s': "docs s' = (docs s)(servers_coll := (docs s servers_coll)(k \<mapsto>
          \<lparr>v_doc = enc_server_doc (d\<lparr>sd_enabled := on\<rparr>), v_version = n\<rparr>))" by auto
    from reread have "decode_server P (enc_server_doc (d\<lparr>sd_enabled := on\<rparr>)) = Inr ((decode d)\<lparr>enabled := on\<rparr>)"
      by (simp add: decode_server_def decode_def)
    with Some d s' show ?thesis
      by (auto intro!: exI [of _ "\<lparr>v_doc = enc_server_doc (d\<lparr>sd_enabled := on\<rparr>), v_version = n\<rparr>"]
          simp: enc_server_doc_get)
  qed (use exact in simp)
qed

text \<open>A store of two installs, the first with credentials.\<close>

definition sample_install :: "string \<Rightarrow> installed_server" where
  "sample_install sid = \<lparr>server_id = sid, qualified_name = ''n'' @ sid, display_name = ''N'',
     description = None, icon_url = None, launch_kind = Node, launch_command = ''npx'',
     launch_args = [], env_keys = [], install_config = None, installed_at = 5,
     last_connected_at = None, dial = Stdio, enabled = True\<rparr>"

definition sample_row :: "string \<Rightarrow> string \<times> versioned" where
  "sample_row sid = (sid, \<lparr>v_doc = enc_server_doc (encode (sample_install sid) True), v_version = 1\<rparr>)"

definition sample_store :: mem where
  "sample_store = \<lparr>mem_secrets = [env_secret_name ''a'' \<mapsto> ''{}'', env_secret_name ''b'' \<mapsto> ''{}''],
     mem_rows = (\<lambda>_. [])(servers_coll := [sample_row ''a'', sample_row ''b''],
       server_names_coll := [(''na'', \<lparr>v_doc = name_claim ''na'' ''a'' 0, v_version = 2\<rparr>)],
       tool_cache_coll := [(''a'', \<lparr>v_doc = JNull, v_version = 3\<rparr>)]),
     mem_next = 4, mem_now = 0\<rparr>"

lemma update_enabled_exact_witness:
  "\<exists>s' d v'. update_enabled memory_ports ''a'' False sample_store = (s', Inr ()) \<and>
     mem_docs s' = (mem_docs sample_store)(servers_coll := (mem_docs sample_store servers_coll)(''a'' \<mapsto> v')) \<and>
     decode_server memory_ports (v_doc v') = Inr ((decode d)\<lparr>enabled := False\<rparr>)"
proof -
  let ?run = "update_enabled memory_ports ''a'' False sample_store"
  have "snd ?run = Inr ()" "key memory_ports [''a''] = Inr ''a''"
    "mem_docs sample_store servers_coll ''a'' = Some (snd (sample_row ''a''))" by code_simp+
  moreover from this have "?run = (fst ?run, Inr ())" by (metis prod.collapse)
  ultimately show ?thesis
    using update_enabled_exact [OF memory_lawful, of "''a''" "''a''" False sample_store "fst ?run"] by auto
qed

section \<open>Deleting\<close>

lemma release_name_lawful:
  assumes P: "lawful_ports P docs vtop" and S: "lawful_secrets P docs secrets"
    and run: "release_name P sid name s = (s', Inr ())" and id: "doc_id P [name] = Inr claim_id"
  shows "docs s' = (if Option.bind (docs s server_names_coll claim_id) (\<lambda>v. field_str ''server_id'' (v_doc v)) = Some sid
      then (docs s)(server_names_coll := (docs s server_names_coll)(claim_id := None)) else docs s) \<and>
    secrets s' = secrets s"
proof -
  obtain s1 r where get: "sp_get P server_names_coll claim_id s = (s1, r)" by fastforce
  with run id obtain held where r: "r = Inr held" by (cases r) (auto simp: release_name_def)
  have s1: "docs s1 = docs s" "held = docs s server_names_coll claim_id" "secrets s1 = secrets s"
    using lawful_get [OF P get] lawful_secrets_frame [OF S] get r by simp_all
  show ?thesis
  proof (cases "owns_claim sid held")
    case None
    then show ?thesis using run s1 by (auto simp: release_name_def id get r owns_claim_def split: option.splits if_splits)
  next
    case (Some v)
    then have held: "docs s server_names_coll claim_id = Some v" "field_str ''server_id'' (v_doc v) = Some sid"
      using s1(2) by (auto simp: owns_claim_def split: option.splits if_splits)
    have own: "owns_claim sid (Some v) = Some v" using held by (simp add: owns_claim_def)
    obtain s2 w where del: "sp_delete P server_names_coll claim_id (AtVersion (v_version v)) s1 = (s2, w)" by fastforce
    have law: "delete_law docs vtop server_names_coll claim_id (AtVersion (v_version v)) s1 s2 w" "secrets s2 = secrets s1"
      using lawful_delete [OF P del] lawful_secrets_frame [OF S] del by simp_all
    show ?thesis
      using run law s1 held by (cases w; cases "projl w") (auto simp: release_name_def id get r own del delete_law_def)
  qed
qed

text \<open>
  C27. Deleting an install leaves nothing of it behind: its row, its cached tool list, its
  credentials and the claim it holds on its name are gone, and no other document and no other
  install's credentials are touched.
\<close>

theorem delete_leaves_nothing:
  assumes "lawful_ports P docs vtop" "lawful_secrets P docs secrets"
    and "key P [sid] = Inr k" "delete_server P sid s = (s', Inr removed)"
  shows "removed = (docs s servers_coll k \<noteq> None) \<and>
    docs s' servers_coll = (docs s servers_coll)(k := None) \<and>
    docs s' tool_cache_coll = (docs s tool_cache_coll)(k := None) \<and>
    secrets s' = (secrets s)(env_secret_name sid := None) \<and>
    (\<forall>c. c \<notin> {servers_coll, tool_cache_coll, server_names_coll} \<longrightarrow> docs s' c = docs s c) \<and>
    (\<forall>i. docs s' server_names_coll i = docs s server_names_coll i \<or> docs s' server_names_coll i = None \<and>
       Option.bind (docs s server_names_coll i) (\<lambda>v. field_str ''server_id'' (v_doc v)) = Some sid) \<and>
    (\<forall>v name i. docs s servers_coll k = Some v \<longrightarrow> field_str ''qualified_name'' (v_doc v) = Some name \<longrightarrow>
       doc_id P [name] = Inr i \<longrightarrow>
       Option.bind (docs s' server_names_coll i) (\<lambda>v. field_str ''server_id'' (v_doc v)) \<noteq> Some sid)"
proof -
  note P = assms(1) and S = assms(2)
  obtain s1 existing where get: "sp_get P servers_coll k s = (s1, Inr existing)"
    and s1: "docs s1 = docs s" "existing = docs s servers_coll k" "secrets s1 = secrets s"
  proof -
    obtain s1 r where c: "sp_get P servers_coll k s = (s1, r)" by fastforce
    with assms(3,4) obtain existing where "r = Inr existing" by (cases r) (auto simp: delete_server_def)
    with c lawful_get [OF P c] lawful_secrets_frame [OF S] show ?thesis using that by simp
  qed
  obtain s2 where del: "sp_delete P servers_coll k AnyVersion s1 = (s2, Inr (docs s servers_coll k \<noteq> None))"
    and s2: "docs s2 = (docs s)(servers_coll := (docs s servers_coll)(k := None))" "secrets s2 = secrets s"
  proof -
    obtain s2 r where c: "sp_delete P servers_coll k AnyVersion s1 = (s2, r)" by fastforce
    with assms(3,4) obtain gone where "r = Inr gone" by (cases r) (auto simp: delete_server_def get)
    with c lawful_delete [OF P c] lawful_secrets_frame [OF S] s1 show ?thesis using that by (simp add: delete_law_def)
  qed
  obtain s3 r3 where del3: "sp_delete P tool_cache_coll k AnyVersion s2 = (s3, Inr r3)"
    and s3: "docs s3 = (docs s2)(tool_cache_coll := (docs s2 tool_cache_coll)(k := None))" "secrets s3 = secrets s"
  proof -
    obtain s3 r where c: "sp_delete P tool_cache_coll k AnyVersion s2 = (s3, r)" by fastforce
    with assms(3,4) obtain gone where "r = Inr gone" by (cases r) (auto simp: delete_server_def get del)
    with c lawful_delete [OF P c] lawful_secrets_frame [OF S] s2 show ?thesis using that by (simp add: delete_law_def)
  qed
  obtain s4 r4 where del4: "sp_secret_delete P (env_secret_name sid) s3 = (s4, Inr r4)"
    and s4: "docs s4 = docs s3" "secrets s4 = (secrets s)(env_secret_name sid := None)"
  proof -
    obtain s4 r where c: "sp_secret_delete P (env_secret_name sid) s3 = (s4, r)" by fastforce
    with assms(3,4) obtain gone where "r = Inr gone" by (cases r) (auto simp: delete_server_def get del del3)
    with c lawful_secret_delete [OF S c] s3 show ?thesis using that by simp
  qed
  show ?thesis
  proof (cases "Option.bind existing (\<lambda>row. field_str ''qualified_name'' (v_doc row))")
    case None
    then show ?thesis using assms(3,4) s1 s2 s3 s4 by (auto simp: delete_server_def get del del3 del4)
  next
    case (Some name)
    then have run: "release_name P sid name s4 = (s', Inr ())" and removed: "removed = (docs s servers_coll k \<noteq> None)"
      using assms(3,4) by (auto simp: delete_server_def get del del3 del4 sbind_eq_Inr)
    then obtain i where i: "doc_id P [name] = Inr i" by (cases "doc_id P [name]") (auto simp: release_name_def)
    from release_name_lawful [OF P S run i] show ?thesis
      using Some removed i s1(2) unfolding s4 s3 s2 by (auto split: if_splits)
  qed
qed

theorem delete_leaves_nothing_witness:
  "\<exists>s'. delete_server memory_ports ''a'' sample_store = (s', Inr True) \<and>
     mem_docs s' servers_coll = (mem_docs sample_store servers_coll)(''a'' := None) \<and>
     mem_secrets s' = (mem_secrets sample_store)(env_secret_name ''a'' := None) \<and>
     mem_docs s' server_names_coll ''na'' = None"
proof -
  let ?run = "delete_server memory_ports ''a'' sample_store"
  have "snd ?run = Inr True" "key memory_ports [''a''] = Inr ''a''"
    "mem_docs (fst ?run) server_names_coll ''na'' = None" by code_simp+
  moreover from this have "?run = (fst ?run, Inr True)" by (metis prod.collapse)
  ultimately show ?thesis
    using delete_leaves_nothing [OF memory_lawful memory_secrets, of "''a''" "''a''" sample_store "fst ?run" True] by metis
qed

end
