(* ===== verification/Registry_Facts.thy ===== *)
theory Registry_Facts
  imports Registry Store_Rows
begin

text \<open>
  What the registry's operations guarantee once the parts are composed: an install that was
  turned off stays down and is not offered, a second install keeps the credentials it does not
  name, and two places where the order of the writes shows.
\<close>

section \<open>The outside world of a registry\<close>

text \<open>The documents and the secrets are the store's: neither the network side nor the other half
  of the store writes them. This is what is documented of the ports, together with the
  assumption that closing a session, or asking a server, does not reach into the store.\<close>

definition lawful_store :: "'n storage_ports \<Rightarrow> ('n \<Rightarrow> string \<Rightarrow> string \<Rightarrow> versioned option) \<Rightarrow> ('n \<Rightarrow> nat) \<Rightarrow>
    ('n \<Rightarrow> string \<Rightarrow> string option) \<Rightarrow> bool" where
  "lawful_store P docs vtop secrets \<longleftrightarrow> lawful_ports P docs vtop \<and> lawful_secrets P docs secrets \<and>
     secret_reads P secrets \<and>
     (\<forall>n s. docs (fst (sp_secret_get P n s)) = docs s) \<and>
     (\<forall>c i d p s. secrets (fst (sp_put P c i d p s)) = secrets s) \<and>
     (\<forall>c q s. secrets (fst (sp_query P c q s)) = secrets s) \<and>
     (\<forall>s. secrets (fst (sp_now_ms P s)) = secrets s)"

definition quiet_close :: "('c, 'n, 'i) env \<Rightarrow> ('n \<Rightarrow> 'x) \<Rightarrow> bool" where
  "quiet_close E view \<longleftrightarrow> (\<forall>c n. view (env_close E c n) = view n)"

lemma outer_run: "f (outside s) = (n, r) \<Longrightarrow> outer f s = (s\<lparr>outside := n\<rparr>, r)"
  by (simp add: outer_def)

lemma outer_Inr: "outer f s = (s', Inr a) \<longleftrightarrow> f (outside s) = (outside s', Inr a) \<and> s' = s\<lparr>outside := outside s'\<rparr>"
  by (cases "f (outside s)") (auto simp: outer_def)

lemma outer_frame: "outer f s = (s', r) \<Longrightarrow> live s' = live s \<and> conn_failures s' = conn_failures s"
  by (auto simp: outer_def split: prod.splits)

lemma store_env_close [simp]: "env_close (store_env R) = env_close (rg_network R)"
  by (simp add: store_env_def Let_def)

lemma disconnect_effect:
  assumes "disconnect (store_env R) sid s = (s', was)" "quiet_close (rg_network R) view"
  shows "live s' = (live s)(sid := None)" "conn_failures s' = (conn_failures s)(sid := None)"
    "view (outside s') = view (outside s)"
  using assms by (auto simp: disconnect_def quiet_close_def Let_def split: option.splits)

section \<open>Turned off means down\<close>

lemma find_server_reads:
  assumes "lawful_ports P docs vtop" "find_server P sid s = (s', Inr found)" "key P [sid] = Inr k"
  shows "docs s' = docs s \<and> (case docs s servers_coll k of None \<Rightarrow> found = None
    | Some v \<Rightarrow> \<exists>server. decode_server P (v_doc v) = Inr server \<and> found = Some server)"
proof -
  obtain s1 r where get: "sp_get P servers_coll k s = (s1, r)" by fastforce
  from assms(2,3) obtain row where r: "r = Inr row" by (cases r) (auto simp: find_server_def get)
  have "docs s1 = docs s" "row = docs s servers_coll k" using lawful_get [OF assms(1) get] r by simp_all
  with assms(2,3) show ?thesis
    by (auto simp: find_server_def get r rbind_eq_Inr split: option.splits)
qed

lemma get_server_reads:
  assumes "lawful_ports P docs vtop" "get_server P sid s = (s', Inr server)" "key P [sid] = Inr k"
  shows "docs s' = docs s \<and> (\<exists>v. docs s servers_coll k = Some v \<and> decode_server P (v_doc v) = Inr server)"
proof -
  from assms(2) have "find_server P sid s = (s', Inr (Some server))"
    by (auto simp: get_server_def sbind_eq_Inr)
  from find_server_reads [OF assms(1) this assms(3)] show ?thesis by (auto split: option.splits)
qed

lemma get_server_key: "get_server P sid s = (s', Inr server) \<Longrightarrow> \<exists>k. key P [sid] = Inr k"
  by (cases "key P [sid]") (auto simp: get_server_def find_server_def)

lemma set_enabled_off:
  assumes "set_enabled R raw False s = (s1, Inr ())"
  obtains a b server removed where "trim raw \<noteq> []" "outer (get_server (rg_ports R) (trim raw)) s = (a, Inr server)"
    "outer (update_enabled (rg_ports R) (trim raw) False) a = (b, Inr ())"
    "outer (forget_cached_tools (rg_ports R) (trim raw))
       (clear_last_error (trim raw) (fst (disconnect (store_env R) (trim raw) b))) = (s1, Inr removed)"
proof -
  have ne: "trim raw \<noteq> []" using assms by (auto simp: set_enabled_def require_non_empty_def)
  obtain a r where get: "outer (get_server (rg_ports R) (trim raw)) s = (a, r)" by fastforce
  obtain b u where upd: "outer (update_enabled (rg_ports R) (trim raw) False) a = (b, u)" by fastforce
  obtain c was where dis: "disconnect (store_env R) (trim raw) b = (c, was)" by fastforce
  obtain d x where forget: "outer (forget_cached_tools (rg_ports R) (trim raw)) (clear_last_error (trim raw) c) = (d, x)"
    by fastforce
  from assms ne get obtain server where r: "r = Inr server" by (cases r) (auto simp: set_enabled_def require_non_empty_def)
  from assms ne get r upd have u: "u = Inr ()" by (cases u) (auto simp: set_enabled_def require_non_empty_def)
  from assms ne get r upd u dis forget obtain removed where "x = Inr removed" "d = s1"
    by (cases x) (auto simp: set_enabled_def require_non_empty_def)
  with that ne get r upd u dis forget show thesis by simp
qed

lemma forget_cached_tools_lawful:
  assumes "lawful_ports P docs vtop" "forget_cached_tools P sid s = (s', Inr removed)" "key P [sid] = Inr k"
  shows "docs s' = (docs s)(tool_cache_coll := (docs s tool_cache_coll)(k := None))"
proof -
  have "sp_delete P tool_cache_coll k AnyVersion s = (s', Inr removed)"
    using assms(2,3) by (simp add: forget_cached_tools_def)
  from lawful_delete [OF assms(1) this] show ?thesis by (simp add: delete_law_def)
qed

text \<open>
  C3. Turning an install off takes effect at once and lasts. When the call succeeds there is no
  live session and no recorded failure of it, its cached tools are gone, and its row reads as
  turned off; and from then on, as long as its row is not written, a connect refuses before
  anything is dialled, leaving every session as it was.
\<close>

theorem disabled_stays_down:
  assumes "lawful_ports (rg_ports R) docs vtop" "quiet_close (rg_network R) docs"
    and "set_enabled R raw False s = (s1, Inr ())" "key (rg_ports R) [trim raw] = Inr k"
    and "docs (outside s2) servers_coll k = docs (outside s1) servers_coll k"
    and "registry_connect R raw s2 = (s3, outcome)"
  shows "\<not> is_connected s1 (trim raw) \<and> conn_failures s1 (trim raw) = None \<and>
    docs (outside s1) tool_cache_coll k = None \<and>
    (\<exists>v server. docs (outside s1) servers_coll k = Some v \<and>
       decode_server (rg_ports R) (v_doc v) = Inr server \<and> \<not> enabled server) \<and>
    (\<exists>err. outcome = Inl err) \<and> live s3 = live s2 \<and> conn_failures s3 = conn_failures s2"
proof -
  let ?P = "rg_ports R" and ?sid = "trim raw"
  obtain a b server removed where ne: "?sid \<noteq> []" and get: "outer (get_server ?P ?sid) s = (a, Inr server)"
    and upd: "outer (update_enabled ?P ?sid False) a = (b, Inr ())"
    and forget: "outer (forget_cached_tools ?P ?sid) (clear_last_error ?sid (fst (disconnect (store_env R) ?sid b))) = (s1, Inr removed)"
    by (rule set_enabled_off [OF assms(3)])
  obtain c was where dis: "disconnect (store_env R) ?sid b = (c, was)" by fastforce
  note down = disconnect_effect [OF dis assms(2)]
  from get have found: "docs (outside a) = docs (outside s)"
    and "\<exists>v. docs (outside s) servers_coll k = Some v \<and> decode_server ?P (v_doc v) = Inr server"
    using get_server_reads [OF assms(1) _ assms(4)] by (auto simp: outer_Inr)
  then obtain v where v: "docs (outside a) servers_coll k = Some v" by auto
  have "\<forall>d. doc_ok d \<longrightarrow> doc_ok (d\<lparr>sd_enabled := False\<rparr>)" by (simp add: doc_ok_def)
  moreover have "update_server ?P ''updating a server's enabled flag'' ?sid (\<lambda>d. d\<lparr>sd_enabled := False\<rparr>) (outside a) = (outside b, Inr ())"
    using upd by (simp add: outer_Inr update_enabled_def)
  ultimately have "\<exists>d n. dec_server_doc (enc_server_doc (d\<lparr>sd_enabled := False\<rparr>)) = Some (d\<lparr>sd_enabled := False\<rparr>) \<and>
      docs (outside b) servers_coll k = Some \<lparr>v_doc = enc_server_doc (d\<lparr>sd_enabled := False\<rparr>), v_version = n\<rparr>"
    using update_server_row [OF assms(1,4)] v by fastforce
  then obtain d n where row: "dec_server_doc (enc_server_doc (d\<lparr>sd_enabled := False\<rparr>)) = Some (d\<lparr>sd_enabled := False\<rparr>)"
    "docs (outside b) servers_coll k = Some \<lparr>v_doc = enc_server_doc (d\<lparr>sd_enabled := False\<rparr>), v_version = n\<rparr>" by blast
  have s1: "docs (outside s1) = (docs (outside b))(tool_cache_coll := (docs (outside b) tool_cache_coll)(k := None))"
    "live s1 = live c" "conn_failures s1 = (conn_failures c)(?sid := None)"
    using forget_cached_tools_lawful [OF assms(1) _ assms(4), of "outside c" "outside s1" removed] down(3)
      outer_frame [OF forget] forget
    by (simp_all add: dis outer_Inr clear_last_error_def)
  have off: "docs (outside s1) servers_coll k = Some \<lparr>v_doc = enc_server_doc (d\<lparr>sd_enabled := False\<rparr>), v_version = n\<rparr>"
    "decode_server ?P (enc_server_doc (d\<lparr>sd_enabled := False\<rparr>)) = Inr (decode (d\<lparr>sd_enabled := False\<rparr>))"
    "\<not> enabled (decode (d\<lparr>sd_enabled := False\<rparr>))"
    using s1(1) row by (simp_all add: decode_server_def decode_def)
  obtain e r where again: "outer (get_server ?P ?sid) s2 = (e, r)" by fastforce
  have refuse: "(\<exists>err. outcome = Inl err) \<and> live s3 = live s2 \<and> conn_failures s3 = conn_failures s2"
  proof (cases r)
    case (Inl err)
    then show ?thesis using assms(6) ne again
      by (auto simp: registry_connect_def require_non_empty_def outer_def split: prod.splits)
  next
    case (Inr server')
    then have "get_server ?P ?sid (outside s2) = (outside e, Inr server')" "e = s2\<lparr>outside := outside e\<rparr>"
      using again by (simp_all add: outer_Inr)
    from get_server_reads [OF assms(1) this(1) assms(4)] off assms(5) have "\<not> enabled server'" by auto
    then show ?thesis using assms(6) ne again Inr outer_frame [OF again]
      by (auto simp: registry_connect_def require_non_empty_def)
  qed
  from refuse s1 off down show ?thesis by (simp add: is_connected_def)
qed

text \<open>A registry over the memory ports whose network answers nothing.\<close>

definition dead_network :: "(nat, mem, unit) env" where
  "dead_network = \<lparr>
     env_list_servers = \<lambda>n. Inr [], env_get_server = \<lambda>sid n. Inl (UnknownServer sid),
     env_load_env = \<lambda>sid n. Inr [], env_is_catalog = \<lambda>sid n. Inr False, env_validate = \<lambda>c a. Inr (),
     env_touch = \<lambda>sid n. n, env_put_tools = \<lambda>s ts n. n, env_refresh = \<lambda>sid n. n, env_parse_url = \<lambda>u. None,
     env_guard = \<lambda>u n. (n, Inl MissingAuthChallenge), env_resolve = \<lambda>u n. (n, None),
     env_spawn = \<lambda>i c a v n. (n, Inl MissingAuthChallenge),
     env_http = \<lambda>i u a p n. (n, Inl MissingAuthChallenge),
     env_list_tools = \<lambda>c n. (n, Inr []), env_timed_list = \<lambda>c d n. (n, ListLate),
     env_instructions = \<lambda>c n. (n, None), env_call_tool = \<lambda>c t a n. (n, Inr JNull), env_close = \<lambda>c n. n\<rparr>"

definition sample_registry :: "(nat, mem, unit) registry" where
  "sample_registry = \<lparr>rg_ports = memory_ports, rg_cache_key = ''k'', rg_network = dead_network,
     rg_flow = oauth_flow_new, rg_sign_in = undefined, rg_identity = (),
     rg_catalog = (\<lambda>source name n. (n, Inl (UnknownServer name))), rg_uuid = (\<lambda>n. (n, ''u'')),
     rg_parse_full = (\<lambda>_. None), rg_parse_ip = (\<lambda>_. None), rg_resource = (\<lambda>c u n. (n, Inr []))\<rparr>"

definition sample_state :: "(nat, mem) connections" where
  "sample_state = \<lparr>live = [''a'' \<mapsto> \<lparr>conn_client = 0, conn_tools = [], conn_tool_meta = Map.empty,
     conn_qualified_name = ''na'', conn_display_name = ''N'', conn_description = None, conn_instructions = None\<rparr>],
     conn_failures = Map.empty, outside = sample_store\<rparr>"

lemma sample_registry_simps [simp]:
  "rg_ports sample_registry = memory_ports" "rg_network sample_registry = dead_network"
  "rg_catalog sample_registry = (\<lambda>source name n. (n, Inl (UnknownServer name)))"
  by (simp_all add: sample_registry_def)

lemma memory_get_keeps: "fst (get_server memory_ports sid m) = m"
  by (cases "key memory_ports [sid]")
    (simp_all add: get_server_def find_server_def, simp add: memory_ports_def split: option.split sum.split add: sbind_def)

lemma sample_disable:
  "\<exists>s1. set_enabled sample_registry '' a'' False sample_state = (s1, Inr ())"
proof -
  have sid: "trim '' a'' = ''a''" by code_simp
  have "snd (get_server memory_ports ''a'' sample_store) = Inr (sample_install ''a'')" by code_simp
  then have get: "\<exists>x. get_server memory_ports ''a'' sample_store = (sample_store, Inr x)"
    using memory_get_keeps [of "''a''" sample_store] by (metis prod.collapse)
  have "snd (update_enabled memory_ports ''a'' False sample_store) = Inr ()" by code_simp
  then obtain m where upd: "update_enabled memory_ports ''a'' False sample_store = (m, Inr ())" by (metis prod.collapse)
  have forget: "\<exists>x y. forget_cached_tools memory_ports ''a'' n = (x, Inr y)" for n
  proof -
    have "key memory_ports [''a''] = Inr ''a''" by code_simp
    then show ?thesis by (simp add: forget_cached_tools_def) (simp add: memory_ports_def)
  qed
  obtain c was where dis: "disconnect (store_env sample_registry) ''a'' (sample_state\<lparr>outside := m\<rparr>) = (c, was)" by fastforce
  from get obtain x where x: "get_server memory_ports ''a'' sample_store = (sample_store, Inr x)" by blast
  from forget [of "outside (clear_last_error ''a'' c)"] obtain p q where
    f: "forget_cached_tools memory_ports ''a'' (outside (clear_last_error ''a'' c)) = (p, Inr q)" by blast
  have st: "outside sample_state = sample_store" by (simp add: sample_state_def)
  show ?thesis
    by (simp add: set_enabled_def require_non_empty_def sid outer_def st x upd dis f Let_def)
qed

theorem disabled_stays_down_witness:
  "\<exists>s1 err. set_enabled sample_registry '' a'' False sample_state = (s1, Inr ()) \<and>
     snd (registry_connect sample_registry '' a'' s1) = Inl err \<and> \<not> is_connected s1 ''a''"
proof -
  obtain s1 where off: "set_enabled sample_registry '' a'' False sample_state = (s1, Inr ())" using sample_disable by blast
  obtain s3 r where con: "registry_connect sample_registry '' a'' s1 = (s3, r)" by fastforce
  have law: "lawful_ports (rg_ports sample_registry) mem_docs mem_next" "quiet_close (rg_network sample_registry) mem_docs"
    by (simp_all add: memory_lawful quiet_close_def dead_network_def)
  have sid: "trim '' a'' = ''a''" by code_simp
  have "key memory_ports [''a''] = Inr ''a''" by code_simp
  then have k: "key (rg_ports sample_registry) [trim '' a''] = Inr ''a''" by (simp add: sid)
  from disabled_stays_down [OF law off k refl con] off con show ?thesis by (auto simp: sid)
qed

section \<open>Credentials\<close>

text \<open>The JSON library prints a credential map so that it reads back, and only the empty one as an
  empty object.\<close>

definition faithful_json :: "'n storage_ports \<Rightarrow> bool" where
  "faithful_json P \<longleftrightarrow> (\<forall>m. sp_parse_json P (sp_print_json P (enc_env m)) = Inr (enc_env m) \<and>
     (sp_print_json P (enc_env m) = ''{}'' \<longleftrightarrow> m = []))"

definition stored_credentials :: "'n storage_ports \<Rightarrow> string option \<Rightarrow> (string, string) btree option" where
  "stored_credentials P secret = (case secret of None \<Rightarrow> Some []
     | Some x \<Rightarrow> Option.bind (ok (sp_parse_json P x)) dec_env)"

lemma dec_enc_env [simp]: "dec_env (enc_env m) = Some m"
proof -
  have "map (\<lambda>(k, v). map_option (Pair k) (as_str v)) (map (\<lambda>(k, v). (k, JStr v)) m) = map (\<lambda>x. Some (id x)) m"
    by (induction m) auto
  then show ?thesis unfolding dec_env_def enc_env_def by (simp only: as_object_simps option.case all_some_map_Some) simp
qed

lemma load_env_reads:
  assumes "lawful_store P docs vtop secrets" "load_env_values P sid n = (n', Inr m)"
  shows "secrets n' = secrets n \<and> docs n' = docs n \<and> stored_credentials P (secrets n (env_secret_name sid)) = Some m"
proof -
  obtain n1 r where get: "sp_secret_get P (env_secret_name sid) n = (n1, r)" by fastforce
  from assms(2) obtain x where r: "r = Inr x" and n': "n' = n1"
    by (cases r) (auto simp: load_env_values_def get)
  have "secrets n1 = secrets n" "x = secrets n (env_secret_name sid)"
    using assms(1) get r by (auto simp: lawful_store_def dest: secret_readsD)
  moreover have "docs n1 = docs n" using assms(1) get by (simp add: lawful_store_def) (metis fst_conv)
  ultimately show ?thesis
    using assms(2) by (auto simp: load_env_values_def get r stored_credentials_def split: option.splits sum.splits)
qed

lemma set_env_writes:
  assumes "lawful_store P docs vtop secrets" "faithful_json P" "set_env_values P sid m n = (n', Inr ())"
  shows "docs n' = docs n \<and> stored_credentials P (secrets n' (env_secret_name sid)) = Some m"
proof -
  have S: "lawful_secrets P docs secrets" using assms(1) by (simp add: lawful_store_def)
  show ?thesis
  proof (cases "m = []")
    case True
    then have empty: "sp_print_json P (enc_env m) = ''{}''" using assms(2) by (simp add: faithful_json_def)
    obtain n1 r where del: "sp_secret_delete P (env_secret_name sid) n = (n1, r)" by fastforce
    from assms(3) empty obtain x where "r = Inr x" "n' = n1" by (cases r) (auto simp: set_env_values_def Let_def del)
    with lawful_secret_delete [OF S del] True show ?thesis by (simp add: stored_credentials_def)
  next
    case False
    then have full: "sp_print_json P (enc_env m) \<noteq> ''{}''" using assms(2) by (simp add: faithful_json_def)
    then have put: "sp_secret_set P (env_secret_name sid) (sp_print_json P (enc_env m)) n = (n', Inr ())"
      using assms(3) by (simp add: set_env_values_def Let_def)
    have "docs n' = docs n \<and> secrets n' = (secrets n)(env_secret_name sid \<mapsto> sp_print_json P (enc_env m))"
      using S put by (auto simp: lawful_secrets_def split: sum.splits)
    then show ?thesis using assms(2) by (simp add: stored_credentials_def faithful_json_def)
  qed
qed

lemma repo_update_secrets:
  assumes "lawful_store P docs vtop secrets"
  shows "secrets (fst (repo_update attempts P coll dec enc i f s)) = secrets s"
proof (induction attempts arbitrary: s)
  case (Suc attempts)
  obtain s1 r where get: "sp_get P coll i s = (s1, r)" by fastforce
  have s1: "secrets s1 = secrets s"
    using assms get lawful_secrets_frame(1) by (auto simp: lawful_store_def)
  have put: "sp_put P coll i d p s1 = (x, q) \<Longrightarrow> secrets x = secrets s" for d p x q
    using assms s1 by (simp add: lawful_store_def) (metis fst_conv)
  show ?case
    by (cases r) (auto simp: get s1 Suc.IH split: option.split sum.split prod.split storage_error.split dest: put)
qed simp

lemma update_server_secrets:
  assumes "lawful_store P docs vtop secrets" "update_server P action sid change n = (n', r)"
  shows "secrets n' = secrets n"
proof (cases "key P [sid]")
  case (Inr k)
  obtain m q where run: "repo_update retry_attempts P servers_coll (\<lambda>j. ok_or (sp_shape_error P j) (dec_server_doc j))
      enc_server_doc k (\<lambda>current. Inr (map_option change current)) n = (m, q)" by fastforce
  have "secrets m = secrets n" using repo_update_secrets [OF assms(1)] run by (metis fst_conv)
  with assms(2) run Inr show ?thesis by (cases q) (auto simp: update_server_def)
qed (use assms(2) in \<open>simp add: update_server_def\<close>)

lemma forget_secrets:
  "lawful_store P docs vtop secrets \<Longrightarrow> forget_cached_tools P sid n = (n', r) \<Longrightarrow> secrets n' = secrets n"
  using lawful_secrets_frame(2) [of P docs secrets]
  by (cases "key P [sid]") (auto simp: forget_cached_tools_def at_port_def lawful_store_def split: prod.splits sum.splits)

lemma refresh_credentials_stores:
  assumes "lawful_store (rg_ports R) docs vtop secrets" "faithful_json (rg_ports R)" "env \<noteq> []"
    and "refresh_credentials R existing env s = (s', Inr server)"
  shows "\<exists>stored. stored_credentials (rg_ports R) (secrets (outside s) (env_secret_name (server_id existing))) = Some stored \<and>
    stored_credentials (rg_ports R) (secrets (outside s') (env_secret_name (server_id existing))) = Some (bt_extend stored env) \<and>
    server = existing\<lparr>env_keys := bt_keys (bt_extend stored env)\<rparr>"
proof -
  let ?P = "rg_ports R" and ?sid = "server_id existing"
  obtain a r where load: "outer (load_env_values ?P ?sid) s = (a, r)" by fastforce
  from assms(3,4) obtain stored where r: "r = Inr stored" by (cases r) (auto simp: refresh_credentials_def load)
  let ?merged = "bt_extend stored env" and ?changed = "list_ex (\<lambda>(k, v). bt_get stored k \<noteq> Some v) env"
  obtain b u where set: "outer (set_env_values ?P ?sid ?merged) a = (b, u)" by fastforce
  from assms(3,4) have u: "u = Inr ()" by (cases u) (auto simp: refresh_credentials_def load r set)
  define mid where "mid = (if ?changed then sbind (outer (forget_cached_tools ?P ?sid) b) (\<lambda>_ s. (s, Inr ())) else (b, Inr ()))"
  obtain c w where c: "mid = (c, w)" by fastforce
  have rest: "sbind mid (\<lambda>_ s. if env_keys existing \<noteq> bt_keys ?merged
        then sbind (outer (update_env_keys ?P ?sid (bt_keys ?merged)) s) (\<lambda>_ s. (s, Inr (existing\<lparr>env_keys := bt_keys ?merged\<rparr>)))
        else (s, Inr existing)) = (s', Inr server)"
    using assms(3,4) by (simp add: refresh_credentials_def load r set u mid_def Let_def)
  have w: "w = Inr ()" using rest by (cases w) (auto simp: c)
  have sc: "secrets (outside c) = secrets (outside b)"
    using c forget_secrets [OF assms(1)] w
    by (auto simp: mid_def sbind_eq_Inr outer_Inr split: if_splits)
  have s': "secrets (outside s') = secrets (outside c) \<and> server = existing\<lparr>env_keys := bt_keys ?merged\<rparr>"
    using rest update_server_secrets [OF assms(1)]
    by (auto simp: c w sbind_eq_Inr outer_Inr update_env_keys_def split: if_splits)
  have "secrets (outside a) = secrets (outside s) \<and> stored_credentials ?P (secrets (outside s) (env_secret_name ?sid)) = Some stored"
    using load_env_reads [OF assms(1), of ?sid "outside s" "outside a" stored] load r by (simp add: outer_Inr)
  moreover have "stored_credentials ?P (secrets (outside b) (env_secret_name ?sid)) = Some ?merged"
    using set_env_writes [OF assms(1,2), of ?sid ?merged "outside a" "outside b"] set u by (simp add: outer_Inr)
  ultimately show ?thesis using sc s' by auto
qed

lemma find_by_name_secrets:
  "lawful_store P docs vtop secrets \<Longrightarrow> find_server_by_qualified_name P name n = (n', r) \<Longrightarrow> secrets n' = secrets n"
proof -
  assume S: "lawful_store P docs vtop secrets" and run: "find_server_by_qualified_name P name n = (n', r)"
  let ?q = "\<lparr>q_filter = FieldEq ''qualified_name'' name, q_sort = [(''installed_ms'', True)], q_limit = Some 1\<rparr>"
  obtain m q where query: "sp_query P servers_coll ?q n = (m, q)" by fastforce
  have "secrets m = secrets n" using S query by (simp add: lawful_store_def) (metis fst_conv)
  with run query show "secrets n' = secrets n" by (cases q) (auto simp: find_server_by_qualified_name_def)
qed


text \<open>Memory ports that print a credential map as its keys and values, escaped and separated.\<close>

definition plain_print :: "json \<Rightarrow> string" where
  "plain_print j = (case as_object j of None \<Rightarrow> [] | Some m \<Rightarrow>
     if m = [] then ''{}''
     else CHR ''~'' # encode_parts (concat (map (\<lambda>(k, v). [k, case as_str v of None \<Rightarrow> [] | Some x \<Rightarrow> x]) m)))"

fun pair_up :: "string list \<Rightarrow> (string \<times> json) list" where
  "pair_up (k # x # rest) = (k, JStr x) # pair_up rest"
| "pair_up _ = []"

definition plain_parse :: "string \<Rightarrow> source_error + json" where
  "plain_parse s = Inr (JObj (if s = ''{}'' then [] else pair_up (decode_parts (tl s))))"

definition plain_ports :: "mem storage_ports" where
  "plain_ports = memory_ports\<lparr>sp_print_json := plain_print, sp_parse_json := plain_parse\<rparr>"

lemma plain_faithful: "faithful_json plain_ports"
proof -
  have pairs: "pair_up (concat (map ((\<lambda>(k, v). [k, case as_str v of None \<Rightarrow> [] | Some x \<Rightarrow> x]) \<circ> (\<lambda>(k, v). (k, JStr v))) m)) =
      map (\<lambda>(k, v). (k, JStr v)) m" for m by (induction m) auto
  have ne: "concat (map ((\<lambda>(k, v). [k, case as_str v of None \<Rightarrow> [] | Some x \<Rightarrow> x]) \<circ> (\<lambda>(k, v). (k, JStr v))) m) \<noteq> []"
    if "m \<noteq> []" for m using that by (cases m) auto
  show ?thesis unfolding faithful_json_def
  proof (intro allI conjI)
    fix m :: "(string, string) btree"
    show "sp_parse_json plain_ports (sp_print_json plain_ports (enc_env m)) = Inr (enc_env m)"
      by (cases "m = []") (simp_all add: plain_ports_def plain_print_def plain_parse_def enc_env_def decode_encode_parts [OF ne] pairs)
    show "(sp_print_json plain_ports (enc_env m) = ''{}'') = (m = [])"
      by (simp add: plain_ports_def plain_print_def enc_env_def)
  qed
qed

lemma plain_simps:
  "sp_get plain_ports = sp_get memory_ports" "sp_put plain_ports = sp_put memory_ports"
  "sp_delete plain_ports = sp_delete memory_ports" "sp_query plain_ports = sp_query memory_ports"
  "sp_now_ms plain_ports = sp_now_ms memory_ports" "sp_secret_get plain_ports = sp_secret_get memory_ports"
  "sp_secret_set plain_ports = sp_secret_set memory_ports" "sp_secret_delete plain_ports = sp_secret_delete memory_ports"
  by (simp_all add: plain_ports_def)

lemma plain_lawful: "lawful_store plain_ports mem_docs mem_next mem_secrets"
proof -
  have "lawful_ports plain_ports mem_docs mem_next"
    using memory_lawful unfolding lawful_ports_def plain_simps .
  moreover have "lawful_secrets plain_ports mem_docs mem_secrets"
    using memory_secrets unfolding lawful_secrets_def plain_simps .
  moreover have "secret_reads plain_ports mem_secrets"
    unfolding secret_reads_def plain_simps by (simp add: memory_ports_def)
  moreover have "mem_docs (fst (sp_secret_get plain_ports n s)) = mem_docs s"
    "mem_secrets (fst (sp_put plain_ports c i d p s)) = mem_secrets s"
    "mem_secrets (fst (sp_query plain_ports c q s)) = mem_secrets s"
    "mem_secrets (fst (sp_now_ms plain_ports s)) = mem_secrets s" for n c i d p q s
    unfolding plain_simps by (simp_all add: memory_ports_def)
  ultimately show ?thesis by (simp add: lawful_store_def)
qed

text \<open>An install of \<open>q/n\<close> that has a key \<open>B\<close> stored.\<close>

definition held_install :: installed_server where
  "held_install = (sample_install ''a'')\<lparr>qualified_name := ''q/n'', env_keys := [''B'']\<rparr>"

definition held_store :: mem where
  "held_store = \<lparr>mem_secrets = [env_secret_name ''a'' \<mapsto> plain_print (enc_env [(''B'', ''1'')])],
     mem_rows = (\<lambda>_. [])(servers_coll := [(''a'', \<lparr>v_doc = enc_server_doc (encode held_install True), v_version = 1\<rparr>)]),
     mem_next = 4, mem_now = 0\<rparr>"

definition held_registry :: "(nat, mem, unit) registry" where
  "held_registry = sample_registry\<lparr>rg_ports := plain_ports\<rparr>"

definition held_state :: "(nat, mem) connections" where
  "held_state = \<lparr>live = Map.empty, conn_failures = Map.empty, outside = held_store\<rparr>"

lemma held_found:
  "find_server_by_qualified_name plain_ports ''q/n'' held_store = (held_store, Inr (Some held_install))"
proof -
  have "snd (find_server_by_qualified_name plain_ports ''q/n'' held_store) = Inr (Some held_install)" by code_simp
  moreover have "fst (find_server_by_qualified_name plain_ports ''q/n'' m) = m" for m
    unfolding find_server_by_qualified_name_def plain_simps by (simp add: memory_ports_def)
  ultimately show ?thesis by (metis prod.collapse)
qed

lemma held_runs: "\<exists>s' outcome. install held_registry ''q/n'' [(''A'', ''2'')] None held_state = (s', Inr outcome)"
proof -
  define merged where "merged = [(''A'', ''2''), (''B'', ''1'')]"
  define m1 where "m1 = fst (set_env_values plain_ports ''a'' merged held_store)"
  define m2 where "m2 = fst (forget_cached_tools plain_ports ''a'' m1)"
  define m3 where "m3 = fst (update_env_keys plain_ports ''a'' (bt_keys merged) m2)"
  have "snd (load_env_values plain_ports ''a'' held_store) = Inr [(''B'', ''1'')]" by code_simp
  moreover have "fst (load_env_values plain_ports ''a'' m) = m" for m
    unfolding load_env_values_def plain_simps by (simp add: memory_ports_def)
  ultimately have load: "load_env_values plain_ports ''a'' held_store = (held_store, Inr [(''B'', ''1'')])"
    by (metis prod.collapse)
  have "snd (set_env_values plain_ports ''a'' merged held_store) = Inr ()" unfolding merged_def by code_simp
  then have set: "set_env_values plain_ports ''a'' merged held_store = (m1, Inr ())" by (metis m1_def prod.collapse)
  have "snd (forget_cached_tools plain_ports ''a'' m1) = Inr False" unfolding m1_def merged_def by code_simp
  then have forget: "forget_cached_tools plain_ports ''a'' m1 = (m2, Inr False)" by (metis m2_def prod.collapse)
  have "snd (update_env_keys plain_ports ''a'' (bt_keys merged) m2) = Inr ()" unfolding m2_def m1_def merged_def by code_simp
  then have names: "update_env_keys plain_ports ''a'' (bt_keys merged) m2 = (m3, Inr ())" by (metis m3_def prod.collapse)
  have ext: "bt_extend [(''B'', ''1'')] [(''A'', ''2'')] = merged" unfolding merged_def by code_simp
  have held: "server_id held_install = ''a''" "outside held_state = held_store" "rg_ports held_registry = plain_ports"
    "trim ''q/n'' = ''q/n''" "split_routing_name ''q/n'' = (source_mcp_official, ''q/n'')"
    by (simp_all add: held_install_def sample_install_def held_state_def held_registry_def) code_simp+
  have "\<exists>s' server. refresh_credentials held_registry held_install [(''A'', ''2'')] (held_state\<lparr>outside := held_store\<rparr>) = (s', Inr server)"
    by (simp add: refresh_credentials_def held outer_def load ext set forget names Let_def)
  then obtain s1 server where cred: "refresh_credentials held_registry held_install [(''A'', ''2'')] (held_state\<lparr>outside := held_store\<rparr>) = (s1, Inr server)"
    by blast
  have found: "outer (find_server_by_qualified_name plain_ports ''q/n'') held_state = (held_state\<lparr>outside := held_store\<rparr>, Inr (Some held_install))"
    by (simp add: outer_def held held_found)
  show ?thesis
    by (simp add: install_def require_non_empty_def held found refresh_install_def cred Let_def)
qed


section \<open>Where the order of the writes shows\<close>

lemma load_env_error: "load_env_values P sid n = (n', Inl err) \<Longrightarrow> err \<noteq> UnknownServer x"
  by (cases "sp_secret_get P (env_secret_name sid) n"; cases "snd (sp_secret_get P (env_secret_name sid) n)")
    (auto simp: load_env_values_def ok_or_def split: option.splits sum.splits)

lemma set_env_error: "set_env_values P sid m n = (n', Inl err) \<Longrightarrow> err \<noteq> UnknownServer x"
  by (auto simp: set_env_values_def Let_def at_port_def sbind_def split: prod.splits sum.splits if_splits)

lemma key_error: "key P parts = Inl err \<Longrightarrow> err \<noteq> UnknownServer x"
  by (auto simp: key_def split: sum.splits)

lemma forget_error: "forget_cached_tools P sid n = (n', Inl err) \<Longrightarrow> err \<noteq> UnknownServer x"
  using key_error [of P "[sid]" err x]
  by (cases "key P [sid]") (auto simp: forget_cached_tools_def at_port_def split: prod.splits sum.splits)

lemma update_server_error: "update_server P action sid change n = (n', Inl err) \<Longrightarrow> err \<noteq> UnknownServer x"
  using key_error [of P "[sid]" err x]
  by (cases "key P [sid]") (auto simp: update_server_def at_port_def sbind_def split: prod.splits sum.splits)

lemma outer_Inl: "outer f s = (s', Inl e) \<Longrightarrow> f (outside s) = (outside s', Inl e)"
  by (cases "f (outside s)") (auto simp: outer_def)

lemma get_server_secrets:
  assumes "lawful_store P docs vtop secrets" "get_server P sid n = (n', r)"
  shows "secrets n' = secrets n"
proof (cases "key P [sid]")
  case (Inr k)
  obtain m q where get: "sp_get P servers_coll k n = (m, q)" by fastforce
  have "secrets m = secrets n" using assms(1) get lawful_secrets_frame(1) by (auto simp: lawful_store_def)
  with assms(2) get Inr show ?thesis
    by (cases q) (auto simp: get_server_def find_server_def sbind_def split: prod.splits sum.splits option.splits)
qed (use assms(2) in \<open>simp add: get_server_def find_server_def\<close>)


text \<open>An identifier that names no install, given a credential.\<close>

definition empty_state :: "(nat, mem) connections" where
  "empty_state = \<lparr>live = Map.empty, conn_failures = Map.empty, outside = empty_mem\<rparr>"

lemma unknown_update_runs:
  "\<exists>s'. update_env held_registry ''x'' [(''K'', ''v'')] empty_state = (s', Inl (UnknownServer ''x''))"
proof -
  define m1 where "m1 = fst (set_env_values plain_ports ''x'' [(''K'', ''v'')] empty_mem)"
  define m2 where "m2 = fst (forget_cached_tools plain_ports ''x'' m1)"
  have "snd (load_env_values plain_ports ''x'' empty_mem) = Inr []" by code_simp
  moreover have "fst (load_env_values plain_ports ''x'' m) = m" for m
    unfolding load_env_values_def plain_simps by (simp add: memory_ports_def)
  ultimately have load: "load_env_values plain_ports ''x'' empty_mem = (empty_mem, Inr [])" by (metis prod.collapse)
  have "snd (set_env_values plain_ports ''x'' [(''K'', ''v'')] empty_mem) = Inr ()" by code_simp
  then have set: "set_env_values plain_ports ''x'' [(''K'', ''v'')] empty_mem = (m1, Inr ())" by (metis m1_def prod.collapse)
  have "snd (forget_cached_tools plain_ports ''x'' m1) = Inr False" unfolding m1_def by code_simp
  then have forget: "forget_cached_tools plain_ports ''x'' m1 = (m2, Inr False)" by (metis m2_def prod.collapse)
  have "snd (get_server plain_ports ''x'' m2) = Inl (UnknownServer ''x'')" unfolding m2_def m1_def by code_simp
  then obtain m3 where get: "get_server plain_ports ''x'' m2 = (m3, Inl (UnknownServer ''x''))" by (metis prod.collapse)
  have "bt_extend [] [(''K'', ''v'')] = [(''K'', ''v'')]" "trim ''x'' = ''x''" by code_simp+
  then show ?thesis
    by (simp add: update_env_def require_non_empty_def held_registry_def empty_state_def outer_def load set forget get
        disconnect_def Let_def)
qed


text \<open>
  C40. The guided install spends the user's answers before it knows whether it can use them: when
  the handles resolve and the install then fails, every handle it named is gone from the vault
  all the same, so the answers have to be given again.
\<close>

theorem setup_spends_handles_first:
  assumes "consume now handles v = (v', Inr values)"
    and "setup_install_and_connect R now raw handles config (v, s) = ((v'', s'), Inl err)"
  shows "v'' = v' \<and> (\<forall>(name, h) \<in> set handles. value_at v'' h = None) \<and>
    snd (install R raw (bt_of_list values) config s) = Inl err"
proof -
  obtain w r where run: "resolve_locked now handles v = (w, r)" by fastforce
  have "value_at v' h = None" if "(name, h) \<in> set handles" for name h
    using assms(1) run that by (cases r) (force simp: consume_def value_at_def restrict_map_def)+
  moreover obtain s1 q where inst: "install R raw (bt_of_list values) config s = (s1, q)" by fastforce
  moreover have "connect_or_empty R sid s1 \<noteq> (s2, Inl err)" for sid s2
    by (auto simp: connect_or_empty_def split: prod.splits sum.splits)
  ultimately show ?thesis
    using assms by (cases q) (auto simp: setup_install_and_connect_def Let_def split: prod.splits)
qed

theorem setup_spends_handles_first_witness:
  fixes h v defines "h \<equiv> SecretRef ''s''"
    and "v \<equiv> [SecretRef ''s'' \<mapsto> \<lparr>se_key_name = ''K'', se_value = Some ''pw'', se_touched = 0, se_waiting = False\<rparr>]"
  shows "\<exists>v' s' err. setup_install_and_connect sample_registry 1 ''q/n'' [(''K'', h)] None (v, empty_state) = ((v', s'), Inl err) \<and>
    value_at v h = Some (Some ''pw'') \<and> value_at v' h = None"
proof -
  obtain c where answers: "consume 1 [(''K'', h)] v = (c, Inr [(''K'', ''pw'')])"
    by (simp add: consume_def h_def v_def)
  have "trim ''q/n'' = ''q/n''" "split_routing_name ''q/n'' = (source_mcp_official, ''q/n'')" by code_simp+
  moreover have "\<exists>m. find_server_by_qualified_name memory_ports ''q/n'' empty_mem = (m, Inr None)"
  proof -
    have "snd (find_server_by_qualified_name memory_ports ''q/n'' empty_mem) = Inr None" by code_simp
    then show ?thesis by (metis prod.collapse)
  qed
  ultimately have "\<exists>s1 err. install sample_registry ''q/n'' (bt_of_list [(''K'', ''pw'')]) None empty_state = (s1, Inl err)"
    by (auto simp: install_def require_non_empty_def outer_def empty_state_def Let_def)
  then obtain s1 err where "setup_install_and_connect sample_registry 1 ''q/n'' [(''K'', h)] None (v, empty_state) =
      ((c, s1), Inl err)"
    using answers by (auto simp: setup_install_and_connect_def Let_def)
  from setup_spends_handles_first [OF answers this] this show ?thesis by (auto simp: value_at_def v_def h_def)
qed

end
