(* ===== verification/Server_Types.thy ===== *)
theory Server_Types
  imports Arguments Payloads
begin

text \<open>
  What the server side speaks of: \<open>tinymcp-bus/src/server/declarations.rs\<close> (error codes, tool
  call errors, the host's declarations, request headers and contexts) with the extensions in
  \<open>server/headers.rs\<close>, \<open>server/tool_spec.rs\<close> and \<open>server/resource_spec.rs\<close>; the provenance of a
  client session, \<open>server/session/mod.rs\<close>; and the validators of \<open>server/args/mod.rs\<close>.
\<close>

section \<open>Declarations\<close>

definition parse_error :: int where "parse_error = - 32700"
definition invalid_request :: int where "invalid_request = - 32600"
definition method_not_found :: int where "method_not_found = - 32601"
definition invalid_params :: int where "invalid_params = - 32602"
definition internal_error :: int where "internal_error = - 32603"
definition resource_not_found :: int where "resource_not_found = - 32002"

definition default_source_type_prefix :: string where "default_source_type_prefix = ''mcp''"

datatype tool_call_error =
    InvalidParams (call_message: string)
  | Internal (call_message: string)
  | ResourceNotFound (call_message: string)

fun call_code :: "tool_call_error \<Rightarrow> int" where
  "call_code (InvalidParams _) = invalid_params"
| "call_code (Internal _) = internal_error"
| "call_code (ResourceNotFound _) = resource_not_found"

fun jsonrpc_message :: "tool_call_error \<Rightarrow> string" where
  "jsonrpc_message (InvalidParams _) = ''Invalid params''"
| "jsonrpc_message (Internal _) = ''Internal error''"
| "jsonrpc_message (ResourceNotFound _) = ''Resource not found''"

record server_info =
  si_name :: string
  si_version :: string
  si_instructions :: "string option"

record server_tool_spec =
  ts_name :: string
  ts_title :: "string option"
  ts_description :: string
  ts_input_schema :: json
  ts_annotations :: "json option"

record resource_spec =
  rs_uri :: string
  rs_name :: string
  rs_description :: "string option"
  rs_mime_type :: "string option"

text \<open>An entry is built by inserting its fields into a map, the optional ones where present.\<close>

definition insert_some :: "string \<Rightarrow> 'a option \<Rightarrow> ('a \<Rightarrow> json) \<Rightarrow> (string, json) btree \<Rightarrow> (string, json) btree" where
  "insert_some k x enc m = (case x of None \<Rightarrow> m | Some a \<Rightarrow> bt_insert k (enc a) m)"

definition tool_to_json :: "server_tool_spec \<Rightarrow> json" where
  "tool_to_json t =
     (let m = bt_insert ''name'' (JStr (ts_name t)) [];
          m = insert_some ''title'' (ts_title t) JStr m;
          m = bt_insert ''description'' (JStr (ts_description t)) m;
          m = bt_insert ''inputSchema'' (ts_input_schema t) m
      in JObj (insert_some ''annotations'' (ts_annotations t) id m))"

definition resource_to_json :: "resource_spec \<Rightarrow> json" where
  "resource_to_json r =
     (let m = bt_insert ''name'' (JStr (rs_name r)) (bt_insert ''uri'' (JStr (rs_uri r)) []);
          m = insert_some ''description'' (rs_description r) JStr m
      in JObj (insert_some ''mimeType'' (rs_mime_type r) JStr m))"

definition dec_server_info :: "json \<Rightarrow> server_info option" where
  "dec_server_info j =
     Option.bind (required ''name'' as_str j) (\<lambda>name.
     Option.bind (required ''version'' as_str j) (\<lambda>version.
     Option.bind (optional ''instructions'' as_str j) (\<lambda>instructions.
       Some \<lparr>si_name = name, si_version = version, si_instructions = instructions\<rparr>)))"

definition dec_tool_spec :: "json \<Rightarrow> server_tool_spec option" where
  "dec_tool_spec j =
     Option.bind (required ''name'' as_str j) (\<lambda>name.
     Option.bind (optional ''title'' as_str j) (\<lambda>title.
     Option.bind (required ''description'' as_str j) (\<lambda>description.
     Option.bind (required ''inputSchema'' Some j) (\<lambda>schema.
     Option.bind (optional ''annotations'' Some j) (\<lambda>annotations.
       Some \<lparr>ts_name = name, ts_title = title, ts_description = description,
         ts_input_schema = schema, ts_annotations = annotations\<rparr>)))))"

definition dec_resource_spec :: "json \<Rightarrow> resource_spec option" where
  "dec_resource_spec j =
     Option.bind (required ''uri'' as_str j) (\<lambda>uri.
     Option.bind (required ''name'' as_str j) (\<lambda>name.
     Option.bind (optional ''description'' as_str j) (\<lambda>description.
     Option.bind (optional ''mimeType'' as_str j) (\<lambda>mime.
       Some \<lparr>rs_uri = uri, rs_name = name, rs_description = description, rs_mime_type = mime\<rparr>))))"

text \<open>Headers are kept under their lowercase names; the first value of a repeated header wins.\<close>

type_synonym request_headers = "(string, string) btree"

definition header_insert :: "string \<Rightarrow> string \<Rightarrow> request_headers \<Rightarrow> request_headers" where
  "header_insert name v hs =
     (case bt_get hs (lowercase name) of Some _ \<Rightarrow> hs | None \<Rightarrow> bt_insert (lowercase name) v hs)"

definition header_get :: "string \<Rightarrow> request_headers \<Rightarrow> string option" where
  "header_get name hs = bt_get hs (lowercase name)"

record request_context =
  rq_source_type :: string
  rq_headers_of :: request_headers

section \<open>Client provenance\<close>

record client_session =
  cs_prefix :: string
  cs_source :: "string option"
  cs_initialized :: bool
  cs_version :: "string option"

definition session_new :: "string \<Rightarrow> client_session" where
  "session_new p = \<lparr>cs_prefix = p, cs_source = None, cs_initialized = False, cs_version = None\<rparr>"

record session_metadata =
  sm_initialized :: bool
  sm_protocol_version :: "string option"

definition metadata :: "client_session \<Rightarrow> session_metadata" where
  "metadata s = \<lparr>sm_initialized = cs_initialized s, sm_protocol_version = cs_version s\<rparr>"

definition observe_initialize_response :: "string \<Rightarrow> client_session \<Rightarrow> client_session" where
  "observe_initialize_response version s = s\<lparr>cs_initialized := True, cs_version := Some version\<rparr>"

text \<open>Characters beyond ASCII are separators, so a run of their bytes leaves one hyphen as the
  run of characters does.\<close>

definition hyphen :: char where "hyphen = CHR ''-''"

fun client_slug :: "string \<Rightarrow> bool \<Rightarrow> string \<Rightarrow> string" where
  "client_slug out sep [] = out"
| "client_slug out sep (ch # rest) =
     (if is_alnum ch then client_slug (out @ [to_lower ch]) False rest
      else if out \<noteq> [] \<and> \<not> sep then client_slug (out @ [hyphen]) True rest
      else client_slug out sep rest)"

definition normalize_client_name :: "string \<Rightarrow> string option" where
  "normalize_client_name raw =
     (let normalized = rev (dropWhile (\<lambda>c. c = hyphen) (rev (client_slug [] False (trim raw))))
      in if normalized = [] then None else Some normalized)"

definition observe_initialize_params :: "json \<Rightarrow> client_session \<Rightarrow> client_session" where
  "observe_initialize_params params s = (case cs_source s of
     Some _ \<Rightarrow> s
   | None \<Rightarrow>
       (case Option.bind (jget ''clientInfo'' params) (\<lambda>info. Option.bind (jget ''name'' info)
               (\<lambda>name. Option.bind (as_str name) normalize_client_name)) of
          None \<Rightarrow> s\<lparr>cs_source := Some (cs_prefix s)\<rparr>
        | Some name \<Rightarrow> s\<lparr>cs_source := Some (cs_prefix s @ '':'' @ name)\<rparr>))"

definition source_type :: "client_session \<Rightarrow> string" where
  "source_type s = (case cs_source s of Some t \<Rightarrow> t | None \<Rightarrow> cs_prefix s)"

end
