(* ===== verification/Server_Args.thy ===== *)
theory Server_Args
  imports Server_Types
begin

text \<open>
  \<open>server/args/mod.rs\<close>: the validators of a tool call's arguments, with the list of rules a host
  may have the module apply (\<open>validate_server_arguments\<close> of \<open>tinybus_module/service.rs\<close>). What is
  accepted is settled: validating it again changes nothing.
\<close>

section \<open>Validators\<close>

type_synonym args = "(string, json) btree"

definition backtick :: string where "backtick = ''`''"

definition quoted :: "string \<Rightarrow> string" where "quoted s = backtick @ s @ backtick"

definition argument :: "string \<Rightarrow> string \<Rightarrow> tool_call_error" where
  "argument k what = InvalidParams (''argument '' @ quoted k @ what)"

definition missing :: "string \<Rightarrow> tool_call_error" where
  "missing k = InvalidParams (''missing required argument '' @ quoted k)"

fun json_type :: "json \<Rightarrow> string" where
  "json_type JNull = ''null''"
| "json_type (JBool _) = ''bool''"
| "json_type (JInt _) = ''number''"
| "json_type (JFloat _) = ''number''"
| "json_type (JStr _) = ''string''"
| "json_type (JArr _) = ''array''"
| "json_type (JObj _) = ''object''"

definition reject_unexpected_arguments :: "args \<Rightarrow> string list \<Rightarrow> tool_call_error + unit" where
  "reject_unexpected_arguments m allowed =
     (let unexpected = filter (\<lambda>k. k \<notin> set allowed) (bt_keys m)
      in if unexpected = [] then Inr ()
         else Inl (InvalidParams (''unexpected argument '' @ quoted (join ''`, `'' (sort unexpected)))))"

definition object_arguments :: "json \<Rightarrow> tool_call_error + args" where
  "object_arguments j = (case j of
     JNull \<Rightarrow> Inr []
   | JObj m \<Rightarrow> Inr m
   | other \<Rightarrow> Inl (InvalidParams (''tools/call arguments must be an object, got '' @ json_type other)))"

text \<open>The value at a key, null being absent.\<close>

definition arg_at :: "args \<Rightarrow> string \<Rightarrow> json option" where
  "arg_at m k = (case bt_get m k of Some JNull \<Rightarrow> None | v \<Rightarrow> v)"

definition required_non_empty_string :: "args \<Rightarrow> string \<Rightarrow> tool_call_error + string" where
  "required_non_empty_string m k =
     rbind (ok_or (missing k) (Option.bind (bt_get m k) as_str)) (\<lambda>raw.
       let trimmed = trim raw in
       if trimmed = [] then Inl (argument k '' must not be empty'') else Inr trimmed)"

definition optional_non_empty_string :: "args \<Rightarrow> string \<Rightarrow> tool_call_error + string option" where
  "optional_non_empty_string m k = (case arg_at m k of
     None \<Rightarrow> Inr None
   | Some v \<Rightarrow> (case as_str v of
       None \<Rightarrow> Inl (argument k '' must be a string'')
     | Some raw \<Rightarrow> let trimmed = trim raw in
         if trimmed = [] then Inl (argument k '' must not be empty when provided'')
         else Inr (Some trimmed)))"

fun string_entries :: "string \<Rightarrow> json list \<Rightarrow> string list \<Rightarrow> tool_call_error + string list" where
  "string_entries k [] out = Inr out"
| "string_entries k (item # items) out = (case as_str item of
     None \<Rightarrow> Inl (argument k ('' must contain only strings, got '' @ json_type item @ '' entry''))
   | Some raw \<Rightarrow> let trimmed = trim raw in
       if trimmed = [] then string_entries k items out
       else string_entries k items (out @ [trimmed]))"

definition optional_string_array :: "args \<Rightarrow> string \<Rightarrow> tool_call_error + string list option" where
  "optional_string_array m k = (case arg_at m k of
     None \<Rightarrow> Inr None
   | Some v \<Rightarrow> (case as_array v of
       None \<Rightarrow> Inl (argument k ('' must be an array of strings, got '' @ json_type v))
     | Some items \<Rightarrow> rbind (string_entries k items []) (\<lambda>out. Inr (Some out))))"

definition required_non_empty_string_array :: "args \<Rightarrow> string \<Rightarrow> tool_call_error + string list" where
  "required_non_empty_string_array m k =
     rbind (optional_string_array m k) (\<lambda>found.
     rbind (ok_or (missing k) found) (\<lambda>entries.
       if entries = [] then Inl (argument k '' must contain at least one non-empty string'')
       else Inr entries))"

definition optional_i64 :: "args \<Rightarrow> string \<Rightarrow> tool_call_error + int option" where
  "optional_i64 m k = (case arg_at m k of
     None \<Rightarrow> Inr None
   | Some v \<Rightarrow> rbind (ok_or (argument k '' must be an integer in the i64 range'') (as_i64 v)) (Inr \<circ> Some))"

definition optional_u64 :: "args \<Rightarrow> string \<Rightarrow> tool_call_error + u64 option" where
  "optional_u64 m k = (case arg_at m k of
     None \<Rightarrow> Inr None
   | Some v \<Rightarrow> rbind (ok_or (argument k '' must be a non-negative integer'') (as_u64 v)) (Inr \<circ> Some))"

definition bounded_positive :: "string \<Rightarrow> json \<Rightarrow> u64 \<Rightarrow> tool_call_error + u64" where
  "bounded_positive k v cap = (case as_u64 v of
     None \<Rightarrow> Inl (argument k '' must be a positive integer'')
   | Some number \<Rightarrow>
       if number = 0 then Inl (argument k '' must be greater than zero'')
       else if number > cap then Inl (argument k ('' must not exceed '' @ show_nat (unat cap) @
              '' (got '' @ show_nat (unat number) @ '')''))
       else Inr number)"

definition positive_u64_or_default :: "args \<Rightarrow> string \<Rightarrow> u64 \<Rightarrow> u64 \<Rightarrow> tool_call_error + u64" where
  "positive_u64_or_default m k fallback cap = (case bt_get m k of
     None \<Rightarrow> Inr fallback | Some v \<Rightarrow> bounded_positive k v cap)"

definition optional_positive_u64 :: "args \<Rightarrow> string \<Rightarrow> u64 \<Rightarrow> tool_call_error + u64 option" where
  "optional_positive_u64 m k cap = (case arg_at m k of
     None \<Rightarrow> Inr None | Some v \<Rightarrow> rbind (bounded_positive k v cap) (Inr \<circ> Some))"

section \<open>Rules\<close>

datatype argument_rule =
    RequiredNonEmptyString string
  | OptionalNonEmptyString string
  | RequiredNonEmptyStringArray string
  | OptionalPositiveU64 string u64

fun apply_rule :: "argument_rule \<Rightarrow> args \<Rightarrow> tool_call_error + args" where
  "apply_rule (RequiredNonEmptyString k) m =
     rbind (required_non_empty_string m k) (\<lambda>v. Inr (bt_insert k (JStr v) m))"
| "apply_rule (OptionalNonEmptyString k) m =
     rbind (optional_non_empty_string m k)
       (\<lambda>v. Inr (case v of None \<Rightarrow> m | Some v \<Rightarrow> bt_insert k (JStr v) m))"
| "apply_rule (RequiredNonEmptyStringArray k) m =
     rbind (required_non_empty_string_array m k) (\<lambda>vs. Inr (bt_insert k (JArr (map JStr vs)) m))"
| "apply_rule (OptionalPositiveU64 k cap) m =
     rbind (optional_positive_u64 m k cap) (\<lambda>_. Inr m)"

fun apply_rules :: "argument_rule list \<Rightarrow> args \<Rightarrow> tool_call_error + args" where
  "apply_rules [] m = Inr m"
| "apply_rules (r # rs) m = rbind (apply_rule r m) (apply_rules rs)"

definition validate_server_arguments :: "json \<Rightarrow> string list \<Rightarrow> argument_rule list \<Rightarrow> tool_call_error + args" where
  "validate_server_arguments arguments allowed rules =
     rbind (object_arguments arguments) (\<lambda>m.
     rbind (reject_unexpected_arguments m allowed) (\<lambda>_. apply_rules rules m))"

section \<open>What was accepted is settled\<close>

lemma bt_insert_same [simp]: "bt_wf m \<Longrightarrow> bt_get m k = Some v \<Longrightarrow> bt_insert k v m = m"
  by (rule bt_ext) (auto intro: inv_intros)

lemma keys_insert [simp]: "fst ` set (bt_insert k v m) = insert k (fst ` set m)"
  using set_bt_insert_keys [of k v m] by simp

lemma key_present: "bt_get m k = Some v \<Longrightarrow> insert k (fst ` set m) = fst ` set m"
  by (metis map_of_eq_None_iff insert_absorb option.distinct(1))

lemma arg_at_None: "arg_at m k = None \<longleftrightarrow> bt_get m k = None \<or> bt_get m k = Some JNull"
  by (auto simp: arg_at_def split: option.splits json.splits)

lemma arg_at_Some: "arg_at m k = Some v \<longleftrightarrow> bt_get m k = Some v \<and> v \<noteq> JNull"
  by (auto simp: arg_at_def split: option.splits json.splits)

lemmas validator_defs = required_non_empty_string_def optional_non_empty_string_def
  optional_string_array_def required_non_empty_string_array_def optional_positive_u64_def
  ok_or_def Let_def

text \<open>Entries are appended trimmed, blanks left out: reading them again appends them as they are.\<close>

lemma string_entries_trimmed:
  "string_entries k items out = Inr vs \<Longrightarrow>
   \<exists>vs'. vs = out @ vs' \<and> (\<forall>v \<in> set vs'. trim v = v \<and> v \<noteq> [])"
proof (induction k items out rule: string_entries.induct)
  case (2 k item items out)
  then show ?case by (cases item) (fastforce simp: Let_def split: if_splits)+
qed simp

lemma string_entries_fixed:
  "\<forall>v \<in> set vs. trim v = v \<and> v \<noteq> [] \<Longrightarrow> string_entries k (map JStr vs) out = Inr (out @ vs)"
  by (induction vs arbitrary: out) (auto simp: Let_def)

lemma string_fixed:
  assumes "bt_get m k = Some (JStr v)" "trim v = v" "v \<noteq> []"
  shows "required_non_empty_string m k = Inr v" "optional_non_empty_string m k = Inr (Some v)"
  using assms by (simp_all add: validator_defs arg_at_def)

fun rule_key :: "argument_rule \<Rightarrow> string" where
  "rule_key (RequiredNonEmptyString k) = k"
| "rule_key (OptionalNonEmptyString k) = k"
| "rule_key (RequiredNonEmptyStringArray k) = k"
| "rule_key (OptionalPositiveU64 k _) = k"

lemma apply_rule_frame:
  "apply_rule r m = Inr m' \<Longrightarrow> bt_wf m \<Longrightarrow> bt_wf m' \<and> (\<forall>k. k \<noteq> rule_key r \<longrightarrow> bt_get m' k = bt_get m k)"
  by (cases r) (auto simp: rbind_eq_Inr intro: inv_intros split: option.splits)

text \<open>What a rule leaves at its key: nothing to say of it again.\<close>

definition clean :: "string \<Rightarrow> bool" where "clean v = (trim v = v \<and> v \<noteq> [])"

fun settled :: "argument_rule \<Rightarrow> json option \<Rightarrow> bool" where
  "settled (RequiredNonEmptyString _) x = (\<exists>v. x = Some (JStr v) \<and> clean v)"
| "settled (OptionalNonEmptyString _) x =
     (x = None \<or> x = Some JNull \<or> (\<exists>v. x = Some (JStr v) \<and> clean v))"
| "settled (RequiredNonEmptyStringArray _) x =
     (\<exists>vs. x = Some (JArr (map JStr vs)) \<and> vs \<noteq> [] \<and> list_all clean vs)"
| "settled (OptionalPositiveU64 _ cap) x =
     (x = None \<or> x = Some JNull \<or> (\<exists>v n. x = Some v \<and> as_u64 v = Some n \<and> 0 < n \<and> n \<le> cap))"

lemma optional_string_cases:
  assumes "optional_non_empty_string m k = Inr x"
  shows "(x = None \<and> (bt_get m k = None \<or> bt_get m k = Some JNull)) \<or>
    (\<exists>raw. x = Some (trim raw) \<and> bt_get m k = Some (JStr raw) \<and> clean (trim raw))"
proof (cases "arg_at m k")
  case None
  with assms have "x = None" by (simp add: optional_non_empty_string_def)
  with None show ?thesis by (simp add: arg_at_None)
next
  case (Some v)
  then have "bt_get m k = Some v" by (simp add: arg_at_Some)
  with Some assms show ?thesis
    by (auto simp: optional_non_empty_string_def clean_def Let_def split: option.splits if_splits)
qed

lemma required_string_cases:
  "required_non_empty_string m k = Inr v \<longleftrightarrow>
   (\<exists>raw. v = trim raw \<and> bt_get m k = Some (JStr raw) \<and> clean (trim raw))"
  by (auto simp: required_non_empty_string_def rbind_eq_Inr bind_eq_Some_conv clean_def Let_def)

lemma string_array_cases:
  assumes "required_non_empty_string_array m k = Inr vs"
  shows "\<exists>items. bt_get m k = Some (JArr items) \<and> string_entries k items [] = Inr vs \<and> vs \<noteq> []"
proof -
  from assms have "optional_string_array m k = Inr (Some vs) \<and> vs \<noteq> []"
    by (auto simp: required_non_empty_string_array_def rbind_eq_Inr split: if_splits)
  then show ?thesis
    by (cases "arg_at m k") (auto simp: optional_string_array_def rbind_eq_Inr arg_at_Some split: option.splits)
qed

lemma string_array_read:
  "required_non_empty_string_array m k = Inr vs \<Longrightarrow> vs \<noteq> [] \<and> list_all clean vs"
  using string_array_cases [of m k vs] string_entries_trimmed [of k _ "[]" vs]
  by (fastforce simp: list_all_iff clean_def)

lemma positive_cases:
  "optional_positive_u64 m k cap = Inr x \<longleftrightarrow>
   (x = None \<and> (bt_get m k = None \<or> bt_get m k = Some JNull)) \<or>
   (\<exists>v n. x = Some n \<and> bt_get m k = Some v \<and> as_u64 v = Some n \<and> 0 < n \<and> n \<le> cap)"
proof (cases "arg_at m k")
  case None
  then have "bt_get m k = None \<or> bt_get m k = Some JNull" by (simp add: arg_at_None)
  with None show ?thesis by (auto simp: optional_positive_u64_def as_u64_def)
next
  case (Some v)
  then have "bt_get m k = Some v" "v \<noteq> JNull" by (simp_all add: arg_at_Some)
  with Some show ?thesis
    by (auto simp: optional_positive_u64_def bounded_positive_def rbind_eq_Inr word_gt_0 not_less
      split: option.splits if_splits)
qed

lemma apply_rule_leaves_settled:
  assumes "apply_rule r m = Inr m'"
  shows "settled r (bt_get m' (rule_key r))"
proof (cases r)
  case (RequiredNonEmptyString k)
  with assms show ?thesis by (auto simp: rbind_eq_Inr required_string_cases)
next
  case (OptionalNonEmptyString k)
  with assms show ?thesis by (auto simp: rbind_eq_Inr dest!: optional_string_cases)
next
  case (RequiredNonEmptyStringArray k)
  with assms string_array_read [of m k] show ?thesis by (auto simp: rbind_eq_Inr)
next
  case (OptionalPositiveU64 k cap)
  with assms show ?thesis by (auto simp: rbind_eq_Inr positive_cases)
qed

lemma settled_accepted:
  assumes "settled r (bt_get m (rule_key r))" "bt_wf m"
  shows "apply_rule r m = Inr m"
proof (cases r)
  case (RequiredNonEmptyString k)
  with assms show ?thesis by (auto simp: string_fixed clean_def)
next
  case (OptionalNonEmptyString k)
  with assms show ?thesis by (auto simp: string_fixed clean_def optional_non_empty_string_def arg_at_def)
next
  case (RequiredNonEmptyStringArray k)
  with assms obtain vs where vs: "bt_get m k = Some (JArr (map JStr vs))" "vs \<noteq> []" "list_all clean vs" by auto
  then have "required_non_empty_string_array m k = Inr vs"
    using string_entries_fixed [of vs k "[]"] by (simp add: validator_defs arg_at_def list_all_iff clean_def)
  with RequiredNonEmptyStringArray vs assms(2) show ?thesis by simp
next
  case (OptionalPositiveU64 k cap)
  with assms have "\<exists>x. optional_positive_u64 m k cap = Inr x" by (auto simp: positive_cases)
  with OptionalPositiveU64 show ?thesis by auto
qed

text \<open>A later rule leaves alone what an earlier one settled, at its own key or at another.\<close>

lemma settled_shape:
  "settled r (Some (JStr raw)) \<Longrightarrow> trim raw = raw"
  "settled r (Some (JArr items)) \<Longrightarrow> \<exists>vs. items = map JStr vs \<and> list_all clean vs"
  by (cases r; auto simp: clean_def as_u64_def)+

lemma settled_kept:
  assumes "settled r' (bt_get m (rule_key r'))" "apply_rule r m = Inr m'" "bt_wf m"
  shows "bt_get m' (rule_key r') = bt_get m (rule_key r')"
proof (cases "rule_key r' = rule_key r")
  case False
  with apply_rule_frame [OF assms(2,3)] show ?thesis by simp
next
  case same: True
  show ?thesis
  proof (cases r)
    case (RequiredNonEmptyString k)
    with assms same settled_shape(1) [of r'] show ?thesis by (fastforce simp: rbind_eq_Inr required_string_cases)
  next
    case (OptionalNonEmptyString k)
    with assms same settled_shape(1) [of r'] show ?thesis by (fastforce simp: rbind_eq_Inr dest!: optional_string_cases)
  next
    case (RequiredNonEmptyStringArray k)
    with assms obtain vs where vs: "required_non_empty_string_array m k = Inr vs" "m' = bt_insert k (JArr (map JStr vs)) m"
      by (auto simp: rbind_eq_Inr)
    then obtain items where items: "bt_get m k = Some (JArr items)" "string_entries k items [] = Inr vs"
      using string_array_cases by blast
    with assms(1) same RequiredNonEmptyStringArray obtain ws where "items = map JStr ws" "list_all clean ws"
      using settled_shape(2) [of r' items] by auto
    with items have "items = map JStr vs" using string_entries_fixed [of ws k "[]"] by (simp add: list_all_iff clean_def)
    with vs items RequiredNonEmptyStringArray same show ?thesis by simp
  next
    case (OptionalPositiveU64 k cap)
    with assms show ?thesis by (auto simp: rbind_eq_Inr)
  qed
qed

lemma apply_rule_keys:
  assumes "apply_rule r m = Inr m'" shows "set (bt_keys m') = set (bt_keys m)"
proof (cases r)
  case (RequiredNonEmptyString k)
  with assms show ?thesis by (auto simp: rbind_eq_Inr required_string_cases key_present del: equalityI)
next
  case (OptionalNonEmptyString k)
  with assms show ?thesis by (auto simp: rbind_eq_Inr key_present dest!: optional_string_cases del: equalityI)
next
  case (RequiredNonEmptyStringArray k)
  with assms show ?thesis by (auto simp: rbind_eq_Inr key_present dest!: string_array_cases del: equalityI)
next
  case (OptionalPositiveU64 k cap)
  with assms show ?thesis by (auto simp: rbind_eq_Inr)
qed

definition all_settled :: "argument_rule list \<Rightarrow> args \<Rightarrow> bool" where
  "all_settled rules m = list_all (\<lambda>r. settled r (bt_get m (rule_key r))) rules"

lemma apply_rules_settle:
  assumes "apply_rules rules m = Inr m'" "bt_wf m" "all_settled before m"
  shows "bt_wf m' \<and> all_settled (before @ rules) m' \<and> set (bt_keys m') = set (bt_keys m)"
  using assms
proof (induction rules arbitrary: m before)
  case (Cons r rules)
  then obtain m1 where m1: "apply_rule r m = Inr m1" "apply_rules rules m1 = Inr m'"
    by (auto simp: rbind_eq_Inr)
  with Cons.prems have "bt_wf m1" "all_settled (before @ [r]) m1"
    using apply_rule_frame [of r m m1] apply_rule_leaves_settled settled_kept
    by (auto simp: all_settled_def list_all_iff)
  with Cons.IH m1 have "bt_wf m' \<and> all_settled ((before @ [r]) @ rules) m' \<and> set (bt_keys m') = set (bt_keys m1)"
    by blast
  with apply_rule_keys m1(1) show ?case by simp
qed simp

lemma apply_rules_settled: "all_settled rules m \<Longrightarrow> bt_wf m \<Longrightarrow> apply_rules rules m = Inr m"
  by (induction rules) (auto simp: all_settled_def settled_accepted)

text \<open>
  C39. What the validator accepts is settled: only allowed keys are left, every rule holds of
  the value at its key, trimmed and within its bound, whatever the other rules did, and
  validating the accepted arguments again returns them unchanged.
\<close>

theorem validation_settles:
  assumes "validate_server_arguments j allowed rules = Inr m" "json_wf j"
  shows "validate_server_arguments (JObj m) allowed rules = Inr m \<and>
    set (bt_keys m) \<subseteq> set allowed \<and> all_settled rules m"
proof -
  from assms(1) obtain m0 where m0: "object_arguments j = Inr m0" "reject_unexpected_arguments m0 allowed = Inr ()"
    "apply_rules rules m0 = Inr m" by (auto simp: validate_server_arguments_def rbind_eq_Inr)
  have "bt_wf m0" using m0(1) assms(2) by (auto simp: object_arguments_def split: json.splits)
  with m0(3) have m: "bt_wf m" "all_settled rules m" "set (bt_keys m) = set (bt_keys m0)"
    using apply_rules_settle [of rules m0 m "[]"] by (auto simp: all_settled_def)
  have "set (bt_keys m) \<subseteq> set allowed"
    using m0(2) m(3) by (auto simp: reject_unexpected_arguments_def Let_def filter_empty_conv split: if_splits)
  moreover from this have "reject_unexpected_arguments m allowed = Inr ()"
    by (auto simp: reject_unexpected_arguments_def Let_def filter_empty_conv)
  ultimately show ?thesis
    using m by (simp add: validate_server_arguments_def object_arguments_def apply_rules_settled)
qed

theorem validation_settles_witness:
  "validate_server_arguments (JObj [(''k'', JInt 7), (''q'', JStr ''x'')])
     [''q'', ''k''] [RequiredNonEmptyString ''q'', OptionalPositiveU64 ''k'' 10] =
   Inr [(''k'', JInt 7), (''q'', JStr ''x'')]"
proof -
  have run: "validate_server_arguments (JObj [(''k'', JInt 7), (''q'', JStr '' x '')])
      [''q'', ''k''] [RequiredNonEmptyString ''q'', OptionalPositiveU64 ''k'' 10] =
    Inr [(''k'', JInt 7), (''q'', JStr ''x'')]" by code_simp
  have wf: "json_wf (JObj [(''k'', JInt 7), (''q'', JStr '' x '')])" by code_simp
  from validation_settles [OF run wf] show ?thesis by (rule conjunct1)
qed

end
