(* ===== verification/Server_Protocol.thy ===== *)
theory Server_Protocol
  imports Server_Types Protocol
begin

text \<open>
  \<open>server/protocol/mod.rs\<close> with the handler trait of \<open>server/types.rs\<close> and the stdio transport
  \<open>server/stdio/mod.rs\<close>: one line of JSON-RPC in, at most one line out. An asynchronous function
  that asks the host is a task: it is done, or it waits for an answer of the host and goes on with
  it. A task that waits carries the client's session as it is then, since that outlives a task
  that is aborted. serde's parser and compact printer are parameters: the printer hands a writer
  the pieces of the text it makes.
\<close>

section \<open>Tasks\<close>

datatype handler_call =
    CallTool request_context string "(string, json) btree"
  | ListPrompts request_context
  | GetPrompt request_context string "(string, json) btree"
  | ReadResource request_context string

datatype 'a task =
    Done 'a
  | AskTools client_session request_context "tool_call_error + server_tool_spec list \<Rightarrow> 'a task"
  | AskHost client_session handler_call "tool_call_error + json \<Rightarrow> 'a task"

primrec tbind :: "'a task \<Rightarrow> ('a \<Rightarrow> 'b task) \<Rightarrow> 'b task" where
  "tbind (Done a) f = f a"
| "tbind (AskTools s c k) f = AskTools s c (\<lambda>r. tbind (k r) f)"
| "tbind (AskHost s c k) f = AskHost s c (\<lambda>r. tbind (k r) f)"

text \<open>What a host declares without being asked, and a host that answers at once.\<close>

record server_decl =
  sd_info :: server_info
  sd_prompts :: bool
  sd_resources :: "resource_spec list"

record 'n server_handler =
  sh_decl :: server_decl
  sh_tools :: "request_context \<Rightarrow> 'n \<Rightarrow> 'n \<times> (tool_call_error + server_tool_spec list)"
  sh_host :: "handler_call \<Rightarrow> 'n \<Rightarrow> 'n \<times> (tool_call_error + json)"

primrec run_task :: "'n server_handler \<Rightarrow> 'a task \<Rightarrow> 'n \<Rightarrow> 'n \<times> 'a" where
  "run_task H (Done a) = (\<lambda>n. (n, a))"
| "run_task H (AskTools s c k) = (\<lambda>n. run_task H (k (snd (sh_tools H c n))) (fst (sh_tools H c n)))"
| "run_task H (AskHost s c k) = (\<lambda>n. run_task H (k (snd (sh_host H c n))) (fst (sh_host H c n)))"

text \<open>What the trait answers where a host does not: no prompts and no resources.\<close>

definition default_list_prompts :: "tool_call_error + json" where
  "default_list_prompts = Inr (jobject [(''prompts'', JArr [])])"

definition default_get_prompt :: "string \<Rightarrow> tool_call_error + json" where
  "default_get_prompt name = Inl (InvalidParams (''unknown prompt `'' @ name @ ''`''))"

definition default_read_resource :: "string \<Rightarrow> tool_call_error + json" where
  "default_read_resource uri = Inl (ResourceNotFound (''no resource with uri `'' @ uri @ ''`''))"

section \<open>Messages\<close>

record json_lib =
  jl_parse :: "string \<Rightarrow> source_error + json"
  jl_pieces :: "json \<Rightarrow> string list"

definition to_text :: "json_lib \<Rightarrow> json \<Rightarrow> string" where
  "to_text J v = concat (jl_pieces J v)"

definition envelope :: "json \<Rightarrow> string \<Rightarrow> json \<Rightarrow> json" where
  "envelope ident kind body =
     JObj (bt_insert kind body (bt_insert ''id'' ident (bt_insert ''jsonrpc'' (JStr ''2.0'') [])))"

definition success_response :: "json \<Rightarrow> json \<Rightarrow> json" where
  "success_response ident result = envelope ident ''result'' result"

definition error_response :: "json \<Rightarrow> int \<Rightarrow> string \<Rightarrow> string option \<Rightarrow> json" where
  "error_response ident code message detail =
     envelope ident ''error'' (JObj (insert_some ''data'' detail JStr
       (bt_insert ''message'' (JStr message) (bt_insert ''code'' (JInt code) []))))"

definition valid_request_id :: "json \<Rightarrow> bool" where
  "valid_request_id j = (case j of
     JStr _ \<Rightarrow> True | JInt _ \<Rightarrow> as_i64 j \<noteq> None \<or> as_u64 j \<noteq> None | _ \<Rightarrow> False)"

definition refused :: "json \<Rightarrow> tool_call_error \<Rightarrow> json" where
  "refused ident err = error_response ident (call_code err) (jsonrpc_message err) (Some (call_message err))"

definition handler_response :: "json \<Rightarrow> tool_call_error + json \<Rightarrow> json" where
  "handler_response ident r = (case r of Inr v \<Rightarrow> success_response ident v | Inl err \<Rightarrow> refused ident err)"

definition bad_request :: "json \<Rightarrow> string \<Rightarrow> json" where
  "bad_request ident why = error_response ident invalid_request ''Invalid Request'' (Some why)"

definition bad_params :: "json \<Rightarrow> string \<Rightarrow> json" where
  "bad_params ident why = error_response ident invalid_params ''Invalid params'' (Some why)"

definition initialize_result_of :: "server_info \<Rightarrow> json \<Rightarrow> json" where
  "initialize_result_of info params =
     (let requested = Option.bind (jget ''protocolVersion'' params) as_str;
          version = (case requested of
            Some v \<Rightarrow> if v \<in> set supported_protocol_versions then v else latest_protocol_version
          | None \<Rightarrow> latest_protocol_version);
          result = bt_of_list
            [(''protocolVersion'', JStr version),
             (''capabilities'', jobject [(''tools'', jobject []),
                (''resources'', jobject [(''subscribe'', JBool False), (''listChanged'', JBool False)])]),
             (''serverInfo'', jobject [(''name'', JStr (si_name info)), (''version'', JStr (si_version info))])]
      in JObj (insert_some ''instructions'' (si_instructions info) JStr result))"

text \<open>\<open>result["capabilities"]["prompts"] = {}\<close>, on a result that has the capabilities.\<close>

definition advertise_prompts :: "json \<Rightarrow> json" where
  "advertise_prompts result = (case result of
     JObj m \<Rightarrow> (case bt_get m ''capabilities'' of
       Some (JObj c) \<Rightarrow> JObj (bt_insert ''capabilities'' (JObj (bt_insert ''prompts'' (jobject []) c)) m)
     | _ \<Rightarrow> result)
   | _ \<Rightarrow> result)"

definition trimmed_field :: "string \<Rightarrow> json \<Rightarrow> string option" where
  "trimmed_field k params = Option.bind (jget k params) (\<lambda>v. Option.bind (as_str v) (\<lambda>raw.
     let trimmed = trim raw in if trimmed = [] then None else Some trimmed))"

definition parse_tool_call_params :: "json_lib \<Rightarrow> json \<Rightarrow> string + string \<times> (string, json) btree" where
  "parse_tool_call_params J params = (case as_object params of
     None \<Rightarrow> Inl ''tools/call params must be an object''
   | Some object \<Rightarrow> (case trimmed_field ''name'' params of
       None \<Rightarrow> Inl ''tools/call params.name must be a non-empty string''
     | Some name \<Rightarrow> (case normalize_tool_arguments (jl_parse J) (bt_get object ''arguments'') of
         Inl err \<Rightarrow> Inl (''tools/call params.arguments: '' @ args_reason err)
       | Inr arguments \<Rightarrow> Inr (name, arguments))))"

type_synonym answered = "(client_session \<times> json) task"

definition call_tool :: "json_lib \<Rightarrow> request_context \<Rightarrow> client_session \<Rightarrow> json \<Rightarrow> json \<Rightarrow> answered" where
  "call_tool J ctx s ident params = (case parse_tool_call_params J params of
     Inl message \<Rightarrow> Done (s, bad_params ident message)
   | Inr (name, arguments) \<Rightarrow>
       AskHost s (CallTool ctx name arguments) (\<lambda>r. Done (s, handler_response ident r)))"

definition read_resource :: "request_context \<Rightarrow> client_session \<Rightarrow> json \<Rightarrow> json \<Rightarrow> answered" where
  "read_resource ctx s ident params = (case trimmed_field ''uri'' params of
     None \<Rightarrow> Done (s, bad_params ident ''resources/read params.uri must be a non-empty string'')
   | Some uri \<Rightarrow> AskHost s (ReadResource ctx uri) (\<lambda>r. Done (s, handler_response ident r)))"

definition get_prompt :: "request_context \<Rightarrow> client_session \<Rightarrow> json \<Rightarrow> json \<Rightarrow> answered" where
  "get_prompt ctx s ident params = (case trimmed_field ''name'' params of
     None \<Rightarrow> Done (s, bad_params ident ''prompts/get requires a non-empty name'')
   | Some name \<Rightarrow>
       (let arguments = (case jget ''arguments'' params of
          None \<Rightarrow> Some []
        | Some (JObj m) \<Rightarrow> if list_all (\<lambda>(_, v). as_str v \<noteq> None) m then Some m else None
        | _ \<Rightarrow> None)
        in case arguments of
          None \<Rightarrow> Done (s, bad_params ident ''prompt arguments must be a string-valued object'')
        | Some m \<Rightarrow> AskHost s (GetPrompt ctx name m) (\<lambda>r. Done (s, handler_response ident r))))"

definition handle_request :: "server_decl \<Rightarrow> json_lib \<Rightarrow> request_headers \<Rightarrow> client_session \<Rightarrow> json \<Rightarrow> string \<Rightarrow> json \<Rightarrow> answered" where
  "handle_request D J hs s ident meth params =
     (let ctx = \<lparr>rq_source_type = source_type s, rq_headers_of = hs\<rparr> in
      if meth = ''initialize'' then
        let s = observe_initialize_params params s;
            result = initialize_result_of (sd_info D) params;
            s = (case Option.bind (jget ''protocolVersion'' result) as_str of
                   Some version \<Rightarrow> observe_initialize_response version s | None \<Rightarrow> s);
            result = (if sd_prompts D then advertise_prompts result else result)
        in Done (s, success_response ident result)
      else if meth = ''ping'' then Done (s, success_response ident (jobject []))
      else if meth = ''tools/list'' then
        AskTools s ctx (\<lambda>r. Done (s, case r of
          Inr tools \<Rightarrow> success_response ident (jobject [(''tools'', JArr (map tool_to_json tools))])
        | Inl err \<Rightarrow> refused ident err))
      else if meth = ''resources/list'' then
        Done (s, success_response ident (jobject [(''resources'', JArr (map resource_to_json (sd_resources D)))]))
      else if meth = ''resources/templates/list'' then
        Done (s, success_response ident (jobject [(''resourceTemplates'', JArr [])]))
      else if meth = ''resources/read'' then read_resource ctx s ident params
      else if meth = ''prompts/list'' \<and> sd_prompts D then
        AskHost s (ListPrompts ctx) (\<lambda>r. Done (s, handler_response ident r))
      else if meth = ''prompts/get'' \<and> sd_prompts D then get_prompt ctx s ident params
      else if meth = ''tools/call'' then call_tool J ctx s ident params
      else Done (s, error_response ident method_not_found ''Method not found''
             (Some (''unsupported MCP method `'' @ meth @ ''`''))))"

definition handle_single_message :: "server_decl \<Rightarrow> json_lib \<Rightarrow> request_headers \<Rightarrow> client_session \<Rightarrow> json \<Rightarrow>
    (client_session \<times> json option) task" where
  "handle_single_message D J hs s v =
     (let answer = (\<lambda>t. tbind t (\<lambda>(s, r). Done (s, Some r))) in
      case as_object v of
        None \<Rightarrow> Done (s, Some (bad_request JNull ''message must be a JSON object''))
      | Some object \<Rightarrow> (case bt_get object ''id'' of
          None \<Rightarrow> Done (s, None)
        | Some ident \<Rightarrow>
            if \<not> valid_request_id ident then Done (s, Some (bad_request JNull ''id must be a string or integer''))
            else if Option.bind (bt_get object ''jsonrpc'') as_str \<noteq> Some ''2.0'' then
              Done (s, Some (bad_request ident ''jsonrpc must be \"2.0\"''))
            else (case Option.bind (bt_get object ''method'') as_str of
              None \<Rightarrow> Done (s, Some (bad_request ident ''method must be a string''))
            | Some meth \<Rightarrow> answer (handle_request D J hs s ident meth
                (case bt_get object ''params'' of Some p \<Rightarrow> p | None \<Rightarrow> JNull)))))"

fun handle_items :: "server_decl \<Rightarrow> json_lib \<Rightarrow> request_headers \<Rightarrow> client_session \<Rightarrow> json list \<Rightarrow> json list \<Rightarrow>
    (client_session \<times> json list) task" where
  "handle_items D J hs s [] out = Done (s, out)"
| "handle_items D J hs s (item # items) out =
     tbind (handle_single_message D J hs s item)
       (\<lambda>(s, r). handle_items D J hs s items (case r of None \<Rightarrow> out | Some r \<Rightarrow> out @ [r]))"

definition empty_batch :: json where "empty_batch = bad_request JNull ''batch must not be empty''"

definition handle_value :: "server_decl \<Rightarrow> json_lib \<Rightarrow> request_headers \<Rightarrow> client_session \<Rightarrow> json \<Rightarrow>
    (client_session \<times> json list) task" where
  "handle_value D J hs s v = (case v of
     JArr [] \<Rightarrow> Done (s, [empty_batch])
   | JArr (item # items) \<Rightarrow> handle_items D J hs s (item # items) []
   | other \<Rightarrow> tbind (handle_single_message D J hs s other)
       (\<lambda>(s, r). Done (s, case r of None \<Rightarrow> [] | Some r \<Rightarrow> [r])))"

definition is_batch :: "json \<Rightarrow> bool" where
  "is_batch v = (case v of JArr (_ # _) \<Rightarrow> True | _ \<Rightarrow> False)"

definition frame :: "json_lib \<Rightarrow> bool \<Rightarrow> json list \<Rightarrow> string option" where
  "frame J batch responses =
     (if responses = [] then None
      else if \<not> batch \<and> length responses = 1 then Some (to_text J (last responses))
      else Some (to_text J (JArr responses)))"

definition handle_line :: "server_decl \<Rightarrow> json_lib \<Rightarrow> request_headers \<Rightarrow> client_session \<Rightarrow> string \<Rightarrow>
    (client_session \<times> string option) task" where
  "handle_line D J hs s line = (case jl_parse J line of
     Inl err \<Rightarrow> Done (s, Some (to_text J (error_response JNull parse_error ''Parse error'' (Some (rendered err)))))
   | Inr v \<Rightarrow> tbind (handle_value D J hs s v) (\<lambda>(s, responses). Done (s, frame J (is_batch v) responses)))"

section \<open>A budget for the answer\<close>

definition limited_write :: "nat \<Rightarrow> string \<Rightarrow> string \<Rightarrow> unit + string" where
  "limited_write limit out bytes =
     (if length bytes > limit - length out then Inl () else Inr (out @ bytes))"

fun write_pieces :: "nat \<Rightarrow> string list \<Rightarrow> string \<Rightarrow> unit + string" where
  "write_pieces limit [] out = Inr out"
| "write_pieces limit (p # ps) out = rbind (limited_write limit out p) (write_pieces limit ps)"

definition minimum_response_len :: "json_lib \<Rightarrow> json \<Rightarrow> nat option" where
  "minimum_response_len J item = (case as_object item of
     None \<Rightarrow> Some (length (to_text J (bad_request JNull ''message must be a JSON object'')))
   | Some object \<Rightarrow> (case bt_get object ''id'' of
       None \<Rightarrow> None
     | Some ident \<Rightarrow> Some (length (to_text J
         (if valid_request_id ident then success_response ident (jobject [])
          else bad_request JNull ''id must be a string or integer'')))))"

text \<open>One answer is written behind its punctuation; a batch keeps room for its closing bracket.\<close>

definition write_response :: "json_lib \<Rightarrow> nat \<Rightarrow> bool \<Rightarrow> nat \<Rightarrow> json \<Rightarrow> string \<Rightarrow> unit + string" where
  "write_response J limit batch count response out =
     rbind (if count = 0 \<and> batch then limited_write limit out ''['' else Inr out) (\<lambda>out.
     rbind (if count > 0 then limited_write limit out '','' else Inr out) (\<lambda>out.
     rbind (write_pieces limit (jl_pieces J response) out) (\<lambda>out.
       if batch \<and> length out + 1 > limit then Inl () else Inr out)))"

fun bounded_items :: "server_decl \<Rightarrow> json_lib \<Rightarrow> request_headers \<Rightarrow> nat \<Rightarrow> bool \<Rightarrow> client_session \<Rightarrow> json list \<Rightarrow>
    string \<Rightarrow> nat \<Rightarrow> (client_session \<times> (unit + string \<times> nat)) task" where
  "bounded_items D J hs limit batch s [] out count = Done (s, Inr (out, count))"
| "bounded_items D J hs limit batch s (item # items) out count =
     (if batch \<and> (case minimum_response_len J item of None \<Rightarrow> False | Some m \<Rightarrow> length out + 1 + m + 1 > limit)
      then Done (s, Inl ())
      else tbind (if item = JArr [] \<and> \<not> batch then Done (s, Some empty_batch) else handle_single_message D J hs s item)
        (\<lambda>(s, r). case r of
           None \<Rightarrow> bounded_items D J hs limit batch s items out count
         | Some response \<Rightarrow> (case write_response J limit batch count response out of
             Inl _ \<Rightarrow> Done (s, Inl ())
           | Inr out \<Rightarrow> bounded_items D J hs limit batch s items out (count + 1))))"

definition handle_line_bounded :: "server_decl \<Rightarrow> json_lib \<Rightarrow> request_headers \<Rightarrow> client_session \<Rightarrow> string \<Rightarrow> nat \<Rightarrow>
    (client_session \<times> (unit + string option)) task" where
  "handle_line_bounded D J hs s line limit = (case jl_parse J line of
     Inl _ \<Rightarrow> tbind (handle_line D J hs s line) (\<lambda>(s, response). Done (s,
        case response of Some r \<Rightarrow> if length r > limit then Inl () else Inr (Some r) | None \<Rightarrow> Inr None))
   | Inr v \<Rightarrow>
       (let batch = is_batch v;
            items = (case v of JArr (item # items) \<Rightarrow> item # items | other \<Rightarrow> [other])
        in tbind (bounded_items D J hs limit batch s items [] 0) (\<lambda>(s, r). Done (s,
          rbind r (\<lambda>(out, count).
            if count = 0 then Inr None
            else rbind (if batch then limited_write limit out '']'' else Inr out)
                   (\<lambda>out. if utf8 out then Inr (Some out) else Inl ()))))))"

section \<open>Standard input and output\<close>

record 'n line_writer =
  lw_write :: "string \<Rightarrow> 'n \<Rightarrow> 'n \<times> (source_error + unit)"
  lw_flush :: "'n \<Rightarrow> 'n \<times> (source_error + unit)"

definition write_line :: "'n line_writer \<Rightarrow> string \<Rightarrow> 'n \<Rightarrow> 'n \<times> (source_error + unit)" where
  "write_line W response n =
     sbind (lw_write W response n) (\<lambda>_ n. sbind (lw_write W [CHR 0x0A] n) (\<lambda>_ n. lw_flush W n))"

text \<open>The lines are those the reader gives until it ends, each a line or a failure to read one.\<close>

fun serve_lines :: "'n server_handler \<Rightarrow> json_lib \<Rightarrow> 'n line_writer \<Rightarrow> client_session \<Rightarrow>
    (source_error + string) list \<Rightarrow> 'n \<Rightarrow> 'n \<times> (error + unit)" where
  "serve_lines H J W s [] n = (n, Inr ())"
| "serve_lines H J W s (Inl err # lines) n = (n, Inl (ServerIo err))"
| "serve_lines H J W s (Inr line # lines) n =
     (let trimmed = trim line in
      if trimmed = [] then serve_lines H J W s lines n
      else case run_task H (handle_line (sh_decl H) J [] s trimmed) n of
        (n, s, None) \<Rightarrow> serve_lines H J W s lines n
      | (n, s, Some response) \<Rightarrow> (case write_line W response n of
          (n, Inl err) \<Rightarrow> (n, Inl (ServerIo err))
        | (n, Inr _) \<Rightarrow> serve_lines H J W s lines n))"

definition run_stdio :: "'n server_handler \<Rightarrow> json_lib \<Rightarrow> 'n line_writer \<Rightarrow> string \<Rightarrow>
    (source_error + string) list \<Rightarrow> 'n \<Rightarrow> 'n \<times> (error + unit)" where
  "run_stdio H J W source_prefix lines n = serve_lines H J W (session_new source_prefix) lines n"

end
