(* ===== verification/Server_Sessions.thy ===== *)
theory Server_Sessions
  imports Server_Protocol
begin

text \<open>
  \<open>server/bridge/operations.rs\<close> and \<open>server/bridge/handler.rs\<close>: the sessions a host holds through
  the compiled module. A session runs one input line at a time as a spawned task; each question
  the task asks its host is a callback the host polls for and completes. The task moves when the
  executor lets it, which is an operation of its own here; everything else happens under the
  registry's lock. Parsing and printing JSON and UUIDs are parameters, and fresh identifiers are
  arguments.
\<close>

section \<open>Calls and replies\<close>

definition max_bytes :: nat where "max_bytes = 1048576"

definition invalid :: "string \<Rightarrow> error" where "invalid message = InvalidArgument message"

definition bounded :: "json_lib \<Rightarrow> json \<Rightarrow> error + nat" where
  "bounded J v = (let bytes = length (to_text J v) in
     if bytes > max_bytes then Inl (invalid ''server payload exceeds byte limit'') else Inr bytes)"

datatype server_host_call =
    HostListTools string "(string, json) btree"
  | HostCallTool string "(string, json) btree" string "(string, json) btree"
  | HostReadResource string "(string, json) btree" string
  | HostListPrompts string "(string, json) btree"
  | HostGetPrompt string "(string, json) btree" string "(string, json) btree"

definition enc_call :: "string \<Rightarrow> string \<Rightarrow> (string, json) btree \<Rightarrow> (string \<times> json) list \<Rightarrow> json" where
  "enc_call kind source hs rest =
     jobject ([(''kind'', JStr kind), (''source_type'', JStr source), (''headers'', JObj hs)] @ rest)"

fun enc_host_call :: "server_host_call \<Rightarrow> json" where
  "enc_host_call (HostListTools src hs) = enc_call ''list_tools'' src hs []"
| "enc_host_call (HostCallTool src hs name arguments) =
     enc_call ''call_tool'' src hs [(''name'', JStr name), (''arguments'', JObj arguments)]"
| "enc_host_call (HostReadResource src hs uri) = enc_call ''read_resource'' src hs [(''uri'', JStr uri)]"
| "enc_host_call (HostListPrompts src hs) = enc_call ''list_prompts'' src hs []"
| "enc_host_call (HostGetPrompt src hs name arguments) =
     enc_call ''get_prompt'' src hs [(''name'', JStr name), (''arguments'', JObj arguments)]"

definition header_map :: "request_context \<Rightarrow> (string, json) btree" where
  "header_map ctx = map (\<lambda>(k, v). (k, JStr v)) (rq_headers_of ctx)"

fun host_call_of :: "handler_call \<Rightarrow> server_host_call" where
  "host_call_of (CallTool ctx name arguments) = HostCallTool (rq_source_type ctx) (header_map ctx) name arguments"
| "host_call_of (ListPrompts ctx) = HostListPrompts (rq_source_type ctx) (header_map ctx)"
| "host_call_of (GetPrompt ctx name arguments) = HostGetPrompt (rq_source_type ctx) (header_map ctx) name arguments"
| "host_call_of (ReadResource ctx uri) = HostReadResource (rq_source_type ctx) (header_map ctx) uri"

datatype server_host_reply =
    ReplySuccess json
  | ReplyInvalidParams string
  | ReplyInternal string
  | ReplyResourceNotFound string

fun enc_reply :: "server_host_reply \<Rightarrow> json" where
  "enc_reply (ReplySuccess v) = jobject [(''kind'', JStr ''success''), (''value'', v)]"
| "enc_reply (ReplyInvalidParams m) = jobject [(''kind'', JStr ''invalid_params''), (''message'', JStr m)]"
| "enc_reply (ReplyInternal m) = jobject [(''kind'', JStr ''internal''), (''message'', JStr m)]"
| "enc_reply (ReplyResourceNotFound m) = jobject [(''kind'', JStr ''resource_not_found''), (''message'', JStr m)]"

fun reply_result :: "server_host_reply \<Rightarrow> tool_call_error + json" where
  "reply_result (ReplySuccess v) = Inr v"
| "reply_result (ReplyInvalidParams m) = Inl (InvalidParams m)"
| "reply_result (ReplyInternal m) = Inl (Internal m)"
| "reply_result (ReplyResourceNotFound m) = Inl (ResourceNotFound m)"

definition tools_result :: "tool_call_error + json \<Rightarrow> tool_call_error + server_tool_spec list" where
  "tools_result r = rbind r (\<lambda>v. ok_or (Internal ''host returned invalid tool declarations'') (dec_list dec_tool_spec v))"

definition call_too_large :: tool_call_error where
  "call_too_large = Internal ''host callback exceeds byte limit''"

text \<open>How far a task gets by itself: to its result, or to a question for the host. A question that
  is too large is not asked.\<close>

datatype 'a halt =
    Finished 'a
  | Waits client_session server_host_call "server_host_reply \<Rightarrow> 'a task"

primrec advance :: "json_lib \<Rightarrow> 'a task \<Rightarrow> 'a halt" where
  "advance J (Done a) = Finished a"
| "advance J (AskTools s ctx k) =
     (let call = HostListTools (rq_source_type ctx) (header_map ctx) in
      if length (to_text J (enc_host_call call)) > max_bytes then advance J (k (Inl call_too_large))
      else Waits s call (\<lambda>r. k (tools_result (reply_result r))))"
| "advance J (AskHost s c k) =
     (let call = host_call_of c in
      if length (to_text J (enc_host_call call)) > max_bytes then advance J (k (Inl call_too_large))
      else Waits s call (\<lambda>r. k (reply_result r)))"

section \<open>Operations\<close>

record server_input =
  in_operation_id :: string
  in_line :: string

record server_callback =
  cb_id :: string
  cb_call :: server_host_call

datatype operation_state =
    Pending
  | Callback server_callback
  | Complete "string option"
  | Cancelled
  | Failed string

record http_response =
  hr_status :: u16
  hr_headers :: "(string, string) btree"
  hr_content_type :: "string option"
  hr_error_body :: "string option"

type_synonym outcome = "client_session \<times> (unit + string option)"

text \<open>A spawned task has not taken the client's lock yet; a blocked or resumed one holds it.\<close>

datatype work =
    Spawned server_decl
  | Blocked "server_host_reply \<Rightarrow> outcome task"
  | Resumed "outcome task"
  | Ended "unit + string option"

record operation =
  op_input :: server_input
  op_headers :: request_headers
  op_task :: "work option"
  op_channel :: "server_callback option"
  op_waiting :: "server_callback option"
  op_terminal :: "operation_state option"
  op_reply_bytes :: nat
  op_http_initialization :: bool
  op_http_response :: "http_response option"

text \<open>\<open>finish\<close> takes the result of a task that has ended; \<open>stop\<close> aborts one and joins it.\<close>

definition op_finish :: "operation \<Rightarrow> operation" where
  "op_finish p = (case op_task p of
     Some (Ended r) \<Rightarrow> p\<lparr>op_task := None, op_terminal := Some (case r of
         Inl _ \<Rightarrow> Failed ''server output exceeds byte limit''
       | Inr response \<Rightarrow> Complete response)\<rparr>
   | _ \<Rightarrow> p)"

definition op_stop :: "operation \<Rightarrow> operation" where
  "op_stop p = p\<lparr>op_waiting := None, op_channel := None, op_task := None\<rparr>"

record http_context =
  hc_requested :: "string option"
  hc_known :: bool
  hc_expected_version :: "string option"

record session_config =
  sc_session_id :: string
  sc_info :: json
  sc_prefix :: string
  sc_resources :: "json list"

record session =
  se_client :: client_session
  se_config :: session_config
  se_http_open :: "http_context option"
  se_http :: "http_context option"
  se_operation :: "operation option"
  se_sequence :: "128 word"

section \<open>The admission window\<close>

definition admission_window :: "128 word" where "admission_window = 4096"

record sessions =
  rg_active :: "(string, session) btree"
  rg_reserved :: "128 word set"
  rg_sequence :: "128 word"

definition sessions_new :: sessions where
  "sessions_new = \<lparr>rg_active = [], rg_reserved = {}, rg_sequence = 0\<rparr>"

definition reserve :: "128 word \<Rightarrow> sessions \<Rightarrow> sessions \<times> (error + unit)" where
  "reserve u R =
     (if u \<le> sat_sub (rg_sequence R) admission_window \<or> u \<in> rg_reserved R
      then (R, Inl (invalid ''server session identifier already reserved or expired''))
      else let top = max (rg_sequence R) u; floor = sat_sub top admission_window
        in (R\<lparr>rg_sequence := top, rg_reserved := insert u {v \<in> rg_reserved R. v > floor}\<rparr>, Inr ()))"

definition reserve_close :: "128 word \<Rightarrow> sessions \<Rightarrow> sessions" where
  "reserve_close u R =
     (let floor = sat_sub (rg_sequence R) admission_window;
          ceiling = sat_add (rg_sequence R) admission_window
      in if u > floor \<and> u \<le> ceiling \<and> u \<notin> rg_reserved R
         then R\<lparr>rg_reserved := insert u (rg_reserved R)\<rparr> else R)"

section \<open>Identifiers and headers\<close>

record uuids =
  uu_parse :: "string \<Rightarrow> 128 word option"
  uu_show :: "128 word \<Rightarrow> string"

definition validate_id :: "uuids \<Rightarrow> string \<Rightarrow> error + 128 word" where
  "validate_id U s = (case uu_parse U s of
     None \<Rightarrow> Inl (invalid ''invalid server identifier'')
   | Some u \<Rightarrow> if u = 0 then Inl (invalid ''invalid server identifier'') else Inr u)"

definition is_initialize_request :: "json_lib \<Rightarrow> string \<Rightarrow> bool" where
  "is_initialize_request J line =
     (Option.bind (ok (jl_parse J line)) (\<lambda>v. Option.bind (jget ''method'' v) as_str) = Some ''initialize'')"

definition header_session_id :: string where "header_session_id = ''Mcp-Session-Id''"
definition header_protocol_version :: string where "header_protocol_version = ''MCP-Protocol-Version''"

definition header_value :: "string \<Rightarrow> (string, json) btree \<Rightarrow> string option" where
  "header_value name hs =
     Option.bind (find (\<lambda>(k, _). eq_ignore_case k name) hs) (\<lambda>(_, v). as_str v)"

section \<open>HTTP admission\<close>

definition http_error :: "u16 \<Rightarrow> string \<Rightarrow> http_response" where
  "http_error status message = \<lparr>hr_status = status, hr_headers = [],
     hr_content_type = Some ''text/plain; charset=utf-8'', hr_error_body = Some message\<rparr>"

definition no_session_header :: string where "no_session_header = ''missing or invalid Mcp-Session-Id header''"
definition unknown_http_session :: string where "unknown_http_session = ''unknown or expired MCP session''"
definition bad_version_header :: string where "bad_version_header = ''missing or invalid MCP-Protocol-Version header''"

definition http_admission_error :: "http_context \<Rightarrow> string option \<Rightarrow> string option \<Rightarrow> http_response option" where
  "http_admission_error c session_header protocol_header = (case hc_requested c of
     None \<Rightarrow> Some (http_error 400 no_session_header)
   | Some sid \<Rightarrow>
       if \<not> hc_known c then Some (http_error 404 unknown_http_session)
       else if session_header \<noteq> Some sid then Some (http_error 404 unknown_http_session)
       else if protocol_header \<noteq> hc_expected_version c then Some (http_error 400 bad_version_header)
       else None)"

definition http_response_metadata :: "string \<Rightarrow> operation_state \<Rightarrow> bool \<Rightarrow> session_metadata \<Rightarrow>
    http_response \<times> http_context option" where
  "http_response_metadata fresh state initialization client =
     (let (status, error_body, content) = (case state of
          Complete (Some _) \<Rightarrow> (200, None, Some ''application/json'')
        | Complete None \<Rightarrow> (204, None, None)
        | Cancelled \<Rightarrow> (503, Some ''server operation cancelled'', None)
        | Failed _ \<Rightarrow> (500, Some ''internal server error'', None)
        | _ \<Rightarrow> (500, Some ''server operation incomplete'', None));
          opened = (case sm_protocol_version client of
            Some version \<Rightarrow> if initialization \<and> sm_initialized client \<and> status = 200
              then Some \<lparr>hc_requested = Some fresh, hc_known = True, hc_expected_version = Some version\<rparr> else None
          | None \<Rightarrow> None)
      in (\<lparr>hr_status = status,
           hr_headers = (case opened of Some _ \<Rightarrow> bt_insert header_session_id fresh [] | None \<Rightarrow> []),
           hr_content_type = (if error_body \<noteq> None then Some ''text/plain; charset=utf-8'' else content),
           hr_error_body = error_body\<rparr>, opened))"

definition rejected_http_operation :: "server_input \<Rightarrow> request_headers \<Rightarrow> bool \<Rightarrow> http_response \<Rightarrow> operation" where
  "rejected_http_operation input hs initialization response =
     \<lparr>op_input = input, op_headers = hs, op_task = None, op_channel = None, op_waiting = None,
      op_terminal = Some (Complete None), op_reply_bytes = 0, op_http_initialization = initialization,
      op_http_response = Some response\<rparr>"

section \<open>Opening\<close>

definition enc_config :: "session_config \<Rightarrow> json" where
  "enc_config c = jobject [(''session_id'', JStr (sc_session_id c)), (''info'', sc_info c),
     (''source_type_prefix'', JStr (sc_prefix c)), (''resources'', JArr (sc_resources c))]"

definition enc_http_config :: "session_config \<Rightarrow> http_context \<Rightarrow> json" where
  "enc_http_config c h = jobject [(''server'', enc_config c),
     (''requested_session_id'', enc_opt JStr (hc_requested h)), (''known_session'', JBool (hc_known h)),
     (''expected_protocol_version'', enc_opt JStr (hc_expected_version h))]"

definition declared :: "session_config \<Rightarrow> error + server_decl" where
  "declared c =
     rbind (ok_or (invalid ''invalid server identity'') (dec_server_info (sc_info c))) (\<lambda>info.
     rbind (ok_or (invalid ''invalid server resources'') (all_some (map dec_resource_spec (sc_resources c)))) (\<lambda>resources.
       Inr \<lparr>sd_info = info, sd_prompts = True, sd_resources = resources\<rparr>))"

definition open_with_transport :: "uuids \<Rightarrow> json_lib \<Rightarrow> session_config \<Rightarrow> http_context option \<Rightarrow> sessions \<Rightarrow>
    sessions \<times> (error + string)" where
  "open_with_transport U J c http R =
     (case rbind (bounded J (enc_config c)) (\<lambda>_. rbind (declared c) (\<lambda>_.
        if trim (sc_prefix c) = [] then Inl (invalid ''empty server provenance prefix'')
        else validate_id U (sc_session_id c))) of
        Inl err \<Rightarrow> (R, Inl err)
      | Inr u \<Rightarrow>
          let key = uu_show U u in
          case bt_get (rg_active R) key of
            Some existing \<Rightarrow> (R, if se_config existing = c \<and> se_http_open existing = http then Inr key
              else Inl (invalid ''server session identifier already reserved''))
          | None \<Rightarrow>
              if length (rg_active R) \<ge> 32 then (R, Inl (invalid ''server session limit reached''))
              else case reserve u R of
                (R, Inl err) \<Rightarrow> (R, Inl err)
              | (R, Inr _) \<Rightarrow>
                  (R\<lparr>rg_active := bt_insert key \<lparr>se_client = session_new (sc_prefix c), se_config = c,
                     se_http_open = http, se_http = http, se_operation = None, se_sequence = 0\<rparr> (rg_active R)\<rparr>,
                   Inr key))"

definition open_session :: "uuids \<Rightarrow> json_lib \<Rightarrow> session_config \<Rightarrow> sessions \<Rightarrow> sessions \<times> (error + string)" where
  "open_session U J c R = open_with_transport U J c None R"

definition open_http :: "uuids \<Rightarrow> json_lib \<Rightarrow> session_config \<Rightarrow> http_context \<Rightarrow> sessions \<Rightarrow> sessions \<times> (error + string)" where
  "open_http U J c h R = (case bounded J (enc_http_config c h) of
     Inl err \<Rightarrow> (R, Inl err)
   | Inr _ \<Rightarrow>
       if hc_known h \<noteq> (hc_requested h \<noteq> None \<and> hc_expected_version h \<noteq> None)
       then (R, Inl (invalid ''invalid HTTP session context''))
       else open_with_transport U J c (Some h) R)"

section \<open>Running a line\<close>

definition locate :: "uuids \<Rightarrow> string \<Rightarrow> sessions \<Rightarrow> error + string \<times> session" where
  "locate U sid R = rbind (validate_id U sid) (\<lambda>u.
     rbind (ok_or (invalid ''unknown server session'') (bt_get (rg_active R) (uu_show U u)))
       (\<lambda>se. Inr (uu_show U u, se)))"

definition locate_operation :: "uuids \<Rightarrow> string \<Rightarrow> sessions \<Rightarrow> error + string \<times> session \<times> operation" where
  "locate_operation U sid R = rbind (locate U sid R) (\<lambda>(key, se).
     rbind (ok_or (invalid ''server session has no operation'') (se_operation se)) (\<lambda>p. Inr (key, se, p)))"

definition put_session :: "string \<Rightarrow> session \<Rightarrow> sessions \<Rightarrow> sessions" where
  "put_session key se R = R\<lparr>rg_active := bt_insert key se (rg_active R)\<rparr>"

definition put_operation :: "string \<Rightarrow> session \<Rightarrow> operation \<Rightarrow> sessions \<Rightarrow> sessions" where
  "put_operation key se p R = put_session key (se\<lparr>se_operation := Some p\<rparr>) R"

fun collect_headers :: "(string \<times> json) list \<Rightarrow> request_headers \<Rightarrow> error + request_headers" where
  "collect_headers [] out = Inr out"
| "collect_headers ((k, v) # hs) out = (case as_str v of
     None \<Rightarrow> Inl (invalid ''server header values must be strings'')
   | Some t \<Rightarrow> collect_headers hs (header_insert k t out))"

definition enc_input :: "server_input \<Rightarrow> json" where
  "enc_input i = jobject [(''operation_id'', JStr (in_operation_id i)), (''line'', JStr (in_line i))]"

definition too_many_items :: "json_lib \<Rightarrow> string \<Rightarrow> bool" where
  "too_many_items J line = (case jl_parse J line of Inr (JArr items) \<Rightarrow> length items > 256 | _ \<Rightarrow> False)"

text \<open>What is said of an input whose identifier is the current operation's, or while it runs.\<close>

definition current_operation :: "server_input \<Rightarrow> request_headers \<Rightarrow> session \<Rightarrow> (error + unit) option" where
  "current_operation input hs se = (case se_operation se of
     None \<Rightarrow> None
   | Some p \<Rightarrow>
       if in_operation_id (op_input p) = in_operation_id input
       then Some (if op_input p = input \<and> op_headers p = hs then Inr ()
                  else Inl (invalid ''conflicting server operation retry''))
       else if op_terminal p = None then Some (Inl (invalid ''server session already has an operation''))
       else None)"

definition start_operation :: "server_input \<Rightarrow> request_headers \<Rightarrow> bool \<Rightarrow> server_decl \<Rightarrow> operation" where
  "start_operation input hs initialization D =
     \<lparr>op_input = input, op_headers = hs, op_task = Some (Spawned D), op_channel = None, op_waiting = None,
      op_terminal = None, op_reply_bytes = 0, op_http_initialization = initialization, op_http_response = None\<rparr>"

definition submit :: "uuids \<Rightarrow> json_lib \<Rightarrow> string \<Rightarrow> (string, json) btree \<Rightarrow> server_input \<Rightarrow> sessions \<Rightarrow>
    sessions \<times> (error + unit)" where
  "submit U J sid headers input R =
     (case rbind (bounded J (enc_input input)) (\<lambda>_. rbind (bounded J (JObj headers)) (\<lambda>_.
           rbind (validate_id U (in_operation_id input)) (\<lambda>u.
             if too_many_items J (in_line input) then Inl (invalid ''server batch exceeds item limit'')
             else rbind (collect_headers headers []) (\<lambda>hs.
               rbind (locate U sid R) (\<lambda>(key, se). Inr (u, hs, key, se)))))) of
        Inl err \<Rightarrow> (R, Inl err)
      | Inr (u, hs, key, se) \<Rightarrow> (case current_operation input hs se of
          Some r \<Rightarrow> (R, r)
        | None \<Rightarrow>
            if u \<le> se_sequence se then (R, Inl (invalid ''server operation identifier already used''))
            else
              let initialization = is_initialize_request J (in_line input);
                  rejection = (if initialization then None else Option.bind (se_http se) (\<lambda>c.
                    http_admission_error c (header_value header_session_id headers)
                      (header_value header_protocol_version headers)))
              in case rejection of
                Some response \<Rightarrow> (put_operation key (se\<lparr>se_sequence := u\<rparr>)
                    (rejected_http_operation input hs initialization response) R, Inr ())
              | None \<Rightarrow> (case declared (se_config se) of
                  Inl err \<Rightarrow> (R, Inl err)
                | Inr D \<Rightarrow> (put_operation key (se\<lparr>se_sequence := u\<rparr>)
                    (start_operation input hs initialization D) R, Inr ()))))"

text \<open>The executor polls the spawned task of a session.\<close>

definition task_halts :: "string \<Rightarrow> outcome halt \<Rightarrow> session \<Rightarrow> operation \<Rightarrow> session" where
  "task_halts fresh h se p = (case h of
     Finished (s, r) \<Rightarrow> se\<lparr>se_client := s, se_operation := Some (p\<lparr>op_task := Some (Ended r)\<rparr>)\<rparr>
   | Waits s call k \<Rightarrow> se\<lparr>se_client := s, se_operation := Some (p\<lparr>op_task := Some (Blocked k),
       op_channel := Some \<lparr>cb_id = fresh, cb_call = call\<rparr>\<rparr>)\<rparr>)"

definition run_session :: "json_lib \<Rightarrow> string \<Rightarrow> session \<Rightarrow> session" where
  "run_session J fresh se = (case se_operation se of
     None \<Rightarrow> se
   | Some p \<Rightarrow> (case op_task p of
       Some (Spawned D) \<Rightarrow> task_halts fresh (advance J
         (handle_line_bounded D J (op_headers p) (se_client se) (in_line (op_input p)) max_bytes)) se p
     | Some (Resumed t) \<Rightarrow> task_halts fresh (advance J t) se p
     | _ \<Rightarrow> se))"

definition run_worker :: "json_lib \<Rightarrow> string \<Rightarrow> string \<Rightarrow> sessions \<Rightarrow> sessions" where
  "run_worker J fresh key R = (case bt_get (rg_active R) key of
     None \<Rightarrow> R | Some se \<Rightarrow> put_session key (run_session J fresh se) R)"

section \<open>Observing and completing\<close>

record operation_snapshot =
  os_operation_id :: string
  os_state :: operation_state
  os_http_response :: "http_response option"

text \<open>The HTTP response of an operation is decided when its end is first observed.\<close>

definition settle_http :: "string \<Rightarrow> session \<Rightarrow> operation \<Rightarrow> session \<times> operation" where
  "settle_http fresh se p =
     (if se_http se \<noteq> None \<and> op_http_response p = None then
        (case op_terminal p of
           None \<Rightarrow> (se, p)
         | Some state \<Rightarrow>
             let (response, opened) = http_response_metadata fresh state (op_http_initialization p) (metadata (se_client se))
             in (case opened of Some c \<Rightarrow> se\<lparr>se_http := Some c\<rparr> | None \<Rightarrow> se, p\<lparr>op_http_response := Some response\<rparr>))
      else (se, p))"

definition observe_operation :: "operation \<Rightarrow> operation \<times> operation_state" where
  "observe_operation p = (case op_terminal p of
     Some t \<Rightarrow> (p, t)
   | None \<Rightarrow> (case op_waiting p of
       Some cb \<Rightarrow> (p, Callback cb)
     | None \<Rightarrow> (case op_channel p of
         Some cb \<Rightarrow> (p\<lparr>op_waiting := Some cb, op_channel := None\<rparr>, Callback cb)
       | None \<Rightarrow> (p, Pending))))"

definition poll_session :: "string \<Rightarrow> session \<Rightarrow> operation \<Rightarrow> session \<times> operation_snapshot" where
  "poll_session fresh se p =
     (let (se, p) = settle_http fresh se (op_finish p); (p, state) = observe_operation p
      in (se\<lparr>se_operation := Some p\<rparr>,
          \<lparr>os_operation_id = in_operation_id (op_input p), os_state = state, os_http_response = op_http_response p\<rparr>))"

definition poll :: "uuids \<Rightarrow> string \<Rightarrow> string \<Rightarrow> sessions \<Rightarrow> sessions \<times> (error + operation_snapshot)" where
  "poll U fresh sid R = (case locate_operation U sid R of
     Inl err \<Rightarrow> (R, Inl err)
   | Inr (key, se, p) \<Rightarrow> let (se, snapshot) = poll_session fresh se p in (put_session key se R, Inr snapshot))"

text \<open>A reply is charged to the operation, taken for its callback, and wakes the task.\<close>

definition complete_operation :: "string \<Rightarrow> nat \<Rightarrow> server_host_reply \<Rightarrow> operation \<Rightarrow> operation \<times> (error + unit)" where
  "complete_operation callback_id bytes reply p =
     (if op_terminal p \<noteq> None then (p, Inl (invalid ''server operation finished''))
      else case op_waiting p of
        None \<Rightarrow> (p, Inl (invalid ''server callback is not outstanding''))
      | Some cb \<Rightarrow>
          if cb_id cb \<noteq> callback_id then (p, Inl (invalid ''unknown server callback''))
          else if op_reply_bytes p + bytes > max_bytes
          then (p, Inl (invalid ''server replies exceed aggregate byte limit''))
          else
            let p = p\<lparr>op_reply_bytes := op_reply_bytes p + bytes, op_waiting := None\<rparr>
            in case op_task p of
                 Some (Blocked k) \<Rightarrow> (p\<lparr>op_task := Some (Resumed (k reply))\<rparr>, Inr ())
               | _ \<Rightarrow> (p, Inl (invalid ''server callback stopped'')))"

definition complete :: "uuids \<Rightarrow> json_lib \<Rightarrow> string \<Rightarrow> string \<Rightarrow> server_host_reply \<Rightarrow> sessions \<Rightarrow>
    sessions \<times> (error + unit)" where
  "complete U J sid callback_id reply R =
     (case rbind (bounded J (enc_reply reply)) (\<lambda>bytes. rbind (locate_operation U sid R) (\<lambda>found. Inr (bytes, found))) of
        Inl err \<Rightarrow> (R, Inl err)
      | Inr (bytes, key, se, p) \<Rightarrow>
          let (p, r) = complete_operation callback_id bytes reply p in (put_operation key se p R, r))"

definition cancel_operation :: "operation \<Rightarrow> operation" where
  "cancel_operation p =
     (let p = op_finish p in if op_terminal p = None then (op_stop p)\<lparr>op_terminal := Some Cancelled\<rparr> else p)"

definition cancel :: "uuids \<Rightarrow> string \<Rightarrow> string \<Rightarrow> sessions \<Rightarrow> sessions \<times> (error + unit)" where
  "cancel U sid operation_id R = (case locate_operation U sid R of
     Inl err \<Rightarrow> (R, Inl err)
   | Inr (key, se, p) \<Rightarrow>
       if in_operation_id (op_input p) \<noteq> operation_id then (R, Inl (invalid ''stale server cancellation''))
       else (put_operation key se (cancel_operation p) R, Inr ()))"

section \<open>Closing\<close>

text \<open>A session that is removed has its task stopped and joined first.\<close>

definition remove_session :: "string \<Rightarrow> sessions \<Rightarrow> sessions" where
  "remove_session key R = R\<lparr>rg_active := bt_remove key (rg_active R)\<rparr>"

definition close_session :: "uuids \<Rightarrow> string \<Rightarrow> sessions \<Rightarrow> sessions \<times> (error + unit)" where
  "close_session U sid R = (case validate_id U sid of
     Inl err \<Rightarrow> (R, Inl err)
   | Inr u \<Rightarrow>
       let R = (if bt_get (rg_active R) (uu_show U u) = None then reserve_close u R else R)
       in (remove_session (uu_show U u) R, Inr ()))"

definition close_http_session :: "uuids \<Rightarrow> string \<Rightarrow> string \<Rightarrow> sessions \<Rightarrow> sessions \<times> (error + unit)" where
  "close_http_session U requested internal R = (case validate_id U internal of
     Inl err \<Rightarrow> (R, Inl err)
   | Inr u \<Rightarrow> (case bt_get (rg_active R) (uu_show U u) of
       None \<Rightarrow> (reserve_close u R, Inr ())
     | Some se \<Rightarrow>
         if \<not> (case se_http se of Some c \<Rightarrow> hc_known c \<and> hc_requested c = Some requested | None \<Rightarrow> False)
         then (R, Inr ())
         else (remove_session (uu_show U u) R, Inr ())))"

definition shutdown :: "sessions \<Rightarrow> sessions \<times> nat" where
  "shutdown R = (R\<lparr>rg_active := []\<rparr>, length (rg_active R))"

section \<open>Metadata and HTTP sessions\<close>

text \<open>A running task holds the client's lock: reading the client then waits, which is \<open>None\<close>.\<close>

definition client_locked :: "session \<Rightarrow> bool" where
  "client_locked se = (case se_operation se of
     None \<Rightarrow> False
   | Some p \<Rightarrow> (case op_task p of Some (Blocked _) \<Rightarrow> True | Some (Resumed _) \<Rightarrow> True | _ \<Rightarrow> False))"

definition session_metadata_of :: "uuids \<Rightarrow> string \<Rightarrow> sessions \<Rightarrow> (error + session_metadata) option" where
  "session_metadata_of U sid R = (case locate U sid R of
     Inl err \<Rightarrow> Some (Inl err)
   | Inr (_, se) \<Rightarrow> if client_locked se then None else Some (Inr (metadata (se_client se))))"

datatype http_method = HttpGet | HttpDelete

record http_session_request =
  hq_method :: http_method
  hq_requested :: "string option"
  hq_internal :: "string option"
  hq_headers :: "(string, json) btree"

definition enc_http_request :: "http_session_request \<Rightarrow> json" where
  "enc_http_request q = jobject
     [(''method'', JStr (case hq_method q of HttpGet \<Rightarrow> ''get'' | HttpDelete \<Rightarrow> ''delete'')),
      (''requested_session_id'', enc_opt JStr (hq_requested q)),
      (''internal_session_id'', enc_opt JStr (hq_internal q)), (''headers'', JObj (hq_headers q))]"

definition http_delete :: "uuids \<Rightarrow> string \<Rightarrow> http_session_request \<Rightarrow> sessions \<Rightarrow> sessions \<times> http_response" where
  "http_delete U supplied q R =
     (let done = \<lparr>hr_status = 204, hr_headers = [], hr_content_type = None, hr_error_body = None\<rparr> in
      case hq_internal q of
        Some internal \<Rightarrow>
          if hq_requested q = Some supplied then
            (case close_http_session U supplied internal R of
               (R, Inl _) \<Rightarrow> (R, http_error 500 ''internal server error'')
             | (R, Inr _) \<Rightarrow> (R, done))
          else (R, done)
      | None \<Rightarrow> (R, done))"

definition http_get :: "uuids \<Rightarrow> string \<Rightarrow> string option \<Rightarrow> http_session_request \<Rightarrow> sessions \<Rightarrow> http_response option" where
  "http_get U supplied protocol_header q R =
     (let unknown = Some (http_error 404 unknown_http_session) in
      case (hq_requested q, hq_internal q) of
        (Some requested, Some internal) \<Rightarrow>
          if requested \<noteq> supplied then unknown
          else (case validate_id U internal of
            Inl _ \<Rightarrow> unknown
          | Inr u \<Rightarrow> (case bt_get (rg_active R) (uu_show U u) of
              None \<Rightarrow> unknown
            | Some se \<Rightarrow> (case se_http se of
                None \<Rightarrow> unknown
              | Some c \<Rightarrow>
                  if \<not> hc_known c \<or> hc_requested c \<noteq> Some requested then unknown
                  else if client_locked se then None
                  else let m = metadata (se_client se) in
                    if \<not> sm_initialized m then unknown
                    else if protocol_header \<noteq> hc_expected_version c \<or> protocol_header \<noteq> sm_protocol_version m
                    then Some (http_error 400 bad_version_header)
                    else Some \<lparr>hr_status = 200, hr_headers = [], hr_content_type = Some ''text/event-stream'',
                      hr_error_body = None\<rparr>)))
      | _ \<Rightarrow> unknown)"

definition http_session :: "uuids \<Rightarrow> json_lib \<Rightarrow> http_session_request \<Rightarrow> sessions \<Rightarrow> sessions \<times> http_response option" where
  "http_session U J q R = (case bounded J (enc_http_request q) of
     Inl _ \<Rightarrow> (R, Some (http_error 400 ''invalid HTTP session request''))
   | Inr _ \<Rightarrow> (case header_value header_session_id (hq_headers q) of
       None \<Rightarrow> (R, Some (http_error 400 ''missing Mcp-Session-Id header''))
     | Some supplied \<Rightarrow> (case hq_method q of
         HttpDelete \<Rightarrow> let (R, response) = http_delete U supplied q R in (R, Some response)
       | HttpGet \<Rightarrow> (R, http_get U supplied (header_value header_protocol_version (hq_headers q)) q R))))"

end
