(* ===== verification/Server_Facts.thy ===== *)
theory Server_Facts
  imports Server_Protocol
begin

text \<open>
  What the protocol guarantees whatever the host answers: one well-formed response per request,
  in order, under the request's identifier; a budget that changes nothing but the refusal; and a
  client whose name, once taken, stays.
\<close>

section \<open>Tasks\<close>

lemma run_tbind:
  "run_task H (tbind t f) n = run_task H (f (snd (run_task H t n))) (fst (run_task H t n))"
  by (induction t arbitrary: n) simp_all

primrec task_all :: "('a \<Rightarrow> bool) \<Rightarrow> 'a task \<Rightarrow> bool" where
  "task_all P (Done a) = P a"
| "task_all P (AskTools s c k) = (\<forall>r. task_all P (k r))"
| "task_all P (AskHost s c k) = (\<forall>r. task_all P (k r))"

lemma task_all_tbind: "task_all P (tbind t f) = task_all (\<lambda>a. task_all P (f a)) t"
  by (induction t) simp_all

lemma task_all_run: "task_all P t \<Longrightarrow> P (snd (run_task H t n))"
  by (induction t arbitrary: n) simp_all

lemma task_all_mono: "task_all P t \<Longrightarrow> (\<And>a. P a \<Longrightarrow> Q a) \<Longrightarrow> task_all Q t"
  by (induction t) simp_all

section \<open>One response per request\<close>

definition wants_answer :: "json \<Rightarrow> bool" where
  "wants_answer v = (case v of JObj m \<Rightarrow> bt_get m ''id'' \<noteq> None | _ \<Rightarrow> True)"

definition reply_id :: "json \<Rightarrow> json" where
  "reply_id v = (case jget ''id'' v of Some i \<Rightarrow> if valid_request_id i then i else JNull | None \<Rightarrow> JNull)"

definition error_phrases :: "(int \<times> string) list" where
  "error_phrases = [(parse_error, ''Parse error''), (invalid_request, ''Invalid Request''),
     (method_not_found, ''Method not found''), (invalid_params, ''Invalid params''),
     (internal_error, ''Internal error''), (resource_not_found, ''Resource not found'')]"

definition rpc_error :: "json \<Rightarrow> bool" where
  "rpc_error e = (case (jget ''code'' e, jget ''message'' e, jget ''data'' e) of
     (Some (JInt code), Some (JStr phrase), Some (JStr _)) \<Rightarrow> (code, phrase) \<in> set error_phrases
   | _ \<Rightarrow> False)"

text \<open>A JSON-RPC 2.0 response: its version, an identifier, and a result or an error, not both.\<close>

definition rpc_response :: "json \<Rightarrow> bool" where
  "rpc_response r = (jget ''jsonrpc'' r = Some (JStr ''2.0'') \<and>
     (case jget ''id'' r of Some i \<Rightarrow> i = JNull \<or> valid_request_id i | None \<Rightarrow> False) \<and>
     (case (jget ''result'' r, jget ''error'' r) of
        (Some _, None) \<Rightarrow> True | (None, Some e) \<Rightarrow> rpc_error e | _ \<Rightarrow> False))"

lemma success_rpc [simp]: "i = JNull \<or> valid_request_id i \<Longrightarrow> rpc_response (success_response i v)"
  by (simp add: rpc_response_def success_response_def envelope_def)

lemma error_rpc [simp]:
  "i = JNull \<or> valid_request_id i \<Longrightarrow> (code, phrase) \<in> set error_phrases \<Longrightarrow>
   rpc_response (error_response i code phrase (Some detail))"
  by (simp add: rpc_response_def rpc_error_def error_response_def envelope_def insert_some_def)

lemma response_id [simp]:
  "jget ''id'' (success_response i v) = Some i"
  "jget ''id'' (error_response i code phrase detail) = Some i"
  by (simp_all add: success_response_def error_response_def envelope_def)

lemma phrases [simp]: "(code, phrase) \<in> set error_phrases \<longleftrightarrow>
   (code, phrase) = (parse_error, ''Parse error'') \<or> (code, phrase) = (invalid_request, ''Invalid Request'') \<or>
   (code, phrase) = (method_not_found, ''Method not found'') \<or> (code, phrase) = (invalid_params, ''Invalid params'') \<or>
   (code, phrase) = (internal_error, ''Internal error'') \<or> (code, phrase) = (resource_not_found, ''Resource not found'')"
  by (auto simp: error_phrases_def)

definition answers :: "json \<Rightarrow> json \<Rightarrow> bool" where
  "answers i r = (rpc_response r \<and> jget ''id'' r = Some i)"

lemma answers_refused [simp]: "i = JNull \<or> valid_request_id i \<Longrightarrow> answers i (refused i err)"
  unfolding answers_def refused_def by (cases err) (simp_all del: phrases add: error_phrases_def)

lemma answers_simps [simp]:
  assumes "i = JNull \<or> valid_request_id i"
  shows "answers i (success_response i v)" "answers i (bad_request i why)" "answers i (bad_params i why)"
    "answers i (handler_response i r)"
    "answers i (error_response i method_not_found ''Method not found'' (Some why))"
  using assms answers_refused [OF assms]
  by (auto simp: answers_def bad_request_def bad_params_def handler_response_def split: sum.splits)

section \<open>Client sessions\<close>

text \<open>Lowercase letters and digits in words with single hyphens between them.\<close>

definition client_name_ok :: "string \<Rightarrow> bool" where
  "client_name_ok s = (s \<noteq> [] \<and> hd s \<noteq> hyphen \<and> last s \<noteq> hyphen \<and> \<not> contains_str [hyphen, hyphen] s \<and>
     list_all (\<lambda>c. is_lower c \<or> is_digit c \<or> c = hyphen) s)"

lemma double_hyphen_snoc:
  "contains_str [h, h] (out @ [c]) \<longleftrightarrow> contains_str [h, h] out \<or> (out \<noteq> [] \<and> last out = h \<and> c = h)"
proof -
  have "(\<exists>a b. out @ [c] = a @ [h, h] @ b) \<longleftrightarrow> (\<exists>a b. out = a @ [h, h] @ b) \<or> (\<exists>a. out = a @ [h] \<and> c = h)"
  proof
    assume "\<exists>a b. out @ [c] = a @ [h, h] @ b"
    then obtain a b where "out @ [c] = a @ [h, h] @ b" by blast
    then show "(\<exists>a b. out = a @ [h, h] @ b) \<or> (\<exists>a. out = a @ [h] \<and> c = h)"
      by (cases b rule: rev_cases) (auto simp flip: append_assoc)
  next
    assume "(\<exists>a b. out = a @ [h, h] @ b) \<or> (\<exists>a. out = a @ [h] \<and> c = h)"
    then show "\<exists>a b. out @ [c] = a @ [h, h] @ b"
      by (metis append.assoc append_Cons append_Nil)
  qed
  moreover have "(\<exists>a. out = a @ [h] \<and> c = h) \<longleftrightarrow> out \<noteq> [] \<and> last out = h \<and> c = h"
    by (metis append_butlast_last_id last_snoc snoc_eq_iff_butlast)
  ultimately show ?thesis by (simp add: contains_str_sublist sublist_def)
qed

lemma client_slug_shape:
  assumes "list_all (\<lambda>c. is_lower c \<or> is_digit c \<or> c = hyphen) out" "\<not> contains_str [hyphen, hyphen] out"
    and "out \<noteq> [] \<longrightarrow> hd out \<noteq> hyphen \<and> (sep \<or> last out \<noteq> hyphen)"
  shows "let r = client_slug out sep raw in
    list_all (\<lambda>c. is_lower c \<or> is_digit c \<or> c = hyphen) r \<and> \<not> contains_str [hyphen, hyphen] r \<and>
    (r \<noteq> [] \<longrightarrow> hd r \<noteq> hyphen)"
  using assms
proof (induction out sep raw rule: client_slug.induct)
  case (2 out sep ch rest)
  have lower: "is_alnum ch \<Longrightarrow> is_lower (to_lower ch) \<or> is_digit (to_lower ch)"
    using to_lower_alnum [of ch] to_lower_not_upper [of ch] by (auto simp: is_alnum_def)
  then have "is_alnum ch \<Longrightarrow> to_lower ch \<noteq> hyphen" by (auto simp: byte_defs hyphen_def)
  with 2 lower show ?case by (auto simp: double_hyphen_snoc hd_append)
qed (simp add: Let_def)

lemma normalized_name: "normalize_client_name raw = Some name \<Longrightarrow> client_name_ok name"
proof -
  assume some: "normalize_client_name raw = Some name"
  let ?r = "client_slug [] False (trim raw)"
  have r: "list_all (\<lambda>c. is_lower c \<or> is_digit c \<or> c = hyphen) ?r" "\<not> contains_str [hyphen, hyphen] ?r" "?r \<noteq> [] \<longrightarrow> hd ?r \<noteq> hyphen"
    using client_slug_shape [of "[]" False "trim raw"] by (auto simp: Let_def)
  from some have name: "name = rev (dropWhile (\<lambda>c. c = hyphen) (rev ?r))" "name \<noteq> []"
    by (auto simp: normalize_client_name_def Let_def split: if_splits)
  then have "last name \<noteq> hyphen" using hd_dropWhile [of "\<lambda>c. c = hyphen" "rev ?r"] by (simp add: last_rev)
  moreover obtain w where w: "?r = name @ w"
    using takeWhile_dropWhile_id [of "\<lambda>c. c = hyphen" "rev ?r"] name(1) by (metis rev_append rev_rev_ident)
  moreover have "\<not> contains_str [hyphen, hyphen] name" using r(2) w
    unfolding contains_str_sublist by (metis sublist_append_rightI sublist_order.order_trans)
  ultimately show ?thesis using r name(2) by (simp add: client_name_ok_def)
qed

definition named :: "string \<Rightarrow> string option \<Rightarrow> bool" where
  "named p x = (case x of None \<Rightarrow> True
     | Some t \<Rightarrow> t = p \<or> (\<exists>name. client_name_ok name \<and> t = p @ '':'' @ name))"

definition session_ok :: "client_session \<Rightarrow> bool" where
  "session_ok s = (named (cs_prefix s) (cs_source s) \<and> (cs_initialized s \<longleftrightarrow> cs_version s \<noteq> None) \<and>
     (cs_initialized s \<longrightarrow> cs_source s \<noteq> None) \<and>
     (case cs_version s of None \<Rightarrow> True | Some v \<Rightarrow> v \<in> set supported_protocol_versions))"

text \<open>What a message may do to a session.\<close>

definition evolves :: "client_session \<Rightarrow> client_session \<Rightarrow> bool" where
  "evolves s s' = ((session_ok s \<longrightarrow> session_ok s') \<and> cs_prefix s' = cs_prefix s \<and>
     (cs_initialized s \<longrightarrow> cs_initialized s') \<and> (cs_source s \<noteq> None \<longrightarrow> cs_source s' = cs_source s))"

lemma evolves_refl [simp]: "evolves s s"
  by (simp add: evolves_def)

lemma evolves_trans: "evolves s s' \<Longrightarrow> evolves s' s'' \<Longrightarrow> evolves s s''"
  by (auto simp: evolves_def)

lemma observe_params:
  "cs_source (observe_initialize_params params s) \<noteq> None \<and>
   cs_prefix (observe_initialize_params params s) = cs_prefix s \<and>
   (cs_source s \<noteq> None \<longrightarrow> observe_initialize_params params s = s) \<and>
   (named (cs_prefix s) (cs_source s) \<longrightarrow> named (cs_prefix s) (cs_source (observe_initialize_params params s))) \<and>
   cs_initialized (observe_initialize_params params s) = cs_initialized s \<and>
   cs_version (observe_initialize_params params s) = cs_version s"
  by (auto simp: observe_initialize_params_def named_def bind_eq_Some_conv normalized_name split: option.splits)

definition negotiated :: "json \<Rightarrow> string" where
  "negotiated params = (case Option.bind (jget ''protocolVersion'' params) as_str of
     Some v \<Rightarrow> if v \<in> set supported_protocol_versions then v else latest_protocol_version
   | None \<Rightarrow> latest_protocol_version)"

lemma negotiated_supported: "negotiated params \<in> set supported_protocol_versions"
  by (auto simp: negotiated_def supported_protocol_versions_def split: option.splits)

lemma initialize_version: "jget ''protocolVersion'' (initialize_result_of info params) = Some (JStr (negotiated params))"
  by (simp add: initialize_result_of_def negotiated_def Let_def insert_some_def bt_of_list_def bt_get_extend
      split: option.splits)

lemma initialize_evolves:
  "evolves s (observe_initialize_response (negotiated params) (observe_initialize_params params s))"
  using observe_params [of params s] negotiated_supported [of params]
  by (auto simp: evolves_def session_ok_def observe_initialize_response_def)

lemma handle_request_answers:
  assumes "valid_request_id i"
  shows "task_all (\<lambda>(s', r). answers i r \<and> evolves s s') (handle_request D J hs s i meth params)"
  using assms
  by (auto simp: handle_request_def Let_def call_tool_def read_resource_def get_prompt_def initialize_version
      initialize_evolves split: option.splits sum.splits json.splits)

lemma single_answers:
  "task_all (\<lambda>(s', r). evolves s s' \<and> (case r of None \<Rightarrow> \<not> wants_answer v
     | Some r \<Rightarrow> wants_answer v \<and> answers (reply_id v) r)) (handle_single_message D J hs s v)"
proof (cases v)
  case (JObj m)
  show ?thesis
  proof (cases "bt_get m ''id''")
    case None
    with JObj show ?thesis by (simp add: handle_single_message_def wants_answer_def)
  next
    case (Some i)
    show ?thesis
    proof (cases "valid_request_id i")
      case True
      note this [simp]
      have "task_all (\<lambda>(s', r). answers i r \<and> evolves s s') (handle_request D J hs s i meth params)" for meth params
        by (simp add: handle_request_answers)
      then have ans: "task_all (\<lambda>(s', r). evolves s s' \<and> (case r of None \<Rightarrow> False | Some r \<Rightarrow> answers i r))
          (tbind (handle_request D J hs s i meth params) (\<lambda>(s, r). Done (s, Some r)))" for meth params
        unfolding task_all_tbind by (rule task_all_mono) auto
      with JObj Some show ?thesis
        by (auto simp: handle_single_message_def wants_answer_def reply_id_def Let_def
            intro: task_all_mono [OF ans] split: option.splits)
    next
      case False
      with JObj Some show ?thesis
        by (simp add: handle_single_message_def wants_answer_def reply_id_def)
    qed
  qed
qed (simp_all add: handle_single_message_def wants_answer_def reply_id_def jget_def)

definition answer_all :: "json list \<Rightarrow> json list \<Rightarrow> bool" where
  "answer_all vs rs = list_all2 (\<lambda>v. answers (reply_id v)) (filter wants_answer vs) rs"

lemma items_answer:
  "task_all (\<lambda>(s', rs). evolves s s' \<and> (\<exists>rs'. rs = out @ rs' \<and> answer_all vs rs')) (handle_items D J hs s vs out)"
proof (induction vs arbitrary: s out)
  case Nil
  then show ?case by (simp add: answer_all_def)
next
  case (Cons v vs)
  show ?case unfolding handle_items.simps task_all_tbind
  proof (rule task_all_mono [OF single_answers [of s v]], clarify)
    fix s1 r
    assume r: "evolves s s1" "case r of None \<Rightarrow> \<not> wants_answer v | Some r \<Rightarrow> wants_answer v \<and> answers (reply_id v) r"
    have "task_all (\<lambda>(s', rs). evolves s1 s' \<and> (\<exists>rs'. rs = (case r of None \<Rightarrow> out | Some r \<Rightarrow> out @ [r]) @ rs' \<and> answer_all vs rs'))
        (handle_items D J hs s1 vs (case r of None \<Rightarrow> out | Some r \<Rightarrow> out @ [r]))" by (rule Cons.IH)
    then show "task_all (\<lambda>(s', rs). evolves s s' \<and> (\<exists>rs'. rs = out @ rs' \<and> answer_all (v # vs) rs'))
        (handle_items D J hs s1 vs (case r of None \<Rightarrow> out | Some r \<Rightarrow> out @ [r]))"
      by (rule task_all_mono) (use r in \<open>auto simp: answer_all_def split: option.splits intro: evolves_trans\<close>)
  qed
qed

lemma value_answers:
  "task_all (\<lambda>(s', rs). evolves s s' \<and> (case v of
      JArr [] \<Rightarrow> rs = [empty_batch] | JArr vs \<Rightarrow> answer_all vs rs | _ \<Rightarrow> answer_all [v] rs)) (handle_value D J hs s v)"
proof (cases "\<exists>item items. v = JArr (item # items)")
  case True
  then obtain item items where v: "v = JArr (item # items)" by blast
  show ?thesis unfolding v handle_value_def json.case list.case
    by (rule task_all_mono [OF items_answer [of s "[]"]]) auto
next
  case False
  have "task_all (\<lambda>(s', rs). evolves s s' \<and> answer_all [v] rs)
      (tbind (handle_single_message D J hs s v) (\<lambda>(s, r). Done (s, case r of None \<Rightarrow> [] | Some r \<Rightarrow> [r])))"
    unfolding task_all_tbind
    by (rule task_all_mono [OF single_answers [of s v]]) (auto simp: answer_all_def split: option.splits)
  with False show ?thesis
    by (cases v) (auto simp: handle_value_def split: list.splits)
qed

text \<open>
  C10. Every message of a batch that is not a notification gets exactly one response, in the
  order of the messages, under its own identifier where that is a string or an integer and
  under null where it is not; a notification gets none, and an empty batch gets one refusal.
  Every response is a JSON-RPC 2.0 response with either a result or an error whose code and
  phrase belong together, whatever the host answers meanwhile.
\<close>

theorem one_response_per_request:
  "let rs = snd (snd (run_task H (handle_value D J hs s v) n)) in
   list_all rpc_response rs \<and>
   map (jget ''id'') rs = map (Some \<circ> reply_id) (case v of
     JArr [] \<Rightarrow> [JNull] | JArr vs \<Rightarrow> filter wants_answer vs | _ \<Rightarrow> filter wants_answer [v])"
proof -
  have all: "answer_all vs rs \<Longrightarrow> list_all rpc_response rs \<and> map (jget ''id'') rs = map (Some \<circ> reply_id) (filter wants_answer vs)"
    for vs rs
    unfolding answer_all_def by (induction rule: list_all2_induct) (auto simp: answers_def)
  let ?rs = "snd (snd (run_task H (handle_value D J hs s v) n))"
  have *: "case v of JArr [] \<Rightarrow> ?rs = [empty_batch] | JArr vs \<Rightarrow> answer_all vs ?rs | _ \<Rightarrow> answer_all [v] ?rs"
    using task_all_run [OF value_answers [of s v D J hs], of H n] by (auto simp: case_prod_beta)
  have "reply_id JNull = JNull" by (simp add: reply_id_def jget_def)
  moreover have "answers JNull empty_batch" unfolding empty_batch_def by simp
  ultimately have none: "list_all rpc_response [empty_batch] \<and> map (jget ''id'') [empty_batch] = map (Some \<circ> reply_id) [JNull]"
    by (simp add: answers_def)
  show ?thesis
  proof (cases v)
    case (JArr vs)
    show ?thesis
    proof (cases vs)
      case Nil
      with * JArr have "?rs = [empty_batch]" by simp
      with none JArr Nil show ?thesis by (simp only: Let_def json.case list.case simp_thms)
    next
      case (Cons w ws)
      with * JArr have "answer_all (w # ws) ?rs" by simp
      from all [OF this] JArr Cons show ?thesis by (simp only: Let_def json.case list.case simp_thms)
    qed
  qed (use * all [of "[v]"] in \<open>simp_all only: Let_def json.case simp_thms\<close>)
qed

section \<open>Who the client is\<close>

text \<open>A host that serves lines to one client, whatever headers they come with.\<close>

definition line_step :: "'n server_handler \<Rightarrow> json_lib \<Rightarrow> 'n \<times> client_session \<Rightarrow> request_headers \<times> string \<Rightarrow> 'n \<times> client_session" where
  "line_step H J st input = (case run_task H (handle_line (sh_decl H) J (fst input) (snd st) (snd input)) (fst st) of
     (n, s, _) \<Rightarrow> (n, s))"

lemma line_evolves: "task_all (\<lambda>(s', r). evolves s s') (handle_line D J hs s line)"
  unfolding handle_line_def
  by (auto simp: task_all_tbind split: sum.splits intro: task_all_mono [OF value_answers])

lemma step_evolves: "evolves (snd st) (snd (line_step H J st input))"
  using task_all_run [OF line_evolves [of "snd st" "sh_decl H" J "fst input" "snd input"], of H "fst st"]
  by (auto simp: line_step_def split: prod.splits)

lemma run_evolves: "evolves (snd st) (snd (run_ops (line_step H J) st inputs))"
proof (induction inputs arbitrary: st)
  case (Cons input inputs)
  show ?case using evolves_trans [OF step_evolves Cons.IH] by simp
qed simp

interpretation client: op_machine "line_step H J" "\<lambda>st. session_ok (snd st)" "(n, session_new p)"
  for H :: "'n server_handler" and J n p
proof
  show "session_ok (snd (n, session_new p))" by (simp add: session_ok_def session_new_def named_def)
  show "session_ok (snd (line_step H J st input))" if "session_ok (snd st)" for st input
    using that step_evolves [of st H J input] by (simp add: evolves_def)
qed

text \<open>
  C30. Whatever lines a client sends, its source type is the host's prefix or the prefix with a
  name of lowercase letters and digits in words with single hyphens; once the first initialize
  has decided it no later line changes it. An initialized session has both a source type and a
  supported protocol version.
\<close>

theorem client_identity_settles:
  fixes H :: "'n server_handler"
  shows "let after = (\<lambda>inputs. snd (run_ops (line_step H J) (n, session_new p) inputs)); s = after inputs in
    (source_type s = p \<or> (\<exists>name. client_name_ok name \<and> source_type s = p @ '':'' @ name)) \<and>
    (case cs_source s of None \<Rightarrow> metadata s = \<lparr>sm_initialized = False, sm_protocol_version = None\<rparr>
      | Some t \<Rightarrow> cs_source (after (inputs @ later)) = Some t) \<and>
    (case sm_protocol_version (metadata s) of None \<Rightarrow> \<not> sm_initialized (metadata s)
      | Some v \<Rightarrow> sm_initialized (metadata s) \<and> v \<in> set supported_protocol_versions)"
proof -
  let ?s = "snd (run_ops (line_step H J) (n, session_new p) inputs)"
  have ok: "session_ok ?s" by (rule client.inv_reachable)
  have p: "cs_prefix ?s = p" using run_evolves [of "(n, session_new p)" H J inputs] by (simp add: evolves_def session_new_def)
  have "evolves ?s (snd (run_ops (line_step H J) (n, session_new p) (inputs @ later)))"
    by (simp add: run_evolves)
  with ok p show ?thesis
    by (auto simp: Let_def session_ok_def named_def source_type_def metadata_def evolves_def split: option.splits)
qed

section \<open>The budget\<close>

lemma limited_write_Inr:
  "limited_write limit out p = Inr out' \<longleftrightarrow> out' = out @ p \<and> length p \<le> limit - length out"
  by (auto simp: limited_write_def)

lemma write_pieces_Inr:
  "write_pieces limit ps out = Inr out' \<Longrightarrow> out' = out @ concat ps \<and> (length out \<le> limit \<longrightarrow> length out' \<le> limit)"
  by (induction limit ps out rule: write_pieces.induct) (fastforce simp: rbind_eq_Inr limited_write_Inr)+

lemma write_pieces_fits:
  "length out + length (concat ps) \<le> limit \<Longrightarrow> write_pieces limit ps out = Inr (out @ concat ps)"
  by (induction limit ps out rule: write_pieces.induct) (auto simp: limited_write_def)

lemma join_snoc: "join sep (xs @ [y]) = (if xs = [] then y else join sep xs @ sep @ y)"
  by (induction sep xs rule: join.induct) auto

text \<open>What is written after some answers, before the closing bracket.\<close>

definition written :: "json_lib \<Rightarrow> bool \<Rightarrow> json list \<Rightarrow> string" where
  "written J batch rs = (if rs = [] then [] else (if batch then ''['' else []) @ join '','' (map (to_text J) rs))"

lemma write_response_Inr:
  assumes "write_response J limit batch (length rs) r (written J batch rs) = Inr out"
  shows "out = written J batch (rs @ [r]) \<and> (length (written J batch rs) \<le> limit \<longrightarrow> length out \<le> limit)"
  using assms
  by (auto simp: write_response_def rbind_eq_Inr limited_write_Inr written_def join_snoc to_text_def
      split: if_splits dest!: write_pieces_Inr)

lemma bounded_items_agree:
  assumes "run_task H (bounded_items D J hs limit batch s items (written J batch rs) (length rs)) n = (n', s', Inr (out, count))"
    and "batch \<or> JArr [] \<notin> set items" "length (written J batch rs) \<le> limit"
  shows "\<exists>rs'. run_task H (handle_items D J hs s items rs) n = (n', s', rs') \<and>
    out = written J batch rs' \<and> count = length rs' \<and> length out \<le> limit"
  using assms
proof (induction items arbitrary: s rs n)
  case (Cons item items)
  obtain n1 s1 r where one: "run_task H (handle_single_message D J hs s item) n = (n1, s1, r)"
    by (metis prod.collapse)
  have item: "\<not> (item = JArr [] \<and> \<not> batch)" using Cons.prems(2) by auto
  show ?case
  proof (cases r)
    case None
    with Cons.prems one item Cons.IH [of s1 rs n1] show ?thesis
      by (auto simp: run_tbind split: if_splits)
  next
    case (Some response)
    with Cons.prems(1) one item obtain out1 where
      w: "write_response J limit batch (length rs) response (written J batch rs) = Inr out1"
      and go: "run_task H (bounded_items D J hs limit batch s1 items out1 (length rs + 1)) n1 = (n', s', Inr (out, count))"
      by (auto simp: run_tbind split: if_splits sum.splits)
    have out1: "out1 = written J batch (rs @ [response])" "length out1 \<le> limit"
      using write_response_Inr [OF w] Cons.prems(3) by auto
    with go Cons.prems(2) Cons.IH [of s1 "rs @ [response]" n1] one Some show ?thesis
      by (auto simp: run_tbind)
  qed
qed simp

text \<open>serde's compact form of an array: its elements between brackets, separated by commas.\<close>

definition compact :: "json_lib \<Rightarrow> bool" where
  "compact J = (\<forall>rs. to_text J (JArr rs) = ''['' @ join '','' (map (to_text J) rs) @ '']'')"

lemma written_frame:
  assumes "compact J"
  shows "frame J True rs = (if rs = [] then None else Some (written J True rs @ '']''))"
    and "length rs \<le> 1 \<Longrightarrow> frame J False rs = (if rs = [] then None else Some (written J False rs))"
  using assms by (auto simp: frame_def written_def compact_def le_Suc_eq length_Suc_conv)

definition items_of :: "json \<Rightarrow> json list" where
  "items_of v = (case v of JArr (item # items) \<Rightarrow> item # items | other \<Rightarrow> [other])"

lemma value_items:
  "v \<noteq> JArr [] \<Longrightarrow> run_task H (handle_value D J hs s v) n = run_task H (handle_items D J hs s (items_of v) []) n"
  by (cases v) (auto simp: handle_value_def items_of_def run_tbind case_prod_beta split: list.splits option.splits)

definition close_answer :: "nat \<Rightarrow> bool \<Rightarrow> string \<times> nat \<Rightarrow> unit + string option" where
  "close_answer limit batch p = (if snd p = 0 then Inr None
     else rbind (if batch then limited_write limit (fst p) '']'' else Inr (fst p))
       (\<lambda>out. if utf8 out then Inr (Some out) else Inl ()))"

lemma bounded_unfold:
  assumes "jl_parse J line = Inr v" "is_batch v = batch"
    and "run_task H (bounded_items D J hs limit batch s (items_of v) [] 0) n = (n1, s1, b)"
  shows "run_task H (handle_line_bounded D J hs s line limit) n = (n1, s1, rbind b (close_answer limit batch))"
  using assms by (simp add: handle_line_bounded_def items_of_def run_tbind Let_def close_answer_def [abs_def] case_prod_unfold)

text \<open>The answer to an empty batch, and to a single message, is written at once.\<close>

lemma write_single:
  "write_response J limit False 0 r [] = (if length (to_text J r) \<le> limit then Inr (to_text J r) else Inl ())"
proof (cases "length (to_text J r) \<le> limit")
  case True
  then show ?thesis using write_pieces_fits [of "[]" "jl_pieces J r" limit] by (simp add: write_response_def to_text_def)
next
  case False
  then have "\<nexists>out. write_pieces limit (jl_pieces J r) [] = Inr out"
    using write_pieces_Inr [of limit "jl_pieces J r" "[]"] by (auto simp: to_text_def)
  then have "write_pieces limit (jl_pieces J r) [] = Inl ()" by (cases "write_pieces limit (jl_pieces J r) []") auto
  with False show ?thesis by (simp add: write_response_def)
qed

lemma bounded_single:
  assumes "\<not> is_batch v"
  shows "\<exists>n1 s1 rs. run_task H (handle_value D J hs s v) n = (n1, s1, rs) \<and> length rs \<le> 1 \<and>
    run_task H (bounded_items D J hs limit False s (items_of v) [] 0) n =
      (n1, s1, case rs of [] \<Rightarrow> Inr ([], 0)
        | r # _ \<Rightarrow> if length (to_text J r) \<le> limit then Inr (to_text J r, 1) else Inl ())"
proof (cases "v = JArr []")
  case True
  then show ?thesis by (simp add: handle_value_def items_of_def write_single)
next
  case False
  with assms have items: "items_of v = [v]" by (auto simp: items_of_def is_batch_def split: json.splits list.splits)
  obtain n1 s1 r where one: "run_task H (handle_single_message D J hs s v) n = (n1, s1, r)"
    by (metis prod.collapse)
  with False show ?thesis
    by (auto simp: value_items items run_tbind write_single split: option.splits)
qed

lemma bounded_answer_sound:
  assumes J: "compact J" and v: "jl_parse J line = Inr v" "is_batch v"
    and run: "run_task H (handle_line_bounded D J hs s line limit) n = (n', s', Inr r)"
  shows "run_task H (handle_line D J hs s line) n = (n', s', r) \<and> (case r of None \<Rightarrow> True | Some t \<Rightarrow> length t \<le> limit)"
proof -
  obtain n1 s1 b where b: "run_task H (bounded_items D J hs limit True s (items_of v) [] 0) n = (n1, s1, b)"
    by (metis prod.collapse)
  with run v bounded_unfold [of J line v True H D hs limit s n n1 s1 b]
  have eq: "(n1, s1, rbind b (close_answer limit True)) = (n', s', Inr r)" by simp
  then obtain out count where "b = Inr (out, count)" by (auto simp: rbind_eq_Inr)
  note b = b [unfolded this] and eq = eq [unfolded this]
  from bounded_items_agree [of H D J hs limit True s "items_of v" "[]" n] b
  obtain rs where rs: "run_task H (handle_items D J hs s (items_of v) []) n = (n1, s1, rs)"
    "out = written J True rs" "count = length rs" by (auto simp: written_def)
  have "v \<noteq> JArr []" using v(2) by (auto simp: is_batch_def)
  with rs v have line: "run_task H (handle_line D J hs s line) n = (n1, s1, frame J True rs)"
    by (simp add: handle_line_def run_tbind value_items)
  show ?thesis
  proof (cases "rs = []")
    case True
    with eq rs line written_frame(1) [OF J, of rs] show ?thesis by (simp add: close_answer_def)
  next
    case False
    with eq rs have "n1 = n' \<and> s1 = s' \<and> r = Some (out @ '']'') \<and> length out + 1 \<le> limit"
      by (auto simp: close_answer_def rbind_eq_Inr limited_write_Inr split: if_splits)
    with rs False line written_frame(1) [OF J, of rs] show ?thesis by simp
  qed
qed

text \<open>
  C33. The bounded protocol answers what the unbounded one answers, with the same calls to the
  host and the same session, or refuses: its answer is never longer than the limit, and a
  message that is not a batch is refused only when its answer is longer than the limit (or is
  not text).
\<close>

theorem bounded_answer_agrees:
  assumes "compact J"
  shows "case run_task H (handle_line_bounded D J hs s line limit) n of
      (n', s', Inr r) \<Rightarrow> run_task H (handle_line D J hs s line) n = (n', s', r) \<and>
        (case r of None \<Rightarrow> True | Some t \<Rightarrow> length t \<le> limit)
    | (n', s', Inl _) \<Rightarrow> (case jl_parse J line of Inr v \<Rightarrow> is_batch v | _ \<Rightarrow> False) \<or>
        (\<exists>t. run_task H (handle_line D J hs s line) n = (n', s', Some t) \<and> (limit < length t \<or> \<not> utf8 t))"
proof (cases "jl_parse J line")
  case (Inl err)
  then show ?thesis by (auto simp: handle_line_bounded_def handle_line_def)
next
  case (Inr v)
  show ?thesis
  proof (cases "is_batch v")
    case True
    then show ?thesis using bounded_answer_sound [OF assms Inr True, of H D hs s limit n] Inr
      by (auto split: prod.splits sum.splits)
  next
    case False
    from bounded_single [OF this, of H D J hs s n limit] obtain n1 s1 rs where
      rs: "run_task H (handle_value D J hs s v) n = (n1, s1, rs)" "length rs \<le> 1" and
      b: "run_task H (bounded_items D J hs limit False s (items_of v) [] 0) n =
        (n1, s1, case rs of [] \<Rightarrow> Inr ([], 0)
          | r # _ \<Rightarrow> if length (to_text J r) \<le> limit then Inr (to_text J r, 1) else Inl ())" by blast
    from rs Inr False have "run_task H (handle_line D J hs s line) n = (n1, s1, frame J False rs)"
      by (simp add: handle_line_def run_tbind)
    with b rs(2) False Inr bounded_unfold [OF Inr, of False H D hs limit s n] show ?thesis
      by (cases rs) (auto simp: frame_def close_answer_def)
  qed
qed

text \<open>A host without tools, and a printer of arrays.\<close>

fun brackets :: "json \<Rightarrow> string" where
  "brackets (JArr rs) = ''['' @ join '','' (map brackets rs) @ '']''"
| "brackets (JStr s) = s"
| "brackets _ = ''{}''"

definition sample_json :: "json \<Rightarrow> json_lib" where
  "sample_json v = \<lparr>jl_parse = (\<lambda>_. Inr v), jl_pieces = (\<lambda>v. [brackets v])\<rparr>"

definition sample_host :: "unit server_handler" where
  "sample_host = \<lparr>sh_decl = \<lparr>sd_info = \<lparr>si_name = ''s'', si_version = ''1'', si_instructions = None\<rparr>,
       sd_prompts = False, sd_resources = []\<rparr>,
     sh_tools = (\<lambda>_ n. (n, Inr [])), sh_host = (\<lambda>_ n. (n, Inr JNull))\<rparr>"

lemma sample_text: "to_text (sample_json v) = brackets"
  by (simp add: fun_eq_iff to_text_def sample_json_def)

theorem bounded_answer_agrees_witness:
  defines "J \<equiv> sample_json (JArr [JNull, JNull])"
  shows "snd (snd (run_task sample_host (handle_line_bounded (sh_decl sample_host) J [] (session_new ''mcp'') [] 7) ())) =
      Inr (Some ''[{},{}]'') \<and>
    snd (snd (run_task sample_host (handle_line (sh_decl sample_host) J [] (session_new ''mcp'') []) ())) = Some ''[{},{}]''"
proof -
  have c: "compact J" by (simp add: compact_def J_def sample_text)
  have run: "snd (snd (run_task sample_host (handle_line_bounded (sh_decl sample_host) J [] (session_new ''mcp'') [] 7) ())) =
      Inr (Some ''[{},{}]'')" unfolding J_def by code_simp
  from bounded_answer_agrees [OF c, where H = sample_host and D = "sh_decl sample_host" and hs = "[]" and
      s = "session_new ''mcp''" and line = "[]" and limit = 7 and n = "()"] run
  show ?thesis by (auto split: prod.splits sum.splits)
qed

end
