(* ===== verification/Server_Driver.thy ===== *)
theory Server_Driver
  imports Server_Sessions Server_Facts
begin

text \<open>
  A host that polls a session and answers its callbacks gets what the protocol answers: the
  session, driven until its operation ends, refines the protocol run against that host at once.
\<close>

section \<open>A host behind callbacks\<close>

type_synonym 'n answering = "server_host_call \<Rightarrow> 'n \<Rightarrow> 'n \<times> server_host_reply"

definition oversized :: "json_lib \<Rightarrow> server_host_call \<Rightarrow> bool" where
  "oversized J call = (length (to_text J (enc_host_call call)) > max_bytes)"

definition asked :: "json_lib \<Rightarrow> 'n answering \<Rightarrow> server_host_call \<Rightarrow> 'n \<Rightarrow> 'n \<times> (tool_call_error + json)" where
  "asked J f call n = (if oversized J call then (n, Inl call_too_large) else (fst (f call n), reply_result (snd (f call n))))"

text \<open>The handler the module's callbacks amount to.\<close>

definition bridged :: "json_lib \<Rightarrow> 'n answering \<Rightarrow> server_decl \<Rightarrow> 'n server_handler" where
  "bridged J f D = \<lparr>sh_decl = D,
     sh_tools = (\<lambda>ctx n. let call = HostListTools (rq_source_type ctx) (header_map ctx)
       in (fst (asked J f call n), tools_result (snd (asked J f call n)))),
     sh_host = (\<lambda>c n. asked J f (host_call_of c) n)\<rparr>"

text \<open>What the replies of a host to a task add up to, and how many there are.\<close>

definition charge :: "json_lib \<Rightarrow> 'n answering \<Rightarrow> server_host_call \<Rightarrow> 'n \<Rightarrow> nat" where
  "charge J f call n = (if oversized J call then 0 else length (to_text J (enc_reply (snd (f call n)))))"

primrec reply_cost :: "json_lib \<Rightarrow> 'n answering \<Rightarrow> server_decl \<Rightarrow> 'a task \<Rightarrow> 'n \<Rightarrow> nat" where
  "reply_cost J f D (Done a) = (\<lambda>n. 0)"
| "reply_cost J f D (AskTools s ctx k) = (\<lambda>n. charge J f (HostListTools (rq_source_type ctx) (header_map ctx)) n +
     reply_cost J f D (k (snd (sh_tools (bridged J f D) ctx n))) (fst (sh_tools (bridged J f D) ctx n)))"
| "reply_cost J f D (AskHost s c k) = (\<lambda>n. charge J f (host_call_of c) n +
     reply_cost J f D (k (snd (sh_host (bridged J f D) c n))) (fst (sh_host (bridged J f D) c n)))"

text \<open>One round of a host: the task runs, the session is polled, a callback is answered.\<close>

definition host_round :: "json_lib \<Rightarrow> 'n answering \<Rightarrow> string \<Rightarrow> session \<times> 'n \<Rightarrow> session \<times> 'n" where
  "host_round J f fresh st = (let (se, n) = st; se = run_session J fresh se in
     case se_operation se of
       None \<Rightarrow> (se, n)
     | Some p \<Rightarrow>
         let (se, snapshot) = poll_session fresh se p in
         case (os_state snapshot, se_operation se) of
           (Callback cb, Some p) \<Rightarrow>
             let (n, reply) = f (cb_call cb) n;
                 (p, _) = complete_operation (cb_id cb) (length (to_text J (enc_reply reply))) reply p
             in (se\<lparr>se_operation := Some p\<rparr>, n)
         | _ \<Rightarrow> (se, n))"

definition operation_end :: "unit + string option \<Rightarrow> operation_state" where
  "operation_end r = (case r of Inl _ \<Rightarrow> Failed ''server output exceeds byte limit'' | Inr response \<Rightarrow> Complete response)"

text \<open>An operation whose task can run: nothing is outstanding.\<close>

definition runnable :: "operation \<Rightarrow> bool" where
  "runnable p = (op_channel p = None \<and> op_waiting p = None \<and> op_terminal p = None)"

definition ended_with :: "unit + string option \<Rightarrow> client_session \<Rightarrow> session \<Rightarrow> bool" where
  "ended_with r s se = (se_client se = s \<and>
     (case se_operation se of Some p \<Rightarrow> op_terminal p = Some (operation_end r) \<and> op_task p = None | None \<Rightarrow> False))"

text \<open>What a round does to a session whose task goes on with \<open>t\<close>.\<close>

lemma settle_http_open: "op_terminal p = None \<Longrightarrow> settle_http fresh se p = (se, p)"
  by (simp add: settle_http_def)

lemma settle_http_fields:
  "se_client (fst (settle_http fresh se p)) = se_client se" "op_terminal (snd (settle_http fresh se p)) = op_terminal p"
  "op_task (snd (settle_http fresh se p)) = op_task p"
  by (auto simp: settle_http_def Let_def split: option.splits prod.splits)

lemma round_finishes:
  assumes "se_operation se = Some p" "runnable p" "run_session J fresh se = task_halts fresh (Finished (s, r)) se p"
  shows "ended_with r s (fst (host_round J f fresh (se, n))) \<and> snd (host_round J f fresh (se, n)) = n"
  using assms
  by (simp add: host_round_def task_halts_def poll_session_def op_finish_def observe_operation_def ended_with_def
      settle_http_fields case_prod_beta Let_def operation_end_def split: sum.split)

lemma round_asks:
  assumes "se_operation se = Some p" "runnable p" "run_session J fresh se = task_halts fresh (Waits s call k) se p"
    and fits: "op_reply_bytes p + length (to_text J (enc_reply (snd (f call n)))) \<le> max_bytes"
  shows "\<exists>p' se'. host_round J f fresh (se, n) = (se', fst (f call n)) \<and> se_operation se' = Some p' \<and> runnable p' \<and>
    op_task p' = Some (Resumed (k (snd (f call n)))) \<and>
    op_reply_bytes p' = op_reply_bytes p + length (to_text J (enc_reply (snd (f call n))))"
  using assms
  by (simp add: host_round_def task_halts_def poll_session_def op_finish_def observe_operation_def runnable_def
      settle_http_open complete_operation_def case_prod_beta Let_def)

lemma resumed_runs:
  "se_operation se = Some p \<Longrightarrow> op_task p = Some (Resumed t) \<Longrightarrow> run_session J fresh se = task_halts fresh (advance J t) se p"
  by (simp add: run_session_def)

definition driven_to :: "json_lib \<Rightarrow> 'n answering \<Rightarrow> string \<Rightarrow> session \<times> 'n \<Rightarrow> 'n \<times> outcome \<Rightarrow> bool" where
  "driven_to J f fresh st out \<longleftrightarrow> (\<exists>rounds. let (se, n) = (host_round J f fresh ^^ rounds) st in
     n = fst out \<and> ended_with (snd (snd out)) (fst (snd out)) se)"

lemma driven_round: "driven_to J f fresh (host_round J f fresh st) out \<Longrightarrow> driven_to J f fresh st out"
  unfolding driven_to_def by (metis comp_apply funpow_Suc_right)

text \<open>A question that is put to the host costs one round; the task goes on with the answer.\<close>

lemma driven_question:
  assumes "se_operation se = Some p" "runnable p"
    and "run_session J fresh se = task_halts fresh (Waits s call (\<lambda>r. k (conv (reply_result r)))) se p"
    and "\<not> oversized J call" "op_reply_bytes p + (charge J f call n + c) \<le> max_bytes"
    and go: "\<And>se p n. se_operation se = Some p \<Longrightarrow> runnable p \<Longrightarrow>
      run_session J fresh se = task_halts fresh (advance J (k (conv (snd (asked J f call n0))))) se p \<Longrightarrow>
      op_reply_bytes p + c \<le> max_bytes \<Longrightarrow> n = fst (asked J f call n0) \<Longrightarrow> driven_to J f fresh (se, n) out"
    and "n0 = n"
  shows "driven_to J f fresh (se, n) out"
proof -
  have "op_reply_bytes p + length (to_text J (enc_reply (snd (f call n)))) \<le> max_bytes"
    using assms(4,5) by (simp add: charge_def)
  from round_asks [where f = f and n = n, OF assms(1-3) this] obtain p' se' where
    r: "host_round J f fresh (se, n) = (se', fst (f call n))" "se_operation se' = Some p'" "runnable p'"
      "op_task p' = Some (Resumed (k (conv (reply_result (snd (f call n))))))"
      "op_reply_bytes p' = op_reply_bytes p + length (to_text J (enc_reply (snd (f call n))))"
    by blast
  have bytes: "op_reply_bytes p' + c \<le> max_bytes" using assms(4,5) by (simp add: r(5) charge_def)
  have a: "asked J f call n0 = (fst (f call n), reply_result (snd (f call n)))" using assms(4,7) by (simp add: asked_def)
  have run: "run_session J fresh se' = task_halts fresh (advance J (k (conv (snd (asked J f call n0))))) se' p'"
    unfolding a by (simp only: resumed_runs [OF r(2,4)] snd_conv)
  have n': "fst (f call n) = fst (asked J f call n0)" by (simp only: a fst_conv)
  have "driven_to J f fresh (se', fst (f call n)) out" by (rule go [OF r(2,3) run bytes n'])
  with r(1) have "driven_to J f fresh (host_round J f fresh (se, n)) out" by simp
  then show ?thesis by (rule driven_round)
qed

lemma task_driven:
  fixes t :: "outcome task"
  assumes "se_operation se = Some p" "runnable p" "run_session J fresh se = task_halts fresh (advance J t) se p"
    and "op_reply_bytes p + reply_cost J f D t n \<le> max_bytes"
  shows "driven_to J f fresh (se, n) (run_task (bridged J f D) t n)"
  using assms
proof (induction t arbitrary: se p n)
  case (Done a)
  obtain s r where a: "a = (s, r)" by (cases a)
  with Done.prems round_finishes [of se p J fresh s r f n]
  have "ended_with r s (fst (host_round J f fresh (se, n))) \<and> snd (host_round J f fresh (se, n)) = n" by simp
  then have "case (host_round J f fresh ^^ 1) (se, n) of (se, m) \<Rightarrow> m = n \<and> ended_with r s se"
    by (simp add: case_prod_beta)
  then show ?case unfolding driven_to_def a by (intro exI [of _ 1]) (simp add: Let_def)
next
  case (AskTools s ctx k)
  let ?call = "HostListTools (rq_source_type ctx) (header_map ctx)"
  have answer: "sh_tools (bridged J f D) ctx n = (fst (asked J f ?call n), tools_result (snd (asked J f ?call n)))"
    by (simp add: bridged_def Let_def)
  show ?case
  proof (cases "oversized J ?call")
    case True
    then have "asked J f ?call n = (n, Inl call_too_large)" by (simp add: asked_def)
    with True AskTools.prems answer show ?thesis
      by (simp add: AskTools.IH oversized_def Let_def tools_result_def charge_def)
  next
    case False
    with AskTools.prems answer show ?thesis
      by (intro driven_question [where call = ?call and conv = tools_result and k = k and s = s and n0 = n and p = p
            and c = "reply_cost J f D (k (tools_result (snd (asked J f ?call n)))) (fst (asked J f ?call n))"])
        (simp_all add: AskTools.IH oversized_def Let_def)
  qed
next
  case (AskHost s c k)
  let ?call = "host_call_of c"
  have answer: "sh_host (bridged J f D) c n = asked J f ?call n" by (simp add: bridged_def)
  show ?case
  proof (cases "oversized J ?call")
    case True
    then have "asked J f ?call n = (n, Inl call_too_large)" by (simp add: asked_def)
    with True AskHost.prems answer show ?thesis
      by (simp add: AskHost.IH oversized_def Let_def charge_def)
  next
    case False
    with AskHost.prems answer show ?thesis
      by (intro driven_question [where call = ?call and conv = "\<lambda>r. r" and k = k and s = s and n0 = n and p = p
            and c = "reply_cost J f D (k (snd (asked J f ?call n))) (fst (asked J f ?call n))"])
        (simp_all add: AskHost.IH oversized_def Let_def)
  qed
qed

text \<open>
  C31. A host that polls a session's operation and completes each callback it is shown brings it
  to its end, and the end is the bounded protocol's: the result, the client's session and the
  host's own state are those of the protocol run directly against that host, as long as the
  replies together keep within the byte limit.
\<close>

theorem session_answers_as_protocol:
  assumes "se_operation se = Some (start_operation input hs initialization D)"
    and "reply_cost J f D (handle_line_bounded D J hs (se_client se) (in_line input) max_bytes) n \<le> max_bytes"
  shows "\<exists>rounds. let (se', n') = (host_round J f fresh ^^ rounds) (se, n);
      (m, s, r) = run_task (bridged J f D) (handle_line_bounded D J hs (se_client se) (in_line input) max_bytes) n
    in n' = m \<and> se_client se' = s \<and>
      (case se_operation se' of Some p \<Rightarrow> op_terminal p = Some (operation_end r) | None \<Rightarrow> False)"
proof -
  let ?p = "start_operation input hs initialization D"
  let ?t = "handle_line_bounded D J hs (se_client se) (in_line input) max_bytes"
  have run: "run_session J fresh se = task_halts fresh (advance J ?t) se ?p"
    by (simp add: run_session_def assms(1) start_operation_def)
  have start: "runnable ?p" by (simp add: runnable_def start_operation_def)
  have "op_reply_bytes ?p + reply_cost J f D ?t n \<le> max_bytes"
    using assms(2) by (simp add: start_operation_def)
  then have "driven_to J f fresh (se, n) (run_task (bridged J f D) ?t n)"
    by (rule task_driven [OF assms(1) start run])
  then obtain rounds where r: "let (se', n') = (host_round J f fresh ^^ rounds) (se, n) in
      n' = fst (run_task (bridged J f D) ?t n) \<and>
      ended_with (snd (snd (run_task (bridged J f D) ?t n))) (fst (snd (run_task (bridged J f D) ?t n))) se'"
    unfolding driven_to_def by blast
  show ?thesis
    by (rule exI [of _ rounds]) (use r in \<open>auto simp: Let_def ended_with_def split: prod.splits option.splits\<close>)
qed

text \<open>A session asked for its tools, and a host that has none.\<close>

definition tools_request :: json where
  "tools_request = JObj [(''id'', JInt 1), (''jsonrpc'', JStr ''2.0''), (''method'', JStr ''tools/list'')]"

definition no_tools :: "unit answering" where
  "no_tools call n = (n, ReplySuccess (JArr []))"

definition asking_session :: session where
  "asking_session = \<lparr>se_client = session_new ''mcp'',
     se_config = \<lparr>sc_session_id = ''1'', sc_info = JNull, sc_prefix = ''mcp'', sc_resources = []\<rparr>,
     se_http_open = None, se_http = None,
     se_operation = Some (start_operation \<lparr>in_operation_id = ''1'', in_line = []\<rparr> [] False (sh_decl sample_host)), se_sequence = 1\<rparr>"

lemma sample_reply_cost:
  "reply_cost (sample_json tools_request) no_tools (sh_decl sample_host)
     (handle_line_bounded (sh_decl sample_host) (sample_json tools_request) [] (session_new ''mcp'') [] max_bytes) () \<le> max_bytes"
  by (simp add: handle_line_bounded_def handle_single_message_def handle_request_def sample_json_def tools_request_def
      is_batch_def valid_request_id_def as_i64_def bridged_def asked_def no_tools_def charge_def oversized_def to_text_def
      enc_call_def jobject_def max_bytes_def Let_def tools_result_def dec_list_def write_response_def limited_write_def
      success_response_def envelope_def)

theorem session_answers_as_protocol_witness:
  "\<exists>rounds. case se_operation (fst ((host_round (sample_json tools_request) no_tools ''c'' ^^ rounds) (asking_session, ()))) of
     Some p \<Rightarrow> op_terminal p \<noteq> None | None \<Rightarrow> False"
proof -
  have start: "se_operation asking_session = Some (start_operation \<lparr>in_operation_id = ''1'', in_line = []\<rparr> [] False (sh_decl sample_host))"
    by (simp add: asking_session_def)
  have cost: "reply_cost (sample_json tools_request) no_tools (sh_decl sample_host)
     (handle_line_bounded (sh_decl sample_host) (sample_json tools_request) [] (se_client asking_session)
       (in_line \<lparr>in_operation_id = ''1'', in_line = []\<rparr>) max_bytes) () \<le> max_bytes"
    using sample_reply_cost by (simp add: asking_session_def)
  from session_answers_as_protocol [OF start cost, of "''c''"] obtain rounds where
    "let (se', n') = (host_round (sample_json tools_request) no_tools ''c'' ^^ rounds) (asking_session, ());
         (m, s, r) = run_task (bridged (sample_json tools_request) no_tools (sh_decl sample_host))
           (handle_line_bounded (sh_decl sample_host) (sample_json tools_request) [] (se_client asking_session)
             (in_line \<lparr>in_operation_id = ''1'', in_line = []\<rparr>) max_bytes) ()
     in n' = m \<and> se_client se' = s \<and>
       (case se_operation se' of Some p \<Rightarrow> op_terminal p = Some (operation_end r) | None \<Rightarrow> False)" by blast
  then show ?thesis
    by (intro exI [of _ rounds]) (simp add: case_prod_beta Let_def split: option.splits)
qed

end
