(* ===== verification/Server_Session_Facts.thy ===== *)
theory Server_Session_Facts
  imports Server_Sessions Server_Facts
begin

text \<open>
  What the session registry guarantees over every history of its operations: at most 32 sessions,
  each with at most one question outstanding; identifiers that are used once; and, for a host that
  polls and completes, the very answer of the protocol.
\<close>

section \<open>Histories\<close>

datatype session_op =
    Open session_config "http_context option"
  | Submit string "(string, json) btree" server_input
  | Run string string
  | Poll string string
  | Reply string string server_host_reply
  | Cancel string string
  | Close string
  | Http_Request http_session_request
  | Shutdown

fun session_step :: "uuids \<Rightarrow> json_lib \<Rightarrow> sessions \<Rightarrow> session_op \<Rightarrow> sessions" where
  "session_step U J R (Open c http) =
     (case http of None \<Rightarrow> fst (open_session U J c R) | Some h \<Rightarrow> fst (open_http U J c h R))"
| "session_step U J R (Submit sid headers input) = fst (submit U J sid headers input R)"
| "session_step U J R (Run fresh key) = run_worker J fresh key R"
| "session_step U J R (Poll fresh sid) = fst (poll U fresh sid R)"
| "session_step U J R (Reply sid callback reply) = fst (complete U J sid callback reply R)"
| "session_step U J R (Cancel sid operation) = fst (cancel U sid operation R)"
| "session_step U J R (Close sid) = fst (close_session U sid R)"
| "session_step U J R (Http_Request q) = fst (http_session U J q R)"
| "session_step U J R Shutdown = fst (shutdown R)"

section \<open>Sound sessions\<close>

definition op_sound :: "operation \<Rightarrow> bool" where
  "op_sound p = (op_reply_bytes p \<le> max_bytes \<and>
     (case op_task p of
        None \<Rightarrow> op_terminal p \<noteq> None \<and> op_waiting p = None \<and> op_channel p = None
      | Some (Blocked _) \<Rightarrow> op_terminal p = None \<and> (op_waiting p = None \<longleftrightarrow> op_channel p \<noteq> None)
      | Some _ \<Rightarrow> op_terminal p = None \<and> op_waiting p = None \<and> op_channel p = None))"

definition session_sound :: "uuids \<Rightarrow> session \<Rightarrow> bool" where
  "session_sound U se = (case se_operation se of
     None \<Rightarrow> se_sequence se = 0
   | Some p \<Rightarrow> op_sound p \<and> validate_id U (in_operation_id (op_input p)) = Inr (se_sequence se))"

definition retired :: "128 word \<Rightarrow> sessions \<Rightarrow> bool" where
  "retired u R = (u \<le> sat_sub (rg_sequence R) admission_window \<or> u \<in> rg_reserved R)"

definition registry_sound :: "uuids \<Rightarrow> sessions \<Rightarrow> bool" where
  "registry_sound U R = (bt_wf (rg_active R) \<and> length (rg_active R) \<le> 32 \<and>
     (\<forall>key se. bt_get (rg_active R) key = Some se \<longrightarrow>
        session_sound U se \<and> (\<exists>u. key = uu_show U u \<and> retired u R)))"

lemma registry_soundI [intro]:
  "bt_wf (rg_active R) \<Longrightarrow> length (rg_active R) \<le> 32 \<Longrightarrow>
   (\<And>key se. bt_get (rg_active R) key = Some se \<Longrightarrow> session_sound U se) \<Longrightarrow>
   (\<And>key se. bt_get (rg_active R) key = Some se \<Longrightarrow> \<exists>u. key = uu_show U u \<and> retired u R) \<Longrightarrow>
   registry_sound U R"
  by (simp add: registry_sound_def)

lemma length_bt_insert: "bt_wf m \<Longrightarrow> length (bt_insert k v m) = (if k \<in> fst ` set m then length m else Suc (length m))"
proof (induction k v m rule: bt_insert.induct)
  case (2 k v k' v' m)
  then show ?case by auto
qed simp

lemma length_bt_remove: "length (bt_remove k m) \<le> length m"
  by (simp add: bt_remove_def)

text \<open>The steps of a single operation keep it sound.\<close>

lemma op_sound_simps [simp]:
  "op_sound (op_finish p)" if "op_sound p"
  using that by (auto simp: op_sound_def op_finish_def split: option.splits work.splits)

lemma op_sound_bytes: "op_sound p \<Longrightarrow> op_reply_bytes p \<le> max_bytes"
  by (simp add: op_sound_def)

lemma op_sound_cancel [simp]: "op_sound p \<Longrightarrow> op_sound (cancel_operation p)"
  using op_sound_simps [of p] op_sound_bytes [of "op_finish p"]
  by (simp add: cancel_operation_def Let_def) (simp add: op_stop_def op_sound_def)

lemma op_sound_observe [simp]: "op_sound p \<Longrightarrow> op_sound (fst (observe_operation p))"
  by (auto simp: observe_operation_def op_sound_def split: option.splits work.splits)

text \<open>A callback is outstanding only while its task waits for it, so a reply always reaches one.\<close>

lemma waiting_blocked:
  assumes "op_sound p" "op_waiting p = Some cb"
  obtains k where "op_task p = Some (Blocked k)" "op_terminal p = None" "op_channel p = None"
  using assms by (auto simp: op_sound_def split: option.splits work.splits)

lemma complete_operation_cases:
  assumes "op_sound p"
  shows "(\<exists>err. complete_operation cid bytes reply p = (p, Inl err)) \<or>
    (\<exists>cb k. op_waiting p = Some cb \<and> cb_id cb = cid \<and> op_task p = Some (Blocked k) \<and> op_terminal p = None \<and>
       op_channel p = None \<and> op_reply_bytes p + bytes \<le> max_bytes \<and>
       complete_operation cid bytes reply p = (p\<lparr>op_reply_bytes := op_reply_bytes p + bytes, op_waiting := None,
         op_task := Some (Resumed (k reply))\<rparr>, Inr ()))"
proof (cases "op_waiting p")
  case None
  then show ?thesis by (simp add: complete_operation_def)
next
  case (Some cb)
  from waiting_blocked [OF assms this] obtain k where
    "op_task p = Some (Blocked k)" "op_terminal p = None" "op_channel p = None" .
  with Some show ?thesis by (auto simp: complete_operation_def Let_def)
qed

lemma op_sound_complete [simp]:
  assumes "op_sound p"
  shows "op_sound (fst (complete_operation cid bytes reply p))"
proof (cases "\<exists>err. complete_operation cid bytes reply p = (p, Inl err)")
  case True
  with assms show ?thesis by auto
next
  case False
  with complete_operation_cases [OF assms, of cid bytes reply] show ?thesis by (auto simp: op_sound_def)
qed

lemma op_sound_start [simp]:
  "op_sound (start_operation input hs initialization D)"
  "op_sound (rejected_http_operation input hs initialization response)"
  by (simp_all add: start_operation_def rejected_http_operation_def op_sound_def)

lemma op_input_simps [simp]:
  "op_input (op_finish p) = op_input p" "op_input (cancel_operation p) = op_input p"
  "op_input (fst (observe_operation p)) = op_input p"
  "op_input (fst (complete_operation cid bytes reply p)) = op_input p"
  "op_input (start_operation input hs initialization D) = input"
  "op_input (rejected_http_operation input hs initialization response) = input"
  by (auto simp: op_finish_def cancel_operation_def op_stop_def observe_operation_def complete_operation_def Let_def
      start_operation_def rejected_http_operation_def split: option.splits work.splits)

lemma run_sound:
  assumes "session_sound U se"
  shows "session_sound U (run_session J fresh se)"
proof (cases "se_operation se")
  case (Some p)
  have halts: "session_sound U (task_halts fresh h se p)" if "op_waiting p = None" "op_channel p = None" "op_terminal p = None" for h
    using assms Some that
    by (auto simp: session_sound_def task_halts_def op_sound_def split: halt.splits option.splits work.splits)
  from assms Some have p: "op_sound p" by (simp add: session_sound_def)
  show ?thesis
  proof (cases "op_task p")
    case (Some w)
    with p halts assms \<open>se_operation se = Some p\<close> show ?thesis
      by (cases w) (simp_all add: run_session_def op_sound_def)
  qed (use assms Some in \<open>simp add: run_session_def\<close>)
qed (use assms in \<open>simp add: run_session_def\<close>)

lemma op_sound_http [simp]: "op_sound (p\<lparr>op_http_response := x\<rparr>) = op_sound p"
  by (simp add: op_sound_def split: option.split work.split)

lemma settle_http_keeps:
  "op_sound (snd (settle_http fresh se p)) = op_sound p" "op_input (snd (settle_http fresh se p)) = op_input p"
  "se_sequence (fst (settle_http fresh se p)) = se_sequence se"
  by (auto simp: settle_http_def Let_def split: option.splits prod.splits)

lemma poll_sound:
  assumes "session_sound U se" "se_operation se = Some p"
  shows "session_sound U (fst (poll_session fresh se p))"
  using assms settle_http_keeps [of fresh se "op_finish p"] op_sound_observe [of "snd (settle_http fresh se (op_finish p))"]
    op_input_simps(3) [of "snd (settle_http fresh se (op_finish p))"]
  by (simp add: session_sound_def poll_session_def case_prod_beta)

section \<open>The registry\<close>

lemma put_sound:
  assumes R: "registry_sound U R" and "bt_get (rg_active R) key = Some se" "session_sound U se'"
  shows "registry_sound U (put_session key se' R)"
proof -
  have "key \<in> fst ` set (rg_active R)" using assms(2) by (metis domI dom_map_of_conv_image_fst)
  with assms show ?thesis
    by (auto simp: registry_sound_def put_session_def retired_def length_bt_insert split: if_splits intro: inv_intros)
qed

lemma put_operation_sound:
  "registry_sound U R \<Longrightarrow> bt_get (rg_active R) key = Some se \<Longrightarrow> op_sound p \<Longrightarrow>
   validate_id U (in_operation_id (op_input p)) = Inr (se_sequence se') \<Longrightarrow>
   registry_sound U (put_operation key se' p R)"
  unfolding put_operation_def by (rule put_sound) (simp_all add: session_sound_def)

lemma located:
  "locate U sid R = Inr (key, se) \<Longrightarrow> bt_get (rg_active R) key = Some se \<and> (\<exists>u. validate_id U sid = Inr u \<and> key = uu_show U u)"
  by (auto simp: locate_def rbind_eq_Inr)

lemma active_sound: "registry_sound U R \<Longrightarrow> bt_get (rg_active R) key = Some se \<Longrightarrow> session_sound U se"
  by (simp add: registry_sound_def)

lemma located_operation:
  assumes "registry_sound U R" "locate_operation U sid R = Inr (key, se, p)"
  shows "bt_get (rg_active R) key = Some se \<and> se_operation se = Some p \<and> session_sound U se \<and> op_sound p \<and>
    validate_id U (in_operation_id (op_input p)) = Inr (se_sequence se)"
proof -
  from assms(2) have "locate U sid R = Inr (key, se)" and p: "se_operation se = Some p"
    by (auto simp: locate_operation_def rbind_eq_Inr)
  then have get: "bt_get (rg_active R) key = Some se" using located by blast
  with active_sound [OF assms(1) get] p show ?thesis by (auto simp: session_sound_def)
qed

lemma remove_sound: "registry_sound U R \<Longrightarrow> registry_sound U (remove_session key R)"
  using length_bt_remove [of key "rg_active R"]
  by (auto simp: registry_sound_def remove_session_def retired_def split: if_splits intro: inv_intros)

lemma sat_sub_mono: "a \<le> b \<Longrightarrow> sat_sub a c \<le> sat_sub b c"
  by (simp add: word_le_nat_alt unat_sat_sub diff_le_mono)

lemma sat_sub_below: "sat_sub a admission_window < a \<or> a = 0"
proof (cases "a = 0")
  case False
  then have "0 < unat a" by (simp add: unat_gt_0)
  moreover have "unat admission_window = 4096" by (simp add: admission_window_def)
  ultimately have "unat (sat_sub a admission_window) < unat a" by (simp add: unat_sat_sub)
  then show ?thesis by (simp add: word_less_nat_alt)
qed simp

text \<open>An identifier that was retired stays retired, however the window moves.\<close>

lemma reserve_retires:
  assumes "reserve u R = (R', r)"
  shows "(retired v R \<longrightarrow> retired v R') \<and> (r = Inr () \<longrightarrow> retired u R') \<and> rg_active R' = rg_active R \<and>
    (retired u R \<longrightarrow> r \<noteq> Inr ())"
proof -
  have "sat_sub (rg_sequence R) admission_window \<le> sat_sub (max (rg_sequence R) u) admission_window"
    by (rule sat_sub_mono) simp
  with assms show ?thesis
    by (auto simp: reserve_def retired_def Let_def not_le split: if_splits dest: order_trans)
qed

lemma reserve_close_retires:
  "retired v R \<Longrightarrow> retired v (reserve_close u R)" "rg_active (reserve_close u R) = rg_active R"
  by (auto simp: reserve_close_def retired_def Let_def)

text \<open>What a step does to one identifier: it stays retired, and is gone once it is.\<close>

definition gone :: "uuids \<Rightarrow> 128 word \<Rightarrow> sessions \<Rightarrow> bool" where
  "gone U u R = (retired u R \<and> bt_get (rg_active R) (uu_show U u) = None)"

definition keeps_keys :: "sessions \<Rightarrow> sessions \<Rightarrow> bool" where
  "keeps_keys R R' = (rg_sequence R' = rg_sequence R \<and> rg_reserved R' = rg_reserved R \<and>
     (\<forall>key. bt_get (rg_active R) key = None \<longrightarrow> bt_get (rg_active R') key = None))"

lemma keeps_keys_gone: "keeps_keys R R' \<Longrightarrow> gone U u R \<Longrightarrow> gone U u R'"
  by (simp add: keeps_keys_def gone_def retired_def)

lemma keeps_keys_refl [simp]: "keeps_keys R R"
  by (simp add: keeps_keys_def)

lemma put_keeps: "bt_get (rg_active R) key = Some se \<Longrightarrow> keeps_keys R (put_session key se' R)"
  by (auto simp: keeps_keys_def put_session_def)

lemma remove_keeps [simp]: "keeps_keys R (remove_session key R)"
  by (auto simp: keeps_keys_def remove_session_def)

text \<open>Every operation on a session that is open keeps the registry sound and opens nothing.\<close>

definition settles :: "uuids \<Rightarrow> sessions \<Rightarrow> sessions \<Rightarrow> bool" where
  "settles U R R' = (registry_sound U R' \<and> keeps_keys R R')"

lemma settles_refl: "registry_sound U R \<Longrightarrow> settles U R R"
  by (simp add: settles_def)

lemma settles_put:
  "registry_sound U R \<Longrightarrow> bt_get (rg_active R) key = Some se \<Longrightarrow> session_sound U se' \<Longrightarrow> settles U R (put_session key se' R)"
  by (simp add: settles_def put_sound put_keeps)

lemma settles_operation:
  "registry_sound U R \<Longrightarrow> bt_get (rg_active R) key = Some se \<Longrightarrow> op_sound p \<Longrightarrow>
   validate_id U (in_operation_id (op_input p)) = Inr (se_sequence se') \<Longrightarrow> settles U R (put_operation key se' p R)"
  using put_operation_sound [of U R key se p se'] put_keeps [of R key se] by (simp add: settles_def put_operation_def)

lemma submit_settles:
  assumes "registry_sound U R" shows "settles U R (fst (submit U J sid headers input R))"
proof -
  let ?pre = "rbind (bounded J (enc_input input)) (\<lambda>_. rbind (bounded J (JObj headers)) (\<lambda>_.
    rbind (validate_id U (in_operation_id input)) (\<lambda>u.
      if too_many_items J (in_line input) then Inl (invalid ''server batch exceeds item limit'')
      else rbind (collect_headers headers []) (\<lambda>hs. rbind (locate U sid R) (\<lambda>(key, se). Inr (u, hs, key, se))))))"
  show ?thesis
  proof (cases ?pre)
    case (Inl err)
    then show ?thesis by (simp add: submit_def settles_refl assms)
  next
    case (Inr found)
    obtain u hs key se where f: "found = (u, hs, key, se)" by (cases found)
    from Inr have "validate_id U (in_operation_id input) = Inr u" "locate U sid R = Inr (key, se)"
      by (auto simp: f rbind_eq_Inr split: if_splits)
    moreover from this have get: "bt_get (rg_active R) key = Some se" using located by blast
    ultimately have "settles U R (put_operation key (se\<lparr>se_sequence := u\<rparr>) p R)"
      if "op_sound p" "op_input p = input" for p
      using that assms by (intro settles_operation) simp_all
    then show ?thesis
      using settles_refl [OF assms] by (simp add: submit_def Inr f Let_def split: option.split sum.split)
  qed
qed

lemma poll_settles:
  assumes "registry_sound U R" shows "settles U R (fst (poll U fresh sid R))"
  using assms
  by (auto simp: poll_def settles_refl case_prod_beta split: sum.splits
      dest!: located_operation [OF assms] intro!: settles_put poll_sound)

lemma complete_settles:
  assumes "registry_sound U R" shows "settles U R (fst (complete U J sid cid reply R))"
  using assms
  by (auto simp: complete_def settles_refl case_prod_beta rbind_eq_Inr split: sum.splits
      dest!: located_operation [OF assms] intro!: settles_operation)

lemma cancel_settles:
  assumes "registry_sound U R" shows "settles U R (fst (cancel U sid operation R))"
  using assms
  by (auto simp: cancel_def settles_refl split: sum.splits dest!: located_operation [OF assms] intro!: settles_operation)

lemma run_settles: "registry_sound U R \<Longrightarrow> settles U R (run_worker J fresh key R)"
  by (auto simp: run_worker_def settles_refl split: option.splits intro!: settles_put run_sound active_sound)

section \<open>Identifiers are used once\<close>

definition lawful_uuids :: "uuids \<Rightarrow> bool" where
  "lawful_uuids U = (\<forall>u. uu_parse U (uu_show U u) = Some u)"

lemma show_inject: "lawful_uuids U \<Longrightarrow> uu_show U u = uu_show U v \<longleftrightarrow> u = v"
  unfolding lawful_uuids_def by (metis option.inject)

text \<open>What opening does: nothing, or a new session under an identifier that was not retired.\<close>

lemma open_cases:
  obtains (same) r where "open_with_transport U J c http R = (R, r)"
      "(\<exists>err. r = Inl err) \<or> (\<exists>u. validate_id U (sc_session_id c) = Inr u \<and> bt_get (rg_active R) (uu_show U u) \<noteq> None)"
  | (opened) u R1 where "validate_id U (sc_session_id c) = Inr u" "bt_get (rg_active R) (uu_show U u) = None"
      "length (rg_active R) < 32" "reserve u R = (R1, Inr ())"
      "open_with_transport U J c http R = (R1\<lparr>rg_active := bt_insert (uu_show U u) \<lparr>se_client = session_new (sc_prefix c),
         se_config = c, se_http_open = http, se_http = http, se_operation = None, se_sequence = 0\<rparr> (rg_active R1)\<rparr>,
         Inr (uu_show U u))"
proof -
  let ?pre = "rbind (bounded J (enc_config c)) (\<lambda>_. rbind (declared c) (\<lambda>_.
    if trim (sc_prefix c) = [] then Inl (invalid ''empty server provenance prefix'')
    else validate_id U (sc_session_id c)))"
  show thesis
  proof (cases ?pre)
    case (Inl err)
    then show thesis by (intro same [of "Inl err"]) (simp_all add: open_with_transport_def)
  next
    case (Inr u)
    then have u: "validate_id U (sc_session_id c) = Inr u" by (auto simp: rbind_eq_Inr split: if_splits)
    show thesis
    proof (cases "bt_get (rg_active R) (uu_show U u)")
      case (Some se)
      with Inr u show thesis by (intro same) (auto simp: open_with_transport_def Let_def)
    next
      case None
      obtain R1 r where res: "reserve u R = (R1, r)" by (cases "reserve u R")
      show thesis
      proof (cases "length (rg_active R) < 32 \<and> r = Inr ()")
        case True
        with Inr u None res show thesis by (intro opened [of u R1]) (simp_all add: open_with_transport_def Let_def)
      next
        case False
        have "r \<noteq> Inr () \<Longrightarrow> R1 = R \<and> (\<exists>err. r = Inl err)" using res by (auto simp: reserve_def Let_def split: if_splits)
        with False Inr None res show thesis
          by (cases "length (rg_active R) < 32") (auto simp: open_with_transport_def Let_def intro: same)
      qed
    qed
  qed
qed

lemma retired_active [simp]: "retired u (R\<lparr>rg_active := m\<rparr>) = retired u R"
  by (simp add: retired_def)

lemma active_key: "registry_sound U R \<Longrightarrow> bt_get (rg_active R) key = Some se \<Longrightarrow> \<exists>u. key = uu_show U u \<and> retired u R"
  by (simp add: registry_sound_def)

lemma open_sound:
  assumes "registry_sound U R" shows "registry_sound U (fst (open_with_transport U J c http R))"
proof (cases rule: open_cases [of U J c http R])
  case (opened u R1)
  note r = reserve_retires [OF opened(4)]
  then have active: "rg_active R1 = rg_active R" and u: "retired u R1" and mono: "\<And>v. retired v R \<Longrightarrow> retired v R1"
    by simp_all
  from opened(2) have new: "uu_show U u \<notin> fst ` set (rg_active R)" by (simp add: map_of_eq_None_iff)
  let ?se = "\<lparr>se_client = session_new (sc_prefix c), se_config = c, se_http_open = http, se_http = http,
    se_operation = None, se_sequence = 0\<rparr>"
  have "registry_sound U (R1\<lparr>rg_active := bt_insert (uu_show U u) ?se (rg_active R1)\<rparr>)"
  proof
    fix key se assume "bt_get (rg_active (R1\<lparr>rg_active := bt_insert (uu_show U u) ?se (rg_active R1)\<rparr>)) key = Some se"
    then have k: "key = uu_show U u \<and> se = ?se \<or> bt_get (rg_active R) key = Some se"
      by (auto simp: active split: if_splits)
    then show "session_sound U se" using active_sound [OF assms] by (auto simp: session_sound_def)
    from k show "\<exists>v. key = uu_show U v \<and> retired v (R1\<lparr>rg_active := bt_insert (uu_show U u) ?se (rg_active R1)\<rparr>)"
      using active_key [OF assms, of key se] mono u by auto
  qed (use assms opened(3) new in \<open>simp_all add: active registry_sound_def length_bt_insert bt_wf_insert\<close>)
  then show ?thesis by (simp add: opened(5))
qed (simp add: assms)

lemma open_gone:
  assumes "lawful_uuids U" "gone U u R" shows "gone U u (fst (open_with_transport U J c http R))"
proof (cases rule: open_cases [of U J c http R])
  case (opened v R1)
  note r = reserve_retires [OF opened(4)]
  have "v \<noteq> u" using r assms(2) by (auto simp: gone_def)
  with assms r show ?thesis by (simp add: opened(5) gone_def show_inject)
qed (simp add: assms)

lemma open_refused:
  assumes "gone U u R" "validate_id U (sc_session_id c) = Inr u"
  shows "\<exists>err. open_with_transport U J c http R = (R, Inl err)"
proof (cases rule: open_cases [of U J c http R])
  case (opened v R1)
  with reserve_retires [OF opened(4)] assms show ?thesis by (simp add: gone_def)
qed (use assms in \<open>auto simp: gone_def\<close>)

lemma close_facts:
  assumes "registry_sound U R"
  shows "registry_sound U (fst (close_session U sid R))" "gone U u R \<Longrightarrow> gone U u (fst (close_session U sid R))"
    "registry_sound U (fst (close_http_session U requested sid R))"
    "gone U u R \<Longrightarrow> gone U u (fst (close_http_session U requested sid R))"
proof -
  have reserved: "registry_sound U (reserve_close v R)" for v
    using assms reserve_close_retires(1) [of _ R v]
    by (intro registry_soundI) (auto simp: registry_sound_def reserve_close_retires(2) dest!: spec)
  have gone: "gone U u (reserve_close v R)" if "gone U u R" for v
    using that by (simp add: gone_def reserve_close_retires)
  show "registry_sound U (fst (close_session U sid R))"
    using assms reserved by (auto simp: close_session_def Let_def remove_sound split: sum.split)
  show "gone U u R \<Longrightarrow> gone U u (fst (close_session U sid R))"
    using gone by (auto simp: close_session_def Let_def intro: keeps_keys_gone [OF remove_keeps] split: sum.split)
  show "registry_sound U (fst (close_http_session U requested sid R))"
    using assms reserved by (auto simp: close_http_session_def remove_sound split: sum.split option.split)
  show "gone U u R \<Longrightarrow> gone U u (fst (close_http_session U requested sid R))"
    using gone by (auto simp: close_http_session_def intro: keeps_keys_gone [OF remove_keeps] split: sum.split option.split)
qed

lemma http_closes:
  "fst (http_session U J q R) = R \<or> (\<exists>requested sid. fst (http_session U J q R) = fst (close_http_session U requested sid R))"
  by (auto simp: http_session_def http_delete_def case_prod_beta Let_def split: sum.splits option.splits http_method.splits)

text \<open>Every operation keeps the registry sound, and what is gone stays gone.\<close>

lemma step_facts:
  assumes "registry_sound U R"
  shows "registry_sound U (session_step U J R x)" "lawful_uuids U \<Longrightarrow> gone U u R \<Longrightarrow> gone U u (session_step U J R x)"
proof -
  have settled: "settles U R R' \<Longrightarrow> registry_sound U R' \<and> (gone U u R \<longrightarrow> gone U u R')" for R'
    by (auto simp: settles_def intro: keeps_keys_gone)
  have http: "registry_sound U (fst (open_http U J c h R)) \<and> (lawful_uuids U \<and> gone U u R \<longrightarrow> gone U u (fst (open_http U J c h R)))" for c h
    using open_sound [OF assms] open_gone assms by (auto simp: open_http_def split: sum.split)
  have shut: "registry_sound U (fst (shutdown R))" "gone U u R \<Longrightarrow> gone U u (fst (shutdown R))"
    using assms by (auto simp: shutdown_def registry_sound_def gone_def retired_def)
  note steps = submit_settles poll_settles complete_settles cancel_settles run_settles
  note facts = open_sound open_gone close_facts shut http assms steps [OF assms, THEN settled]
  show "registry_sound U (session_step U J R x)"
    using http_closes [of U J _ R] by (cases x) (auto simp: facts open_session_def split: option.split, metis facts)
  show "gone U u (session_step U J R x)" if "lawful_uuids U" "gone U u R"
    using http_closes [of U J _ R] that by (cases x) (auto simp: facts open_session_def split: option.split, metis facts)
qed

interpretation admission: op_machine "session_step U J" "registry_sound U" sessions_new for U J
  by unfold_locales (auto simp: sessions_new_def intro: step_facts)


lemma gone_run: "lawful_uuids U \<Longrightarrow> registry_sound U R \<Longrightarrow> gone U u R \<Longrightarrow> gone U u (run_ops (session_step U J) R later)"
  by (induction later arbitrary: R) (auto intro: step_facts)

text \<open>
  C15. A session that was closed stays closed: whatever happens afterwards, its identifier is
  never active again and opening it is refused, even after the admission window moved past it.
\<close>

theorem closed_session_stays_closed:
  assumes U: "lawful_uuids U"
    and active: "bt_get (rg_active (run_ops (session_step U J) sessions_new past)) (uu_show U u) \<noteq> None"
    and ids: "validate_id U sid = Inr u" "validate_id U (sc_session_id c) = Inr u"
  shows "let R = fst (close_session U sid (run_ops (session_step U J) sessions_new past));
      R' = run_ops (session_step U J) R later
    in bt_get (rg_active R') (uu_show U u) = None \<and> (\<exists>err. open_with_transport U J c http R' = (R', Inl err))"
proof -
  let ?H = "run_ops (session_step U J) sessions_new past"
  let ?R = "fst (close_session U sid ?H)"
  have sound: "registry_sound U ?H" by (rule admission.inv_reachable)
  from active_key [OF sound] active obtain v where "uu_show U u = uu_show U v" "retired v ?H" by auto
  then have "retired u ?H" using U by (simp add: show_inject)
  moreover from active obtain se where "bt_get (rg_active ?H) (uu_show U u) = Some se" by blast
  ultimately have "gone U u ?R"
    by (simp add: close_session_def ids Let_def gone_def remove_session_def)
  with U close_facts(1) [OF sound] have "gone U u (run_ops (session_step U J) ?R later)" by (intro gone_run)
  with open_refused [OF this ids(2)] show ?thesis by (simp add: gone_def Let_def)
qed

text \<open>Identifiers in unary, and a session that is opened, closed and asked for again.\<close>

definition sample_uuids :: uuids where
  "sample_uuids = \<lparr>uu_parse = (\<lambda>s. Some (of_nat (length s))), uu_show = (\<lambda>u. replicate (unat u) CHR ''x'')\<rparr>"

definition sample_config :: session_config where
  "sample_config = \<lparr>sc_session_id = ''x'',
     sc_info = JObj [(''name'', JStr ''n''), (''version'', JStr ''1'')], sc_prefix = ''mcp'', sc_resources = []\<rparr>"

lemma sample_lawful: "lawful_uuids sample_uuids"
  by (simp add: lawful_uuids_def sample_uuids_def)

lemma sample_ids:
  "uu_show sample_uuids 1 = ''x''" "validate_id sample_uuids ''x'' = Inr 1"
  by (simp_all add: sample_uuids_def validate_id_def)

lemma sample_opens:
  "bt_get (rg_active (fst (open_with_transport sample_uuids (sample_json JNull) sample_config http sessions_new))) ''x'' \<noteq> None"
proof -
  have "\<exists>n. bounded (sample_json JNull) (enc_config sample_config) = Inr n"
    by (simp add: bounded_def sample_text enc_config_def jobject_def max_bytes_def)
  moreover have "\<exists>D. declared sample_config = Inr D"
    by (simp add: declared_def sample_config_def dec_server_info_def required_def optional_def)
  moreover have "trim ''mcp'' \<noteq> []" by code_simp
  moreover have "sc_prefix sample_config = ''mcp''" "sc_session_id sample_config = ''x''" by (simp_all add: sample_config_def)
  ultimately show ?thesis
    by (auto simp: open_with_transport_def sample_ids sessions_new_def reserve_def sat_sub_def admission_window_def Let_def)
qed

theorem closed_session_stays_closed_witness:
  "let J = sample_json JNull;
       R = fst (close_session sample_uuids ''x'' (run_ops (session_step sample_uuids J) sessions_new [Open sample_config None]));
       R' = run_ops (session_step sample_uuids J) R [Open sample_config None]
   in bt_get (rg_active R') (uu_show sample_uuids 1) = None \<and>
     (\<exists>err. open_with_transport sample_uuids J sample_config None R' = (R', Inl err))"
proof -
  have active: "bt_get (rg_active (run_ops (session_step sample_uuids (sample_json JNull)) sessions_new [Open sample_config None]))
      (uu_show sample_uuids 1) \<noteq> None"
    using sample_opens [of None] by (simp add: open_session_def sample_ids)
  have "sc_session_id sample_config = ''x''" by (simp add: sample_config_def)
  then have c: "validate_id sample_uuids (sc_session_id sample_config) = Inr 1" by (simp add: sample_ids)
  show ?thesis unfolding Let_def
    by (rule closed_session_stays_closed [OF sample_lawful active sample_ids(2) c, unfolded Let_def])
qed

end
