(* ===== verification/Store_Claims.thy ===== *)
theory Store_Claims
  imports Store
begin

text \<open>
  Installers of one qualified name that run at once, in this process or in several: a step of
  the system is one port call of one installer, the crash of one, or anything else that leaves
  the claim on the name alone. What the claim protocol guarantees, and where it does not.
\<close>

section \<open>The system\<close>

definition live :: "insert_phase \<Rightarrow> bool" where
  "live phase = (phase = Writing \<or> phase = Confirming \<or> phase = Finished (Inr True) \<or>
     (\<exists>err. phase = Releasing err) \<or> (\<exists>err v. phase = DroppingClaim err v))"

definition won :: "insert_phase \<Rightarrow> bool" where "won phase = (phase = Finished (Inr True))"

fun seen_claim :: "insert_phase \<Rightarrow> versioned option" where
  "seen_claim (ProbingHolder held) = Some held"
| "seen_claim (CheckingLease held) = Some held"
| "seen_claim (TakingOver held) = Some held"
| "seen_claim _ = None"

definition claimant :: "versioned \<Rightarrow> string option" where
  "claimant v = field_str ''server_id'' (v_doc v)"

text \<open>
  The lease is patient when a claim is only taken over from an installer that is no longer at
  work: the one the claim names has neither a write to come nor an install to its name.
\<close>

inductive installers :: "'s storage_ports \<Rightarrow> ('s \<Rightarrow> string \<Rightarrow> string \<Rightarrow> versioned option) \<Rightarrow> ('s \<Rightarrow> nat) \<Rightarrow>
    (nat \<Rightarrow> insert_job) \<Rightarrow> bool \<Rightarrow> 's \<times> (nat \<Rightarrow> insert_phase) \<Rightarrow> 's \<times> (nat \<Rightarrow> insert_phase) \<Rightarrow> bool"
  for P docs vtop job patient where
    call: "\<lbrakk>insert_step P (job i) (phases i) s = (s', phase);
            \<And>held j. patient \<Longrightarrow> phases i = TakingOver held \<Longrightarrow> live (phases j) \<Longrightarrow>
              claimant held \<noteq> Some (ij_server_id (job j))\<rbrakk>
      \<Longrightarrow> installers P docs vtop job patient (s, phases) (s', phases(i := phase))"
  | crash: "installers P docs vtop job patient (s, phases) (s, phases(i := Finished (Inl err)))"
  | other: "\<lbrakk>docs s' server_names_coll (ij_claim_id (job 0)) = docs s server_names_coll (ij_claim_id (job 0));
             vtop s \<le> vtop s'\<rbrakk>
      \<Longrightarrow> installers P docs vtop job patient (s, phases) (s', phases)"

definition same_name :: "(nat \<Rightarrow> insert_job) \<Rightarrow> bool" where
  "same_name job \<longleftrightarrow>
     (\<forall>i. ij_claim_id (job i) = ij_claim_id (job 0)) \<and> inj (\<lambda>i. ij_server_id (job i)) \<and>
     (\<forall>i. field_str ''server_id'' (ij_claim (job i)) = Some (ij_server_id (job i)))"

definition the_claim :: "('s \<Rightarrow> string \<Rightarrow> string \<Rightarrow> versioned option) \<Rightarrow> insert_job \<Rightarrow> 's \<Rightarrow> versioned option" where
  "the_claim docs job s = docs s server_names_coll (ij_claim_id job)"

text \<open>Whoever is at work holds the claim, and a claim read earlier is the claim of now if it has
  its version.\<close>

definition claims_ok :: "('s \<Rightarrow> string \<Rightarrow> string \<Rightarrow> versioned option) \<Rightarrow> ('s \<Rightarrow> nat) \<Rightarrow> (nat \<Rightarrow> insert_job) \<Rightarrow>
    's \<times> (nat \<Rightarrow> insert_phase) \<Rightarrow> bool" where
  "claims_ok docs vtop job sys \<longleftrightarrow>
     (\<forall>i. live (snd sys i) \<longrightarrow>
        (\<exists>v. the_claim docs (job 0) (fst sys) = Some v \<and> claimant v = Some (ij_server_id (job i)))) \<and>
     (\<forall>v. the_claim docs (job 0) (fst sys) = Some v \<longrightarrow> v_version v < vtop (fst sys)) \<and>
     (\<forall>i held. seen_claim (snd sys i) = Some held \<longrightarrow> v_version held < vtop (fst sys) \<and>
        (\<forall>v. the_claim docs (job 0) (fst sys) = Some v \<longrightarrow> v_version v = v_version held \<longrightarrow> v = held))"

lemma live_simps [simp]:
  "\<not> live Looking" "\<not> live Claiming" "\<not> live ReadingClaim" "\<not> live (ProbingHolder h)"
  "\<not> live (CheckingLease h)" "\<not> live (TakingOver h)" "live Writing" "live (Releasing err)"
  "live (DroppingClaim err v)" "live Confirming" "\<not> live BackingOut"
  "live (Finished r) \<longleftrightarrow> r = Inr True"
  by (simp_all add: live_def)

section \<open>What one call does to the claim\<close>

definition keeps :: "('s \<Rightarrow> string \<Rightarrow> string \<Rightarrow> versioned option) \<Rightarrow> ('s \<Rightarrow> nat) \<Rightarrow> insert_job \<Rightarrow>
    insert_phase \<Rightarrow> 's \<Rightarrow> insert_phase \<Rightarrow> 's \<Rightarrow> bool" where
  "keeps docs vtop job phase s phase' s' \<longleftrightarrow>
     the_claim docs job s' = the_claim docs job s \<and> vtop s \<le> vtop s' \<and> (live phase' \<longrightarrow> live phase) \<and>
     (\<forall>held. seen_claim phase' = Some held \<longrightarrow> seen_claim phase = Some held \<or> the_claim docs job s = Some held)"

definition takes :: "('s \<Rightarrow> string \<Rightarrow> string \<Rightarrow> versioned option) \<Rightarrow> ('s \<Rightarrow> nat) \<Rightarrow> insert_job \<Rightarrow>
    insert_phase \<Rightarrow> 's \<Rightarrow> insert_phase \<Rightarrow> 's \<Rightarrow> bool" where
  "takes docs vtop job phase s phase' s' \<longleftrightarrow> phase' = Writing \<and>
     (\<exists>version. the_claim docs job s' = Some \<lparr>v_doc = ij_claim job, v_version = version\<rparr> \<and>
        vtop s \<le> version \<and> version < vtop s') \<and>
     (phase = Claiming \<and> the_claim docs job s = None \<or>
      (\<exists>held v. phase = TakingOver held \<and> the_claim docs job s = Some v \<and> v_version v = v_version held))"

definition drops :: "('s \<Rightarrow> string \<Rightarrow> string \<Rightarrow> versioned option) \<Rightarrow> ('s \<Rightarrow> nat) \<Rightarrow> insert_job \<Rightarrow>
    insert_phase \<Rightarrow> 's \<Rightarrow> insert_phase \<Rightarrow> 's \<Rightarrow> bool" where
  "drops docs vtop job phase s phase' s' \<longleftrightarrow> live phase \<and> \<not> live phase' \<and> seen_claim phase' = None \<and>
     the_claim docs job s' = None \<and> vtop s' = vtop s"

lemma step_claim:
  assumes P: "lawful_ports P docs vtop" and step: "insert_step P job phase s = (s', phase')"
  shows "keeps docs vtop job phase s phase' s' \<or> takes docs vtop job phase s phase' s' \<or>
    drops docs vtop job phase s phase' s'"
proof (cases phase)
  case Looking
  obtain s1 r where c: "sp_query P servers_coll \<lparr>q_filter = FieldEq ''qualified_name'' (ij_name job),
                q_sort = [], q_limit = Some (Suc 0)\<rparr> s = (s1, r)" by fastforce
  show ?thesis using step lawful_query [OF P c]
    by (cases r) (auto simp: Looking insert_step_def c the_claim_def keeps_def split: if_splits)
next
  case Claiming
  obtain s1 r where c: "sp_put P server_names_coll (ij_claim_id job) (ij_claim job) AbsentOnly s = (s1, r)" by fastforce
  show ?thesis using step lawful_put [OF P c]
    by (cases r; cases "projl r") (auto simp: Claiming insert_step_def c the_claim_def keeps_def takes_def put_law_def)
next
  case ReadingClaim
  obtain s1 r where c: "sp_get P server_names_coll (ij_claim_id job) s = (s1, r)" by fastforce
  show ?thesis using step lawful_get [OF P c]
    by (cases r) (auto simp: ReadingClaim insert_step_def c the_claim_def keeps_def split: option.splits)
next
  case (ProbingHolder held)
  show ?thesis
  proof (cases "doc_id P [case field_str ''server_id'' (v_doc held) of None \<Rightarrow> [] | Some h \<Rightarrow> h]")
    case (Inr k)
    obtain s1 r where c: "sp_get P servers_coll k s = (s1, r)" by fastforce
    show ?thesis using step lawful_get [OF P c]
      by (cases r) (auto simp: ProbingHolder insert_step_def Inr c the_claim_def keeps_def split: option.splits)
  qed (use step in \<open>auto simp: ProbingHolder insert_step_def keeps_def\<close>)
next
  case (CheckingLease held)
  obtain s1 now where c: "sp_now_ms P s = (s1, now)" by fastforce
  show ?thesis using step lawful_now [OF P c]
    by (auto simp: CheckingLease insert_step_def c the_claim_def keeps_def split: if_splits)
next
  case (TakingOver held)
  obtain s1 r where c: "sp_put P server_names_coll (ij_claim_id job) (ij_claim job) (AtVersion (v_version held)) s = (s1, r)" by fastforce
  show ?thesis using step lawful_put [OF P c]
    by (cases r; cases "projl r") (auto simp: TakingOver insert_step_def c the_claim_def keeps_def takes_def put_law_def)
next
  case Writing
  obtain s1 r where c: "sp_put P servers_coll (ij_server_key job) (ij_doc job) AbsentOnly s = (s1, r)" by fastforce
  show ?thesis using step lawful_put_doc [OF P c, of server_names_coll "ij_claim_id job"] lawful_put_vtop [OF P c]
    by (cases r) (auto simp: Writing insert_step_def c the_claim_def keeps_def)
next
  case (Releasing err)
  obtain s1 r where c: "sp_get P server_names_coll (ij_claim_id job) s = (s1, r)" by fastforce
  show ?thesis using step lawful_get [OF P c]
    by (cases r) (auto simp: Releasing insert_step_def c the_claim_def keeps_def split: option.splits)
next
  case (DroppingClaim err v)
  obtain s1 r where c: "sp_delete P server_names_coll (ij_claim_id job) (AtVersion v) s = (s1, r)" by fastforce
  show ?thesis
    using step lawful_delete_doc [OF P c, of server_names_coll "ij_claim_id job"] lawful_delete_vtop [OF P c]
    by (cases r) (auto simp: DroppingClaim insert_step_def c the_claim_def keeps_def drops_def)
next
  case Confirming
  obtain s1 r where c: "sp_get P server_names_coll (ij_claim_id job) s = (s1, r)" by fastforce
  show ?thesis using step lawful_get [OF P c]
    by (cases r) (auto simp: Confirming insert_step_def c the_claim_def keeps_def split: if_splits)
next
  case BackingOut
  obtain s1 r where c: "sp_delete P servers_coll (ij_server_key job) AnyVersion s = (s1, r)" by fastforce
  show ?thesis using step lawful_delete_doc [OF P c, of server_names_coll "ij_claim_id job"] lawful_delete_vtop [OF P c]
    by (cases r) (auto simp: BackingOut insert_step_def c the_claim_def keeps_def)
next
  case (Finished r)
  then show ?thesis using step by (auto simp: insert_step_def keeps_def)
qed

lemma claims_ok_keeps:
  assumes inv: "claims_ok docs vtop job (s, phases)" and "keeps docs vtop (job 0) (phases i) s phase' s'"
  shows "claims_ok docs vtop job (s', phases(i := phase'))"
  using assms unfolding claims_ok_def keeps_def by (auto 0 4)

lemma claims_ok_alone:
  assumes inv: "claims_ok docs vtop job (s, phases)" and job: "same_name job"
    and live: "live (phases i)" "live (phases j)"
  shows "j = i"
proof -
  have "\<exists>v. the_claim docs (job 0) s = Some v \<and> claimant v = Some (ij_server_id (job k))" if "live (phases k)" for k
    using inv that by (simp add: claims_ok_def)
  from this [OF live(1)] this [OF live(2)] have "ij_server_id (job j) = ij_server_id (job i)" by auto
  then show ?thesis using job by (simp add: same_name_def inj_def)
qed

lemma claims_ok_drops:
  assumes inv: "claims_ok docs vtop job (s, phases)" and job: "same_name job"
    and d: "drops docs vtop (job 0) (phases i) s phase' s'"
  shows "claims_ok docs vtop job (s', phases(i := phase'))"
proof -
  have "live (phases i)" using d by (simp add: drops_def)
  then have "\<forall>j. live ((phases(i := phase')) j) \<longrightarrow> False"
    using claims_ok_alone [OF inv job] d by (auto simp: drops_def)
  then show ?thesis using inv d by (simp add: claims_ok_def drops_def)
qed

lemma claims_ok_takes:
  assumes inv: "claims_ok docs vtop job (s, phases)"
    and id: "claimant \<lparr>v_doc = ij_claim (job i), v_version = version\<rparr> = Some (ij_server_id (job i))"
    and free: "\<forall>j. j \<noteq> i \<longrightarrow> \<not> live (phases j)"
    and claim: "the_claim docs (job 0) s' = Some \<lparr>v_doc = ij_claim (job i), v_version = version\<rparr>"
    and version: "vtop s \<le> version" "version < vtop s'"
  shows "claims_ok docs vtop job (s', phases(i := Writing))"
  using assms unfolding claims_ok_def by (auto 0 3)

lemma claims_ok_step:
  assumes P: "lawful_ports P docs vtop" and job: "same_name job"
    and step: "installers P docs vtop job True (s, phases) sys'" and inv: "claims_ok docs vtop job (s, phases)"
  shows "claims_ok docs vtop job sys'"
  using step
proof cases
  case (call i s' phase)
  have "ij_claim_id (job i) = ij_claim_id (job 0)" using job unfolding same_name_def by blast
  then have claim: "the_claim docs (job i) = the_claim docs (job 0)" unfolding the_claim_def by (simp only:)
  have id: "claimant \<lparr>v_doc = ij_claim (job i), v_version = version\<rparr> = Some (ij_server_id (job i))" for version
    using job by (simp add: claimant_def same_name_def)
  from step_claim [OF P call(2)] show ?thesis
  proof (elim disjE)
    assume t: "takes docs vtop (job i) (phases i) s phase s'"
    then obtain version where v: "phase = Writing"
        "the_claim docs (job 0) s' = Some \<lparr>v_doc = ij_claim (job i), v_version = version\<rparr>"
        "vtop s \<le> version" "version < vtop s'" by (auto simp: takes_def claim)
    have "\<not> live (phases j)" for j
    proof
      assume live: "live (phases j)"
      then obtain v where v: "the_claim docs (job 0) s = Some v" "claimant v = Some (ij_server_id (job j))"
        using inv by (auto simp: claims_ok_def)
      with t obtain held where held: "phases i = TakingOver held" "v_version v = v_version held"
        by (auto simp: takes_def claim)
      then have "seen_claim (phases i) = Some held" by simp
      moreover have "\<forall>i held. seen_claim (phases i) = Some held \<longrightarrow> v_version v = v_version held \<longrightarrow> v = held"
        using inv v(1) by (simp add: claims_ok_def)
      ultimately have "v = held" using held(2) by blast
      then show False using call(3) [of held j] held(1) live v(2) by simp
    qed
    then show ?thesis using claims_ok_takes [OF inv id _ v(2-4)] call(1) v(1) by simp
  qed (use call(1) claims_ok_keeps [OF inv] claims_ok_drops [OF inv job] in \<open>auto simp: keeps_def drops_def claim\<close>)
next
  case (crash i err)
  then show ?thesis using inv by (auto simp: claims_ok_def)
next
  case (other s')
  then show ?thesis using inv unfolding claims_ok_def the_claim_def by auto (meson less_le_trans)
qed

lemma claims_ok_reachable:
  assumes P: "lawful_ports P docs vtop" and job: "same_name job"
    and run: "(installers P docs vtop job True)\<^sup>*\<^sup>* sys sys'" and inv: "claims_ok docs vtop job sys"
  shows "claims_ok docs vtop job sys'"
  using run
proof (induction rule: rtranclp_induct)
  case (step y z)
  then show ?case by (cases y) (auto intro: claims_ok_step [OF P job])
qed (rule inv)

section \<open>One install per name\<close>

text \<open>Installers of one name, by the letter their identifier repeats.\<close>

definition sample_job :: "nat \<Rightarrow> insert_job" where
  "sample_job i = \<lparr>ij_server_id = replicate i CHR ''s'', ij_name = ''n'', ij_server_key = replicate i CHR ''s'',
     ij_claim_id = ''n'', ij_doc = jobject [(''qualified_name'', JStr ''n'')],
     ij_claim = name_claim ''n'' (replicate i CHR ''s'') 0\<rparr>"

lemma sample_job_same_name: "same_name sample_job"
  unfolding same_name_def
  by (auto simp: sample_job_def inj_def)

text \<open>A schedule: which installer calls next, or how far the clock moves on.\<close>

datatype event = Call nat | Tick int

fun play :: "(nat \<Rightarrow> insert_job) \<Rightarrow> event list \<Rightarrow> mem \<times> (nat \<Rightarrow> insert_phase) \<Rightarrow> mem \<times> (nat \<Rightarrow> insert_phase)" where
  "play job [] sys = sys"
| "play job (Call i # es) (m, phases) =
     (let (m', phase) = insert_step memory_ports (job i) (phases i) m in play job es (m', phases(i := phase)))"
| "play job (Tick ms # es) (m, phases) = play job es (m\<lparr>mem_now := mem_now m + ms\<rparr>, phases)"

fun taking_over :: "insert_phase \<Rightarrow> bool" where
  "taking_over (TakingOver _) = True"
| "taking_over _ = False"

fun calm :: "(nat \<Rightarrow> insert_job) \<Rightarrow> event list \<Rightarrow> mem \<times> (nat \<Rightarrow> insert_phase) \<Rightarrow> bool" where
  "calm job [] sys = True"
| "calm job (Call i # es) (m, phases) =
     (\<not> taking_over (phases i) \<and> calm job es (play job [Call i] (m, phases)))"
| "calm job (Tick ms # es) sys = calm job es (play job [Tick ms] sys)"

lemma play_installers:
  "patient \<longrightarrow> calm job es sys \<Longrightarrow> (installers memory_ports mem_docs mem_next job patient)\<^sup>*\<^sup>* sys (play job es sys)"
proof (induction job es sys rule: play.induct)
  case (2 job i es m phases)
  obtain m' phase where step: "insert_step memory_ports (job i) (phases i) m = (m', phase)" by fastforce
  have "installers memory_ports mem_docs mem_next job patient (m, phases) (m', phases(i := phase))"
    by (rule installers.call [where phases = phases and i = i]) (use step 2(2) in auto)
  moreover have "patient \<longrightarrow> calm job es (m', phases(i := phase))"
    using 2(2) by (auto simp: step)
  ultimately show ?case
    using 2(1) [OF step [symmetric] refl] by (auto simp: step intro: converse_rtranclp_into_rtranclp)
next
  case (3 job ms es m phases)
  have "installers memory_ports mem_docs mem_next job patient (m, phases) (m\<lparr>mem_now := mem_now m + ms\<rparr>, phases)"
    by (rule installers.other) (simp_all add: mem_docs_def)
  then show ?case using 3 by (auto intro: converse_rtranclp_into_rtranclp)
qed simp

definition no_rows :: mem where
  "no_rows = \<lparr>mem_secrets = (\<lambda>_. None), mem_rows = (\<lambda>_. []), mem_next = 0, mem_now = 0\<rparr>"


definition calm_schedule :: "event list" where
  "calm_schedule = [Call 1, Call 2, Call 1, Call 2, Call 2, Call 1, Call 1, Call 2]"

lemma calm_schedule_run:
  "calm sample_job calm_schedule (no_rows, \<lambda>_. Looking) \<and>
   snd (play sample_job calm_schedule (no_rows, \<lambda>_. Looking)) 1 = Finished (Inr True) \<and>
   snd (play sample_job calm_schedule (no_rows, \<lambda>_. Looking)) 2 = Finished (Inr False)"
  by code_simp


definition race_schedule :: "event list" where
  "race_schedule = [Call 1, Call 2, Call 1, Call 2, Call 2, Call 2, Call 1, Call 1, Tick 60000,
     Call 2, Call 2, Call 2, Call 2]"


end
